(* ===== verification/ModRuby_Prelude.thy ===== *)
theory ModRuby_Prelude
  imports Main "HOL-Library.Word"
begin

unbundle bit_operations_syntax

text \<open>
  Shared vocabulary of the development: the C types the sources use (bytes, 32-bit words,
  pointers that may be NULL, NUL-terminated strings), the result type of code that may read or
  write out of bounds, and the generic list lemmas the component theories share.
  A C string is a \<^typ>\<open>string\<close> without its terminating NUL; a \<open>const char*\<close> that may be
  NULL is a \<^typ>\<open>string option\<close>.
\<close>

named_theorems c_simps \<open>evaluation of C strings, bytes and bounded memory accesses\<close>

type_synonym u8 = "8 word"
type_synonym u32 = "32 word"
type_synonym c_ptr = "string option"

section \<open>Characters and bytes\<close>

definition NUL :: char where
  "NUL = CHR 0x00"

definition byte_of :: "char \<Rightarrow> u8" where
  "byte_of c = word_of_nat (of_char c)"

definition char_of_byte :: "u8 \<Rightarrow> char" where
  "char_of_byte b = char_of (unat b)"

text \<open>The numeric code of a character as an unsigned byte.\<close>

definition code :: "char \<Rightarrow> nat" where
  "code c = of_char c"

lemma code_less [simp]: "code c < 256"
  by (simp add: code_def)

lemma code_inject [simp]: "code c = code d \<longleftrightarrow> c = d"
  by (simp add: code_def)

lemma unat_byte_of [c_simps]: "unat (byte_of c) = code c"
  using code_less [of c] by (simp add: byte_of_def code_def unat_of_nat)

lemma char_of_byte_of [simp]: "char_of_byte (byte_of c) = c"
  by (simp add: char_of_byte_def unat_byte_of code_def)

lemma code_char_of_byte [c_simps]: "code (char_of_byte b) = unat b"
  using unsigned_less [of b, where 'a = nat] by (simp add: code_def char_of_byte_def)

lemma byte_of_char_of_byte [simp]: "byte_of (char_of_byte b) = b"
  by (simp add: word_unat_eq_iff unat_byte_of code_char_of_byte)

section \<open>C strings\<close>

text \<open>What a reader of a NUL-terminated buffer sees: everything before the first NUL.\<close>

definition c_str :: "string \<Rightarrow> string" where
  "c_str s = takeWhile (\<lambda>c. c \<noteq> NUL) s"

lemma c_str_Nil [simp]: "c_str [] = []"
  by (simp add: c_str_def)

lemma c_str_id [simp]: "NUL \<notin> set s \<Longrightarrow> c_str s = s"
  by (auto simp: c_str_def takeWhile_eq_all_conv)

lemma c_str_no_NUL [simp]: "NUL \<notin> set (c_str s)"
  by (auto simp: c_str_def dest: set_takeWhileD)

lemma c_str_append_NUL: "NUL \<notin> set s \<Longrightarrow> c_str (s @ NUL # t) = s"
  by (simp only: c_str_def) (induction s; auto)

lemma c_str_prefix: "c_str (s @ NUL # t) = c_str s"
  by (simp only: c_str_def) (induction s; auto)

section \<open>Decimal numbers\<close>

text \<open>What \<open>%i\<close> and \<open>operator<<\<close> write for an integer.\<close>

fun decimal :: "nat \<Rightarrow> string" where
  "decimal n = (if n < 10 then [char_of (48 + n)] else decimal (n div 10) @ [char_of (48 + n mod 10)])"

declare decimal.simps [simp del]

definition show_int :: "int \<Rightarrow> string" where
  "show_int i = (if i < 0 then CHR ''-'' # decimal (nat (- i)) else decimal (nat i))"

section \<open>Bounded memory\<close>

text \<open>Reading and writing a buffer of fixed size; \<^const>\<open>None\<close> is an access out of bounds.\<close>

definition rd :: "'a list \<Rightarrow> nat \<Rightarrow> 'a option" where
  "rd buf i = (if i < length buf then Some (buf ! i) else None)"

definition wr :: "'a list \<Rightarrow> nat \<Rightarrow> 'a \<Rightarrow> 'a list option" where
  "wr buf i x = (if i < length buf then Some (buf[i := x]) else None)"

lemma rd_Some_iff [c_simps]: "rd buf i = Some x \<longleftrightarrow> i < length buf \<and> buf ! i = x"
  by (auto simp: rd_def)

lemma wr_Some_iff [c_simps]: "wr buf i x = Some b \<longleftrightarrow> i < length buf \<and> b = buf[i := x]"
  by (auto simp: wr_def)

lemma rd_append_ge [simp]: "length xs \<le> i \<Longrightarrow> rd (xs @ ys) i = rd ys (i - length xs)"
  by (auto simp: rd_def nth_append)

lemma rd_Nil [simp]: "rd [] i = None"
  by (simp add: rd_def)

lemma rd_Cons_0 [simp]: "rd (x # xs) 0 = Some x"
  by (simp add: rd_def)

lemma rd_Cons_Suc [simp]: "rd (x # xs) (Suc i) = rd xs i"
  by (simp add: rd_def)

text \<open>\<open>memcpy\<close> and \<open>memset\<close> at an offset of a buffer; both the source and the target have their size.\<close>

definition memcpy :: "'a list \<Rightarrow> nat \<Rightarrow> 'a list \<Rightarrow> nat \<Rightarrow> 'a list option" where
  "memcpy mem off src n =
     (if off + n \<le> length mem \<and> n \<le> length src then Some (take off mem @ take n src @ drop (off + n) mem) else None)"

definition memset :: "'a list \<Rightarrow> nat \<Rightarrow> 'a \<Rightarrow> nat \<Rightarrow> 'a list option" where
  "memset mem off c n =
     (if off + n \<le> length mem then Some (take off mem @ replicate n c @ drop (off + n) mem) else None)"

section \<open>Lists\<close>

text \<open>The pieces of a list joined by a separator.\<close>

fun intercalate :: "'a list \<Rightarrow> 'a list list \<Rightarrow> 'a list" where
  "intercalate sep [] = []"
| "intercalate sep [x] = x"
| "intercalate sep (x # y # zs) = x @ sep @ intercalate sep (y # zs)"

lemma intercalate_Cons: "xs \<noteq> [] \<Longrightarrow> intercalate sep (x # xs) = x @ sep @ intercalate sep xs"
  by (cases xs) simp_all

lemma intercalate_snoc:
  "xs \<noteq> [] \<Longrightarrow> intercalate sep (xs @ [x]) = intercalate sep xs @ sep @ x"
  by (induction sep xs rule: intercalate.induct) (simp_all add: intercalate_Cons)

text \<open>A finite check over an interval, read off at one point.\<close>

lemma list_all_upt: "list_all P [i..<j] \<Longrightarrow> i \<le> n \<Longrightarrow> n < j \<Longrightarrow> P n"
  by (auto simp: list_all_iff)

lemma four_elements:
  assumes "4 \<le> length xs"
  obtains a b c d r where "xs = a # b # c # d # r"
proof -
  from assms obtain a xs1 where 1: "xs = a # xs1" "3 \<le> length xs1" by (cases xs) auto
  then obtain b xs2 where 2: "xs1 = b # xs2" "2 \<le> length xs2" by (cases xs1) auto
  then obtain c xs3 where 3: "xs2 = c # xs3" "1 \<le> length xs3" by (cases xs2) auto
  then obtain d r where "xs3 = d # r" by (cases xs3) auto
  with 1 2 3 that show thesis by blast
qed

section \<open>32-bit words\<close>

lemma unat_u32: "unat (word_of_nat n :: u32) = n mod 2 ^ 32"
  by (simp add: unat_of_nat)

lemma unat_drop_bit_u32: "unat (drop_bit k (w :: u32)) = unat w div 2 ^ k"
proof -
  have "unat (drop_bit k w) = drop_bit k (take_bit 32 (unat w))"
    by (simp only: unsigned_drop_bit_eq) simp
  moreover have "unat w < 2 ^ 32" using unsigned_less [of w, where 'a = nat] by simp
  ultimately show ?thesis by (simp only: take_bit_nat_eq_self drop_bit_eq_div)
qed

lemma unat_and_mask_u32: "unat ((w :: u32) AND mask k) = unat w mod 2 ^ k"
proof -
  have "unat (w AND mask k) = unat (take_bit k w)" by (simp only: take_bit_eq_mask)
  also have "\<dots> = take_bit k (unat w)" by (simp only: unsigned_take_bit_eq)
  finally show ?thesis by (simp only: take_bit_eq_mod)
qed

text \<open>A sum that wraps around is smaller than its first summand, and only then.\<close>

lemma wrap_less_iff:
  fixes x y n :: nat
  assumes "x < n" "y < n"
  shows "(x + y) mod n < x \<longleftrightarrow> n \<le> x + y"
proof (cases "n \<le> x + y")
  case True
  then have "(x + y) mod n = x + y - n" using assms by (simp add: le_mod_geq)
  with True assms show ?thesis by linarith
qed simp

lemma sum_div_carry:
  fixes x y n :: nat
  assumes "0 < n"
  shows "(x + y) div n = x div n + y div n + (if n \<le> x mod n + y mod n then 1 else 0)"
proof -
  have "x mod n + y mod n < 2 * n" using assms by (simp add: add_less_mono mult_2)
  then have "(x mod n + y mod n) div n = (if n \<le> x mod n + y mod n then 1 else 0)"
    using assms by (auto simp: div_nat_eqI)
  then show ?thesis by (simp only: div_add1_eq [of x y n])
qed

end
