(* ===== verification/Url_Codec.thy ===== *)
theory Url_Codec
  imports ModRuby_Prelude
begin

text \<open>
  The string utilities of \<open>src/src/util.cpp\<close> and \<open>src/src/util.hpp\<close>: case conversion,
  \<open>split\<close>, the URL codec and the \<open>replace\<close> template. The decoder works in place on a
  \<open>strdup\<close> copy and the encoder on a \<open>malloc\<close> block, so both are modelled on a buffer of fixed
  size where an access out of bounds is \<^const>\<open>None\<close>; the pure functions \<open>pct_decode\<close> and
  \<open>enc\<close> are the specifications the loops are proved to implement.
\<close>

section \<open>Case conversion\<close>

text \<open>\<open>std::tolower<char>\<close> and \<open>std::toupper<char>\<close> of the user's locale are parameters.\<close>

definition to_lower :: "(char \<Rightarrow> char) \<Rightarrow> string \<Rightarrow> string" where
  "to_lower loc_tolower x = map loc_tolower x"

definition to_upper :: "(char \<Rightarrow> char) \<Rightarrow> string \<Rightarrow> string" where
  "to_upper loc_toupper x = map loc_toupper x"

section \<open>split: repeated getline\<close>

text \<open>
  \<open>std::getline(ss, item, delim)\<close> extracts up to and including the next delimiter and fails once
  nothing is left, so a trailing delimiter yields no final empty item.
\<close>

function getlines :: "char \<Rightarrow> string \<Rightarrow> string list" where
  "getlines delim s =
     (if s = [] then []
      else let item = takeWhile (\<lambda>c. c \<noteq> delim) s;
               rest = dropWhile (\<lambda>c. c \<noteq> delim) s
           in item # getlines delim (tl rest))"
  by pat_completeness auto
termination
proof (relation "measure (\<lambda>(_, s). length s)", goal_cases)
  case 1
  show ?case by simp
next
  case (2 delim s item rest)
  then have "length (tl rest) < length s"
    using length_dropWhile_le [of "\<lambda>c. c \<noteq> delim" s] by (cases s) auto
  then show ?case by simp
qed

declare getlines.simps [simp del]

definition split :: "string \<Rightarrow> char \<Rightarrow> string list \<Rightarrow> string list" where
  "split s delim elems = elems @ getlines delim s"

lemma getlines_Nil [simp]: "getlines d [] = []"
  by (simp add: getlines.simps)

lemma getlines_item: "d \<notin> set x \<Longrightarrow> getlines d (x @ d # r) = x # getlines d r"
proof -
  assume d: "d \<notin> set x"
  then have "takeWhile (\<lambda>c. c \<noteq> d) (x @ d # r) = x" "dropWhile (\<lambda>c. c \<noteq> d) (x @ d # r) = d # r"
    by (induction x) auto
  then show ?thesis by (subst getlines.simps) simp
qed

lemma getlines_last: "d \<notin> set x \<Longrightarrow> x \<noteq> [] \<Longrightarrow> getlines d x = [x]"
proof -
  assume d: "d \<notin> set x" and ne: "x \<noteq> []"
  from d have "takeWhile (\<lambda>c. c \<noteq> d) x = x" "dropWhile (\<lambda>c. c \<noteq> d) x = []"
    by (induction x) auto
  with ne show ?thesis
    by (subst getlines.simps) (simp del: takeWhile_eq_all_conv dropWhile_eq_Nil_conv)
qed

lemma getlines_cases:
  obtains "d \<notin> set s" | x r where "s = x @ d # r" "d \<notin> set x"
  by (meson split_list_first)

lemma getlines_no_delim: "x \<in> set (getlines d s) \<Longrightarrow> d \<notin> set x"
proof (induction "length s" arbitrary: s rule: less_induct)
  case less
  show ?case
  proof (cases s rule: getlines_cases [of d])
    case 1
    with less.prems show ?thesis by (cases "s = []") (auto simp: getlines_last)
  next
    case (2 y r)
    with less.prems have "x = y \<or> x \<in> set (getlines d r)" by (simp add: getlines_item)
    with less.hyps [of r] 2 show ?thesis by auto
  qed
qed

lemma getlines_chars: "x \<in> set (getlines d s) \<Longrightarrow> c \<in> set x \<Longrightarrow> c \<in> set s"
proof (induction "length s" arbitrary: s rule: less_induct)
  case less
  show ?case
  proof (cases s rule: getlines_cases [of d])
    case 1
    with less.prems show ?thesis by (cases "s = []") (auto simp: getlines_last)
  next
    case (2 y r)
    with less.prems have "x = y \<or> x \<in> set (getlines d r)" by (simp add: getlines_item)
    with less.hyps [of r] less.prems(2) 2 show ?thesis by auto
  qed
qed

lemma getlines_join_gen:
  "intercalate [d] (getlines d s) = s \<or> intercalate [d] (getlines d s) @ [d] = s"
proof (induction "length s" arbitrary: s rule: less_induct)
  case less
  show ?case
  proof (cases s rule: getlines_cases [of d])
    case 1
    then show ?thesis by (cases "s = []") (auto simp: getlines_last)
  next
    case (2 x r)
    then have eq: "getlines d s = x # getlines d r" by (simp add: getlines_item)
    show ?thesis
    proof (cases "r = []")
      case True
      with eq 2 show ?thesis by simp
    next
      case False
      then have "getlines d r \<noteq> []" by (subst getlines.simps) (simp add: Let_def)
      moreover have "intercalate [d] (getlines d r) = r \<or> intercalate [d] (getlines d r) @ [d] = r"
        using less.hyps [of r] 2 by simp
      ultimately show ?thesis using eq 2 by (auto simp: intercalate_Cons)
    qed
  qed
qed

lemma getlines_intercalate:
  assumes "\<forall>x \<in> set xs. d \<notin> set x \<and> x \<noteq> []"
  shows "getlines d (intercalate [d] xs) = xs"
  using assms
  by (induction "[d]" xs rule: intercalate.induct) (auto simp: getlines_last getlines_item)

section \<open>Hexadecimal digits\<close>

text \<open>\<open>hex2int\<close> on an unsigned byte; 0xFF stands for "not a hexadecimal digit".\<close>

definition hex2int :: "u8 \<Rightarrow> u8" where
  "hex2int hex0 =
     (let hex1 = hex0 - 48;
          hex2 = (if hex1 > 9 then ((hex1 + 48 - 1) OR 0x20) - 97 + 11 else hex1)
      in if hex2 > 15 then 0xFF else hex2)"

text \<open>The value of a hexadecimal digit, as RFC 3986 reads it.\<close>

definition hex_val :: "char \<Rightarrow> nat option" where
  "hex_val c =
     (let n = code c in
      if 48 \<le> n \<and> n \<le> 57 then Some (n - 48)
      else if 65 \<le> n \<and> n \<le> 70 then Some (n - 55)
      else if 97 \<le> n \<and> n \<le> 102 then Some (n - 87)
      else None)"

definition hex2int_ok :: "nat \<Rightarrow> bool" where
  "hex2int_ok n =
     (hex2int (word_of_nat n) =
        (if 48 \<le> n \<and> n \<le> 57 then word_of_nat (n - 48)
         else if 65 \<le> n \<and> n \<le> 70 then word_of_nat (n - 55)
         else if 97 \<le> n \<and> n \<le> 102 then word_of_nat (n - 87)
         else 0xFF))"

lemma hex2int_all: "list_all hex2int_ok [0..<256]"
  by code_simp

lemma hex2int_eq:
  "hex2int (byte_of c) = (case hex_val c of Some v \<Rightarrow> word_of_nat v | None \<Rightarrow> 0xFF)"
proof -
  have "hex2int_ok (code c)"
    using hex2int_all code_less [of c] by (auto simp: list_all_iff)
  then show ?thesis by (simp add: hex2int_ok_def hex_val_def Let_def byte_of_def code_def)
qed

lemma hex_val_less: "hex_val c = Some v \<Longrightarrow> v < 16"
  by (auto simp: hex_val_def Let_def split: if_splits)

lemma hex_val_NUL [simp]: "hex_val NUL = None"
  by (simp add: hex_val_def code_def NUL_def)

lemma hex2int_None: "hex_val c = None \<Longrightarrow> hex2int (byte_of c) = 0xFF"
  by (simp add: hex2int_eq)

lemma hex2int_Some:
  assumes "hex_val c = Some v"
  shows "hex2int (byte_of c) = word_of_nat v" "(word_of_nat v :: u8) \<noteq> 0xFF"
proof -
  show "hex2int (byte_of c) = word_of_nat v" using assms by (simp add: hex2int_eq)
  have "v < 16" using assms by (rule hex_val_less)
  then show "(word_of_nat v :: u8) \<noteq> 0xFF" by (simp add: word_unat_eq_iff unat_of_nat)
qed

section \<open>url_decode\<close>

text \<open>
  The loop over the \<open>strdup\<close> copy: \<open>src\<close> reads ahead of \<open>dst\<close> in the same buffer. The result is
  the buffer after the final \<open>*dst = '\0'\<close>, or \<^const>\<open>None\<close> if an access left the buffer.
\<close>

function decode_loop :: "bool \<Rightarrow> string \<Rightarrow> nat \<Rightarrow> nat \<Rightarrow> string option" where
  "decode_loop is_query buf src dst =
     (if length buf \<le> src then None
      else let c = buf ! src in
      if c = NUL then wr buf dst NUL
      else if is_query \<and> c = CHR ''+'' then
        (if dst < length buf
         then decode_loop is_query (buf[dst := CHR '' '']) (src + 1) (dst + 1) else None)
      else if c = CHR ''%'' then
        (if dst < length buf then
           let buf1 = buf[dst := CHR ''%''] in
           (case rd buf1 (src + 1) of None \<Rightarrow> None
            | Some h \<Rightarrow>
              let high = hex2int (byte_of h) in
              if high \<noteq> 0xFF then
                (case rd buf1 (src + 2) of None \<Rightarrow> None
                 | Some l \<Rightarrow>
                   let low = hex2int (byte_of l) in
                   if low \<noteq> 0xFF
                   then decode_loop is_query
                          (buf1[dst := char_of_byte ((push_bit 4 high) OR low)])
                          (src + 3) (dst + 1)
                   else decode_loop is_query buf1 (src + 1) (dst + 1))
              else decode_loop is_query buf1 (src + 1) (dst + 1))
         else None)
      else
        (if dst < length buf
         then decode_loop is_query (buf[dst := c]) (src + 1) (dst + 1) else None))"
  by pat_completeness auto
termination
  by (relation "measure (\<lambda>(_, buf, src, _). length buf - src)") auto

declare decode_loop.simps [simp del]

definition url_decode :: "bool \<Rightarrow> c_ptr \<Rightarrow> string option" where
  "url_decode is_query url =
     (case url of
        None \<Rightarrow> Some []
      | Some u \<Rightarrow>
          (case decode_loop is_query (c_str u @ [NUL]) 0 0 of
             None \<Rightarrow> None
           | Some str \<Rightarrow> Some (c_str str)))"

text \<open>The specification: percent decoding as a pure function of the remaining input.\<close>

fun pct_decode :: "bool \<Rightarrow> string \<Rightarrow> string" where
  "pct_decode q [] = []"
| "pct_decode q (c # cs) =
     (if q \<and> c = CHR ''+'' then CHR '' '' # pct_decode q cs
      else if c = CHR ''%'' then
        (case cs of
           h # l # r \<Rightarrow>
             (case (hex_val h, hex_val l) of
                (Some a, Some b) \<Rightarrow> char_of (16 * a + b) # pct_decode q r
              | _ \<Rightarrow> CHR ''%'' # pct_decode q cs)
         | _ \<Rightarrow> CHR ''%'' # pct_decode q cs)
      else c # pct_decode q cs)"

text \<open>
  The buffer during the loop: what is written (\<open>out\<close>), bytes already consumed (\<open>junk\<close>), the unread
  rest. Writing at \<open>dst\<close> consumes one byte of \<open>junk\<close>; reads at \<open>src + k\<close> see the unread rest.
\<close>

lemma decode_buf_write:
  "(out @ junk @ c # rest)[length out := x] = out @ x # tl (junk @ [c]) @ rest"
  by (cases junk) (simp_all add: list_update_append)

lemma decode_buf_rewrite: "(out @ x # rest)[length out := y] = out @ y # rest"
  by (simp add: list_update_append)

lemma decode_buf_read:
  "(out @ junk @ c # rest) ! (length out + length junk) = c"
  by (simp add: nth_append)

lemma decode_buf_ahead:
  "rd (out @ x # tl (junk @ [c]) @ rest) (Suc (length out + length junk)) = rd rest 0"
  "rd (out @ x # tl (junk @ [c]) @ rest) (Suc (Suc (length out + length junk))) = rd rest 1"
proof -
  have len: "length (out @ x # tl (junk @ [c])) = Suc (length out + length junk)" by simp
  show "rd (out @ x # tl (junk @ [c]) @ rest) (Suc (length out + length junk)) = rd rest 0"
    using rd_append_ge [of "out @ x # tl (junk @ [c])" _ rest] len by simp
  show "rd (out @ x # tl (junk @ [c]) @ rest) (Suc (Suc (length out + length junk))) = rd rest 1"
    using rd_append_ge [of "out @ x # tl (junk @ [c])" _ rest] len by simp
qed

lemmas decode_buf = decode_buf_write decode_buf_rewrite decode_buf_read decode_buf_ahead

lemma combine_nibbles:
  assumes "a < 16" "b < 16"
  shows "char_of_byte ((push_bit 4 (word_of_nat a :: u8)) OR word_of_nat b) = char_of (16 * a + b)"
proof -
  have "list_all (\<lambda>a. list_all (\<lambda>b. unat ((push_bit 4 (word_of_nat a :: u8)) OR word_of_nat b)
          = 16 * a + b) [0..<16]) [0..<16]"
    by code_simp
  with assms have "unat ((push_bit 4 (word_of_nat a :: u8)) OR word_of_nat b) = 16 * a + b"
    by (auto simp: list_all_iff)
  then show ?thesis by (simp add: char_of_byte_def)
qed

lemma decode_loop_plain:
  assumes "c \<noteq> NUL" "c \<noteq> CHR ''%''"
  shows "decode_loop q (out @ junk @ c # rest) (length out + length junk) (length out) =
    decode_loop q (out @ (if q \<and> c = CHR ''+'' then CHR '' '' else c) # tl (junk @ [c]) @ rest)
      (Suc (length out + length junk)) (Suc (length out))"
  using assms by (subst decode_loop.simps) (simp add: decode_buf Let_def)

lemma decode_loop_percent:
  assumes "rest \<noteq> []"
  shows "decode_loop q (out @ junk @ CHR ''%'' # rest) (length out + length junk) (length out) =
    (case (hex_val (hd rest), rd rest 1) of
       (None, _) \<Rightarrow> decode_loop q (out @ CHR ''%'' # tl (junk @ [CHR ''%'']) @ rest)
          (Suc (length out + length junk)) (Suc (length out))
     | (Some a, None) \<Rightarrow> None
     | (Some a, Some l) \<Rightarrow>
         (case hex_val l of
            None \<Rightarrow> decode_loop q (out @ CHR ''%'' # tl (junk @ [CHR ''%'']) @ rest)
              (Suc (length out + length junk)) (Suc (length out))
          | Some b \<Rightarrow> decode_loop q (out @ char_of (16 * a + b) # tl (junk @ [CHR ''%'']) @ rest)
              (Suc (Suc (Suc (length out + length junk)))) (Suc (length out))))"
proof -
  obtain h r where rest: "rest = h # r" using assms by (cases rest) auto
  have d: "CHR ''%'' \<noteq> NUL" by (simp add: NUL_def)
  note unf = decode_loop.simps [of q "out @ junk @ CHR ''%'' # h # r" "length out + length junk" "length out"]
  show ?thesis
  proof (cases "hex_val h")
    case None
    then show ?thesis
      unfolding rest by (subst unf) (simp add: decode_buf Let_def d hex2int_None)
  next
    case (Some a)
    note h = hex2int_Some [OF Some]
    show ?thesis
    proof (cases r)
      case Nil
      with Some h show ?thesis
        unfolding rest by (subst unf) (simp add: decode_buf Let_def d)
    next
      case (Cons l r')
      show ?thesis
      proof (cases "hex_val l")
        case None
        with Some h Cons show ?thesis
          unfolding rest by (subst unf) (simp add: decode_buf Let_def d hex2int_None)
      next
        case (Some b)
        note l = hex2int_Some [OF Some]
        have eq: "char_of_byte ((push_bit 4 (word_of_nat a :: u8)) OR word_of_nat b) = char_of (16 * a + b)"
          using \<open>hex_val h = Some a\<close> \<open>hex_val l = Some b\<close>
          by (auto intro: combine_nibbles hex_val_less)
        from \<open>hex_val h = Some a\<close> Some h l Cons show ?thesis
          unfolding rest
          by (subst unf) (simp add: decode_buf Let_def d eq numeral_3_eq_3)
      qed
    qed
  qed
qed

text \<open>Three ways to take a step: an ordinary character, an escape, a percent sign that starts none.\<close>

definition escape :: "string \<Rightarrow> (nat \<times> string) option" where
  "escape cs =
     (case cs of
        h # l # r \<Rightarrow> (case (hex_val h, hex_val l) of
                       (Some a, Some b) \<Rightarrow> Some (16 * a + b, r) | _ \<Rightarrow> None)
      | _ \<Rightarrow> None)"

lemma escape_Some:
  "escape cs = Some (n, r) \<longleftrightarrow>
     (\<exists>h l a b. cs = h # l # r \<and> hex_val h = Some a \<and> hex_val l = Some b \<and> n = 16 * a + b)"
  by (auto simp: escape_def split: list.split option.split)

declare pct_decode.simps(2) [simp del]

lemma pct_decode_percent:
  "pct_decode q (CHR ''%'' # cs) =
     (case escape cs of None \<Rightarrow> CHR ''%'' # pct_decode q cs
      | Some (n, r) \<Rightarrow> char_of n # pct_decode q r)"
  by (subst pct_decode.simps) (simp add: escape_def split: list.split option.split)

lemma pct_decode_plain:
  "c \<noteq> CHR ''%'' \<Longrightarrow>
     pct_decode q (c # cs) = (if q \<and> c = CHR ''+'' then CHR '' '' else c) # pct_decode q cs"
  by (simp add: pct_decode.simps)

lemma decode_loop_literal:
  assumes "escape cs = None"
  shows "decode_loop q (out @ junk @ CHR ''%'' # cs @ [NUL]) (length out + length junk) (length out) =
    decode_loop q (out @ CHR ''%'' # tl (junk @ [CHR ''%'']) @ cs @ [NUL])
      (Suc (length out + length junk)) (Suc (length out))"
proof (cases cs)
  case (Cons h r)
  with assms show ?thesis
    by (simp add: decode_loop_percent escape_def split: option.split list.splits option.splits)
qed (simp add: decode_loop_percent)

lemma decode_loop_escape:
  assumes "escape cs = Some (n, r)"
  shows "\<exists>h l. cs = h # l # r \<and>
    decode_loop q (out @ junk @ CHR ''%'' # cs @ [NUL]) (length out + length junk) (length out) =
    decode_loop q (out @ char_of n # tl (junk @ [CHR ''%'']) @ h # l # r @ [NUL])
      (Suc (Suc (Suc (length out + length junk)))) (Suc (length out))"
  using assms by (auto simp: escape_Some decode_loop_percent)

lemma decode_loop_correct:
  "NUL \<notin> set s \<Longrightarrow>
    \<exists>tail. decode_loop q (out @ junk @ s @ [NUL]) (length out + length junk) (length out) =
      Some (out @ pct_decode q s @ NUL # tail)"
proof (induction "length s" arbitrary: s out junk rule: less_induct)
  case less
  have step: "\<exists>tail. decode_loop q (out @ x # tl (junk @ [c]) @ s' @ [NUL])
      (Suc (length out + length junk)) (Suc (length out)) = Some (out @ x # pct_decode q s' @ NUL # tail)"
    if "length s' < length s" "NUL \<notin> set s'" for s' c x
    using less.hyps [OF that, of "out @ [x]" "tl (junk @ [c])"] by simp
  show ?case
  proof (cases s)
    case Nil
    then show ?thesis
      by (subst decode_loop.simps)
        (cases junk; simp add: wr_def nth_append list_update_append Let_def)
  next
    case (Cons c cs)
    have cN: "c \<noteq> NUL" "NUL \<notin> set cs" using less.prems Cons by auto
    consider "c \<noteq> CHR ''%''" | "c = CHR ''%''" "escape cs = None"
      | n r where "c = CHR ''%''" "escape cs = Some (n, r)"
      by (cases "escape cs") auto
    then show ?thesis
    proof cases
      case 1
      with step [of cs "if q \<and> c = CHR ''+'' then CHR '' '' else c" c] cN Cons show ?thesis
        using decode_loop_plain [of c q out junk "cs @ [NUL]"] by (simp add: pct_decode_plain)
    next
      case 2
      with step [of cs "CHR ''%''" c] cN Cons show ?thesis
        by (simp add: pct_decode_percent decode_loop_literal)
    next
      case 3
      then obtain h l where cs: "cs = h # l # r"
        and eq: "decode_loop q (out @ junk @ c # cs @ [NUL]) (length out + length junk) (length out) =
          decode_loop q (out @ char_of n # tl (junk @ [CHR ''%'']) @ h # l # r @ [NUL])
            (Suc (Suc (Suc (length out + length junk)))) (Suc (length out))"
        using decode_loop_escape [of cs n r q out junk] by blast
      from less.hyps [of r "out @ [char_of n]" "tl (junk @ [CHR ''%'']) @ [h, l]"] cs cN Cons eq 3
      show ?thesis by (simp add: pct_decode_percent)
    qed
  qed
qed

lemma url_decode_eq: "url_decode q (Some url) = Some (c_str (pct_decode q (c_str url)))"
proof -
  obtain tail where "decode_loop q (c_str url @ [NUL]) 0 0 = Some (pct_decode q (c_str url) @ NUL # tail)"
    using decode_loop_correct [of "c_str url" q "[]" "[]"] by auto
  then show ?thesis by (simp add: url_decode_def c_str_prefix)
qed

lemma pct_decode_length: "length (pct_decode q s) \<le> length s"
proof (induction "length s" arbitrary: s rule: less_induct)
  case less
  show ?case
  proof (cases s)
    case (Cons c cs)
    show ?thesis
    proof (cases "c = CHR ''%''")
      case True
      show ?thesis
      proof (cases "escape cs")
        case None
        with less.hyps [of cs] True Cons show ?thesis by (simp add: pct_decode_percent)
      next
        case (Some nr)
        then obtain n r h l where "nr = (n, r)" "cs = h # l # r"
          by (cases nr) (auto simp: escape_Some)
        with less.hyps [of r] True Cons Some show ?thesis by (simp add: pct_decode_percent)
      qed
    qed (use less.hyps [of cs] Cons in \<open>simp add: pct_decode_plain\<close>)
  qed simp
qed

text \<open>
  C12. The in-place decoder is memory safe and correct: on any string it returns (it never reads
  past the terminating NUL nor writes outside the copy), and what it returns is the percent
  decoding of the input up to its first NUL, cut at the first NUL that decoding produced; the
  result is never longer than the input. On NULL it returns the empty string.
\<close>

theorem url_decode_correct:
  "url_decode q (Some url) = Some (c_str (pct_decode q (c_str url))) \<and>
   length (pct_decode q (c_str url)) \<le> length (c_str url) \<and>
   url_decode q None = Some []"
  by (simp add: url_decode_eq pct_decode_length) (simp add: url_decode_def)

section \<open>url_encode\<close>

text \<open>\<open>isalnum\<close> in the C locale, on the (signed) character read.\<close>

definition isalnum :: "char \<Rightarrow> bool" where
  "isalnum c = (let n = code c in
     (48 \<le> n \<and> n \<le> 57) \<or> (65 \<le> n \<and> n \<le> 90) \<or> (97 \<le> n \<and> n \<le> 122))"

text \<open>A digit as the conversion \<open>%X\<close> prints it.\<close>

definition hex_digit :: "nat \<Rightarrow> char" where
  "hex_digit n = ''0123456789ABCDEF'' ! n"

fun hex_digits :: "nat \<Rightarrow> string" where
  "hex_digits n = (if n < 16 then [hex_digit n] else hex_digits (n div 16) @ [hex_digit (n mod 16)])"

declare hex_digits.simps [simp del]

text \<open>
  \<open>sprintf(dst, "%%%2X", *src)\<close>: the signed \<open>char\<close> is promoted to \<open>int\<close>, read as an unsigned
  32-bit value and printed in upper case, padded on the left with a blank to two columns.
\<close>

definition fmt_2X :: "char \<Rightarrow> string" where
  "fmt_2X c =
     (let ds = hex_digits (unat (scast (byte_of c) :: u32))
      in replicate (2 - length ds) (CHR '' '') @ ds)"

text \<open>Characters copied as they are; the blank becomes a plus sign; all others are escaped.\<close>

definition unreserved :: "char \<Rightarrow> bool" where
  "unreserved c \<longleftrightarrow> isalnum c \<or> c = CHR ''.'' \<or> c = CHR ''_'' \<or> c = CHR ''-''"

text \<open>
  Memory of the \<open>malloc\<close> block: \<^const>\<open>None\<close> is a byte not yet written. \<open>put\<close> writes a run of
  bytes and fails out of bounds; \<open>read_c\<close> reads a C string and fails on an unwritten byte or when
  no NUL is found.
\<close>

definition put :: "char option list \<Rightarrow> nat \<Rightarrow> string \<Rightarrow> char option list option" where
  "put buf i s =
     (if i + length s \<le> length buf
      then Some (take i buf @ map Some s @ drop (i + length s) buf) else None)"

fun read_c :: "char option list \<Rightarrow> string option" where
  "read_c [] = None"
| "read_c (None # _) = None"
| "read_c (Some c # r) = (if c = NUL then Some [] else map_option (Cons c) (read_c r))"

fun encode_loop :: "string \<Rightarrow> char option list \<Rightarrow> nat \<Rightarrow> (char option list \<times> nat) option" where
  "encode_loop [] buf dst = Some (buf, dst)"
| "encode_loop (c # src) buf dst =
     (if unreserved c then
        Option.bind (put buf dst [c]) (\<lambda>buf. encode_loop src buf (dst + 1))
      else if c = CHR '' '' then
        Option.bind (put buf dst [CHR ''+'']) (\<lambda>buf. encode_loop src buf (dst + 1))
      else
        Option.bind (put buf dst (CHR ''%'' # fmt_2X c @ [NUL]))
          (\<lambda>buf. encode_loop src buf (dst + 3)))"

definition url_encode :: "string \<Rightarrow> string option" where
  "url_encode url =
     Option.bind (encode_loop (c_str url) (replicate (length (c_str url) * 3) None) 0)
       (\<lambda>(buf, dst). Option.bind (put buf dst [NUL]) read_c)"

text \<open>The specification for 7-bit text: each character's code, concatenated.\<close>

definition enc_char :: "char \<Rightarrow> string" where
  "enc_char c =
     (if unreserved c then [c] else if c = CHR '' '' then ''+'' else CHR ''%'' # fmt_2X c)"

definition enc :: "string \<Rightarrow> string" where
  "enc s = concat (map enc_char s)"

definition ascii :: "string \<Rightarrow> bool" where
  "ascii s \<longleftrightarrow> (\<forall>c \<in> set s. 0 < code c \<and> code c < 128)"

text \<open>A character the encoder writes in three bytes.\<close>

definition escaped :: "char \<Rightarrow> bool" where
  "escaped c \<longleftrightarrow> \<not> unreserved c \<and> c \<noteq> CHR '' ''"

lemma enc_simps [simp]: "enc [] = []" "enc (c # cs) = enc_char c @ enc cs"
  by (simp_all add: enc_def)

lemma fmt_2X_ok: "list_all (\<lambda>n. length (fmt_2X (char_of n)) = 2) [0..<128]"
  by (simp add: upt_rec fmt_2X_def hex_digits.simps hex_digit_def byte_of_def)

lemma fmt_2X_NUL: "list_all (\<lambda>n. NUL \<notin> set (fmt_2X (char_of n))) [0..<128]"
  by (simp add: upt_rec fmt_2X_def hex_digits.simps hex_digit_def byte_of_def NUL_def)

lemma ascii_all:
  assumes "list_all (\<lambda>n. P (char_of (n::nat))) [i..<j]" "i \<le> code c" "code c < j"
  shows "P c"
  using assms by (auto simp: list_all_iff code_def dest: bspec [where x = "of_char c"])

lemma length_fmt_2X: "code c < 128 \<Longrightarrow> length (fmt_2X c) = 2"
  using ascii_all [OF fmt_2X_ok] by simp

lemma enc_char_length:
  "0 < code c \<Longrightarrow> code c < 128 \<Longrightarrow> length (enc_char c) = (if escaped c then 3 else 1)"
  by (simp add: enc_char_def escaped_def length_fmt_2X)

lemma enc_char_NUL: "0 < code c \<Longrightarrow> code c < 128 \<Longrightarrow> NUL \<notin> set (enc_char c)"
  using ascii_all [OF fmt_2X_NUL, of c]
  by (auto simp: enc_char_def unreserved_def isalnum_def Let_def code_def NUL_def)

lemma enc_NUL: "ascii s \<Longrightarrow> NUL \<notin> set (enc s)"
  using enc_char_NUL by (fastforce simp: enc_def ascii_def)

lemma ascii_no_NUL: "ascii s \<Longrightarrow> NUL \<notin> set s"
  by (auto simp: ascii_def code_def NUL_def)

lemma put_at_end:
  "put (map Some out @ rest) (length out) s =
     (if length s \<le> length rest then Some (map Some (out @ s) @ drop (length s) rest) else None)"
  by (simp add: put_def)

lemma encode_loop_fits:
  "ascii s \<Longrightarrow> length (enc s) < length rest \<Longrightarrow>
     \<exists>rest'. encode_loop s (map Some out @ rest) (length out) =
         Some (map Some (out @ enc s) @ rest', length out + length (enc s)) \<and>
       length rest' = length rest - length (enc s)"
proof (induction s arbitrary: out rest)
  case (Cons c cs)
  then have c: "0 < code c" "code c < 128" and cs: "ascii cs" by (auto simp: ascii_def)
  show ?case
  proof (cases "escaped c")
    case False
    let ?x = "if unreserved c then c else CHR ''+''"
    have x: "enc_char c = [?x]" using False by (auto simp: enc_char_def escaped_def)
    with Cons.prems have "length (enc cs) < length (drop 1 rest)" "rest \<noteq> []" by auto
    with Cons.IH [OF cs, of "drop 1 rest" "out @ [?x]"] x False show ?thesis
      by (auto simp: put_at_end escaped_def Suc_le_eq)
  next
    case True
    then have x: "enc_char c = CHR ''%'' # fmt_2X c" by (simp add: enc_char_def escaped_def)
    have len: "length (fmt_2X c) = 2" using c by (simp add: length_fmt_2X)
    have put: "put (map Some out @ rest) (length out) (CHR ''%'' # fmt_2X c @ [NUL]) =
        Some (map Some (out @ enc_char c) @ Some NUL # drop 4 rest)"
      using Cons.prems x len by (simp add: put_at_end)
    have "length (enc cs) < length (Some NUL # drop 4 rest)" using Cons.prems x len by auto
    with Cons.IH [OF cs, of "Some NUL # drop 4 rest" "out @ enc_char c"] x True put len Cons.prems
    show ?thesis by (auto simp: escaped_def)
  qed
qed simp

lemma encode_loop_overflow:
  "ascii s \<Longrightarrow> s \<noteq> [] \<Longrightarrow> \<forall>c \<in> set s. escaped c \<Longrightarrow> length rest = length s * 3 \<Longrightarrow>
     encode_loop s (map Some out @ rest) (length out) = None"
proof (induction s arbitrary: out rest)
  case (Cons c cs)
  then have c: "0 < code c" "code c < 128" and cs: "ascii cs" by (auto simp: ascii_def)
  have len: "length (fmt_2X c) = 2" using c by (simp add: length_fmt_2X)
  have esc: "escaped c" using Cons.prems by simp
  show ?case
  proof (cases "cs = []")
    case True
    with esc len Cons.prems show ?thesis by (simp add: put_at_end escaped_def)
  next
    case False
    then have "4 \<le> length rest" using Cons.prems by (cases cs) auto
    then have put: "put (map Some out @ rest) (length out) (CHR ''%'' # fmt_2X c @ [NUL]) =
        Some (map Some (out @ CHR ''%'' # fmt_2X c) @ Some NUL # drop 4 rest)"
      using len by (simp add: put_at_end)
    have "length (Some NUL # drop 4 rest) = length cs * 3"
      using Cons.prems \<open>4 \<le> length rest\<close> by simp
    with Cons.IH [OF cs False, of "Some NUL # drop 4 rest" "out @ CHR ''%'' # fmt_2X c"]
      put esc len Cons.prems
    show ?thesis by (simp add: escaped_def)
  qed
qed simp

lemma read_c_prefix: "NUL \<notin> set xs \<Longrightarrow> read_c (map Some xs @ Some NUL # r) = Some xs"
  by (induction xs) auto

lemma enc_length_le:
  "ascii s \<Longrightarrow> length (enc s) \<le> length s * 3 \<and>
     (length (enc s) < length s * 3 \<longleftrightarrow> (\<exists>c \<in> set s. \<not> escaped c))"
proof (induction s)
  case (Cons c cs)
  then have "0 < code c" "code c < 128" "ascii cs" by (auto simp: ascii_def)
  with Cons.IH show ?case by (auto simp: enc_char_length)
qed simp

lemma url_encode_eq:
  assumes "ascii s"
  shows "url_encode s = (if \<exists>c \<in> set s. \<not> escaped c then Some (enc s) else None)"
proof (cases "\<exists>c \<in> set s. \<not> escaped c")
  case True
  let ?n = "length s * 3"
  have "length (enc s) < length (replicate ?n (None :: char option))"
    using True enc_length_le [OF assms] by simp
  from encode_loop_fits [OF assms this, of "[]"] obtain rest where
    rest: "encode_loop s (replicate ?n None) 0 = Some (map Some (enc s) @ rest, length (enc s))"
    and len: "length rest = ?n - length (enc s)"
    by auto
  then have "rest \<noteq> []" using True enc_length_le [OF assms] by auto
  with rest True assms show ?thesis
    by (simp add: url_encode_def ascii_no_NUL put_at_end read_c_prefix enc_NUL Suc_le_eq)
next
  case False
  show ?thesis
  proof (cases "s = []")
    case True
    then show ?thesis by (simp add: url_encode_def put_def)
  next
    case ne: False
    from encode_loop_overflow [OF assms ne, of "replicate (length s * 3) None" "[]"] False
    have "encode_loop s (replicate (length s * 3) None) 0 = None" by simp
    with False assms show ?thesis by (simp add: url_encode_def ascii_no_NUL)
  qed
qed

text \<open>
  C40. The encoder's \<open>malloc(strlen(url) * 3)\<close> has no room for the terminating NUL: on 7-bit text
  it stays inside the block exactly when some character is written in one byte. A text of escaped
  characters only (and the empty text) makes it write past the end; otherwise the result is the
  concatenation of the encoded characters.
\<close>

theorem url_encode_bounds:
  "ascii s \<Longrightarrow> url_encode s = (if \<forall>c \<in> set s. escaped c then None else Some (enc s))"
  using url_encode_eq [of s] by auto

theorem url_encode_bounds_witness:
  "url_encode ''%&'' = None \<and> url_encode ''a b'' = Some ''a+b''"
proof -
  have "ascii ''%&''" "ascii ''a b''" by (simp_all add: ascii_def code_def)
  from url_encode_bounds [OF this(1)] url_encode_bounds [OF this(2)] show ?thesis
    by (simp add: escaped_def unreserved_def isalnum_def code_def enc_char_def Let_def)
qed

text \<open>Printable 7-bit text: codes whose upper-case hexadecimal form has two digits.\<close>

definition two_digit :: "string \<Rightarrow> bool" where
  "two_digit s \<longleftrightarrow> (\<forall>c \<in> set s. 16 \<le> code c \<and> code c < 128)"

lemma two_digit_ascii: "two_digit s \<Longrightarrow> ascii s"
  by (auto simp: two_digit_def ascii_def)

definition fmt_ok :: "nat \<Rightarrow> bool" where
  "fmt_ok n \<longleftrightarrow> fmt_2X (char_of n) = [hex_digit (n div 16), hex_digit (n mod 16)] \<and>
     hex_val (hex_digit (n div 16)) = Some (n div 16) \<and> hex_val (hex_digit (n mod 16)) = Some (n mod 16)"

lemma fmt_ok_all: "list_all fmt_ok [16..<128]"
  by (simp add: upt_rec fmt_ok_def fmt_2X_def hex_digits.simps hex_digit_def byte_of_def hex_val_def
      code_def Let_def)

lemma escape_fmt_2X:
  assumes "16 \<le> code c" "code c < 128"
  shows "escape (fmt_2X c @ r) = Some (code c, r)"
proof -
  have "fmt_ok (code c)" using fmt_ok_all assms by (rule list_all_upt)
  then show ?thesis by (simp add: fmt_ok_def escape_def code_def)
qed

lemma pct_decode_enc: "two_digit s \<Longrightarrow> pct_decode True (enc s @ t) = s @ pct_decode True t"
proof (induction s)
  case (Cons c cs)
  then have c: "16 \<le> code c" "code c < 128" and cs: "two_digit cs" by (auto simp: two_digit_def)
  note IH = Cons.IH [OF cs]
  consider "unreserved c" | "\<not> unreserved c" "c = CHR '' ''" | "\<not> unreserved c" "c \<noteq> CHR '' ''"
    by blast
  then show ?case
  proof cases
    case 1
    then have "c \<noteq> CHR ''%''" "c \<noteq> CHR ''+''"
      by (auto simp: unreserved_def isalnum_def Let_def code_def)
    with 1 IH show ?thesis by (simp add: enc_char_def pct_decode_plain)
  next
    case 3
    with IH show ?thesis
      by (simp add: enc_char_def pct_decode_percent escape_fmt_2X [OF c]) (simp add: code_def)
  qed (use IH in \<open>simp add: enc_char_def pct_decode_plain\<close>)
qed simp

text \<open>
  C30. On text with codes 16 to 127 only that has at least one character the encoder copies, encoding and
  decoding are inverse: the encoder returns, and decoding its result as a query gives the text back. The
  conditions are needed. (A text that is escaped throughout overruns the block the encoder allocates. Below 16 the conversion pads with a blank instead of a zero, so the round trip fails:
  \<open>url_encode_newline\<close>.)
\<close>

theorem url_roundtrip:
  assumes "two_digit s" and "c \<in> set s" and "\<not> escaped c"
  shows "\<exists>e. url_encode s = Some e \<and> url_decode True (Some e) = Some s"
proof -
  from assms have "url_encode s = Some (enc s)" by (auto simp: url_encode_eq two_digit_ascii)
  moreover have "url_decode True (Some (enc s)) = Some s"
    using pct_decode_enc [OF assms(1), of "[]"] enc_NUL two_digit_ascii [OF assms(1)]
    by (simp add: url_decode_eq ascii_no_NUL)
  ultimately show ?thesis by blast
qed

theorem url_roundtrip_witness:
  "\<exists>e. url_encode ''a=b c'' = Some e \<and> url_decode True (Some e) = Some ''a=b c''"
  by (rule url_roundtrip [where c = "CHR ''a''"])
    (simp_all add: two_digit_def code_def escaped_def unreserved_def isalnum_def)

lemma url_encode_newline:
  "url_encode ''a\<newline>'' = Some ''a% A'' \<and> url_decode True (Some ''a% A'') = Some ''a% A''"
proof -
  have "ascii ''a\<newline>''" by (simp add: ascii_def code_def)
  then have "url_encode ''a\<newline>'' = Some ''a% A''"
    by (simp add: url_encode_eq escaped_def unreserved_def isalnum_def code_def enc_char_def Let_def
        fmt_2X_def hex_digits.simps hex_digit_def byte_of_def)
  then show ?thesis
    by (simp add: url_decode_eq NUL_def pct_decode_percent pct_decode_plain escape_def
        hex_val_def code_def Let_def)
qed

section \<open>replace\<close>

text \<open>\<open>std::string::find(pat, pos)\<close>: the first occurrence at or after \<open>pos\<close>.\<close>

definition find_at :: "string \<Rightarrow> string \<Rightarrow> nat \<Rightarrow> nat option" where
  "find_at s pat pos =
     (if length s < pos + length pat then None
      else find (\<lambda>i. take (length pat) (drop i s) = pat) [pos..<Suc (length s - length pat)])"

text \<open>
  The template loop. An empty search string is found at every position, also right after the
  text just inserted, so the loop may not end: \<^const>\<open>None\<close>.
\<close>

partial_function (option) replace_loop ::
    "string \<Rightarrow> string \<Rightarrow> string \<Rightarrow> nat \<Rightarrow> nat \<Rightarrow> (string \<times> nat) option" where
  "replace_loop source pat rep pos num =
     (case find_at source pat pos of
        None \<Rightarrow> Some (source, num)
      | Some p \<Rightarrow>
          replace_loop (take p source @ rep @ drop (p + length pat) source) pat rep
            (p + length rep) (num + 1))"

definition replace :: "string \<Rightarrow> string \<Rightarrow> string \<Rightarrow> (string \<times> nat) option" where
  "replace source pat rep = replace_loop source pat rep 0 0"

text \<open>The specification: left to right, non-overlapping occurrences.\<close>

function subst_all :: "string \<Rightarrow> string \<Rightarrow> string \<Rightarrow> string \<times> nat" where
  "subst_all pat rep s =
     (if pat = [] \<or> length s < length pat then (s, 0)
      else if take (length pat) s = pat then
        (let (r, n) = subst_all pat rep (drop (length pat) s) in (rep @ r, n + 1))
      else (let (r, n) = subst_all pat rep (tl s) in (hd s # r, n)))"
  by pat_completeness auto
termination
  by (relation "measure (\<lambda>(_, _, s). length s)") (auto simp: neq_Nil_conv)

declare subst_all.simps [simp del]

lemma find_at_here:
  "pat \<noteq> [] \<Longrightarrow> take (length pat) s = pat \<Longrightarrow> find_at (out @ s) pat (length out) = Some (length out)"
proof -
  assume pat: "pat \<noteq> []" "take (length pat) s = pat"
  then have "length pat \<le> length s" by (metis length_take min.cobounded1)
  then have "[length out..<Suc (length (out @ s) - length pat)] =
      length out # [Suc (length out)..<Suc (length (out @ s) - length pat)]"
    by (simp add: upt_rec)
  with pat \<open>length pat \<le> length s\<close> show ?thesis by (simp add: find_at_def)
qed

lemma find_at_next:
  "take (length pat) (c # s) \<noteq> pat \<Longrightarrow>
     find_at (out @ c # s) pat (length out) = find_at (out @ c # s) pat (Suc (length out))"
proof -
  assume ne: "take (length pat) (c # s) \<noteq> pat"
  have split: "length out \<le> n \<Longrightarrow> [length out..<Suc n] = length out # [Suc (length out)..<Suc n]" for n
    by (simp add: upt_rec)
  from ne show ?thesis
    by (cases "length (c # s) < length pat")
      (auto simp: find_at_def split not_less simp del: upt_Suc)
qed

lemma replace_loop_correct:
  "pat \<noteq> [] \<Longrightarrow>
     replace_loop (out @ s) pat rep (length out) num =
       Some (out @ fst (subst_all pat rep s), num + snd (subst_all pat rep s))"
proof (induction pat rep s arbitrary: out num rule: subst_all.induct)
  case (1 pat rep s)
  note pat = \<open>pat \<noteq> []\<close>
  show ?case
  proof (cases "length s < length pat")
    case True
    then show ?thesis
      by (subst replace_loop.simps) (simp add: find_at_def subst_all.simps [of pat rep s])
  next
    case long: False
    show ?thesis
    proof (cases "take (length pat) s = pat")
      case True
      have "replace_loop (out @ s) pat rep (length out) num =
          replace_loop ((out @ rep) @ drop (length pat) s) pat rep (length (out @ rep)) (num + 1)"
        using find_at_here [OF pat True, of out] by (subst replace_loop.simps) simp
      with "1.IH"(1) [of "out @ rep" "num + 1"] pat long True show ?thesis
        by (simp add: subst_all.simps [of pat rep s] case_prod_beta)
    next
      case False
      then obtain c s' where s: "s = c # s'" using long pat by (cases s) auto
      have "replace_loop (out @ s) pat rep (length out) num =
          replace_loop ((out @ [c]) @ s') pat rep (length (out @ [c])) num"
        using find_at_next [of pat c s' out] False s
        by (subst (1 2) replace_loop.simps) (simp split: option.split)
      with "1.IH"(2) [of "out @ [c]" num] pat long False s show ?thesis
        by (simp add: subst_all.simps [of pat rep "c # s'"] case_prod_beta)
    qed
  qed
qed

lemma replace_empty_diverges:
  assumes "replace_loop source [] rep pos num = Some r" and "pos \<le> length source"
  shows False
proof -
  have "\<not> ([] = ([] :: string) \<and> pos \<le> length source)"
  proof (rule replace_loop.raw_induct
      [where P = "\<lambda>s pat rep pos num r. \<not> (pat = [] \<and> pos \<le> length s)", OF _ assms(1)])
    fix f s pat rep pos num r
    assume IH: "\<And>s pat rep pos num r. f s pat rep pos num = Some r \<Longrightarrow> \<not> (pat = [] \<and> pos \<le> length s)"
      and eq: "(case find_at s pat pos of None \<Rightarrow> Some (s, num)
        | Some p \<Rightarrow> f (take p s @ rep @ drop (p + length pat) s) pat rep (p + length rep) (num + 1)) = Some r"
    show "\<not> (pat = [] \<and> pos \<le> length s)"
    proof
      assume a: "pat = [] \<and> pos \<le> length s"
      then have "find_at s pat pos = Some pos" by (simp add: find_at_def upt_rec)
      with eq a have "f (take pos s @ rep @ drop pos s) [] rep (pos + length rep) (num + 1) = Some r"
        by simp
      from IH [OF this] a show False by simp
    qed
  qed
  with assms(2) show False by simp
qed

text \<open>
  With a non-empty search string the replacement loop ends, and it yields the text with every
  non-overlapping occurrence, taken from the left, replaced once, and the number of replacements;
  with an empty search string it never returns.
\<close>

lemma replace_correct:
  "replace source pat rep =
     (if pat = [] then None else Some (subst_all pat rep source))"
proof (cases "pat = []")
  case True
  then show ?thesis
    using replace_empty_diverges [of source rep 0 0] by (cases "replace source pat rep") (auto simp: replace_def)
next
  case False
  then show ?thesis using replace_loop_correct [of pat "[]" source rep 0] by (simp add: replace_def)
qed

text \<open>A search string of one character replaces character by character.\<close>

lemma replace_char:
  "replace s [c] rep = Some (concat (map (\<lambda>x. if x = c then rep else [x]) s), count_list s c)"
proof -
  have "subst_all [c] rep s = (concat (map (\<lambda>x. if x = c then rep else [x]) s), count_list s c)"
    by (induction s) (simp_all add: subst_all.simps [of "[c]" rep])
  then show ?thesis using replace_loop_correct [of "[c]" "[]" s rep 0] by (simp add: replace_def)
qed

end
