(* ===== verification/Md5_Core.thy ===== *)
theory Md5_Core
  imports ModRuby_Prelude
begin

text \<open>
  The block transformation of \<open>src/src/md5.cpp\<close> with the macros of \<open>src/src/md5.h\<close>: the four
  round functions in the optimised form of the header, the 64 unrolled steps of
  \<open>md5::transform\<close>, and the proof that they compute the compression function as RFC 1321
  tabulates it (one step per index, with the textbook round functions, the index schedule and a
  left rotation). Also the byte order routine \<open>byteReverse\<close> over a host of either byte order.
\<close>

section \<open>Round functions and the step macro\<close>

definition F1 :: "u32 \<Rightarrow> u32 \<Rightarrow> u32 \<Rightarrow> u32" where
  "F1 x y z = z XOR (x AND (y XOR z))"

definition F2 :: "u32 \<Rightarrow> u32 \<Rightarrow> u32 \<Rightarrow> u32" where
  "F2 x y z = F1 z x y"

definition F3 :: "u32 \<Rightarrow> u32 \<Rightarrow> u32 \<Rightarrow> u32" where
  "F3 x y z = x XOR y XOR z"

definition F4 :: "u32 \<Rightarrow> u32 \<Rightarrow> u32 \<Rightarrow> u32" where
  "F4 x y z = y XOR (x OR NOT z)"

definition MD5STEP ::
    "(u32 \<Rightarrow> u32 \<Rightarrow> u32 \<Rightarrow> u32) \<Rightarrow> u32 \<Rightarrow> u32 \<Rightarrow> u32 \<Rightarrow> u32 \<Rightarrow> u32 \<Rightarrow> nat \<Rightarrow> u32" where
  "MD5STEP f w x y z data s =
     (let w1 = w + (f x y z + data);
          w2 = (push_bit s w1) OR (drop_bit (32 - s) w1)
      in w2 + x)"

section \<open>The unrolled transformation\<close>

definition transform :: "u32 list \<Rightarrow> u32 list \<Rightarrow> u32 list" where
  "transform buf inp =
     (let a = buf ! 0; b = buf ! 1; c = buf ! 2; d = buf ! 3;
          a = MD5STEP F1 a b c d (inp ! 0 + 0xd76aa478) 7;
          d = MD5STEP F1 d a b c (inp ! 1 + 0xe8c7b756) 12;
          c = MD5STEP F1 c d a b (inp ! 2 + 0x242070db) 17;
          b = MD5STEP F1 b c d a (inp ! 3 + 0xc1bdceee) 22;
          a = MD5STEP F1 a b c d (inp ! 4 + 0xf57c0faf) 7;
          d = MD5STEP F1 d a b c (inp ! 5 + 0x4787c62a) 12;
          c = MD5STEP F1 c d a b (inp ! 6 + 0xa8304613) 17;
          b = MD5STEP F1 b c d a (inp ! 7 + 0xfd469501) 22;
          a = MD5STEP F1 a b c d (inp ! 8 + 0x698098d8) 7;
          d = MD5STEP F1 d a b c (inp ! 9 + 0x8b44f7af) 12;
          c = MD5STEP F1 c d a b (inp ! 10 + 0xffff5bb1) 17;
          b = MD5STEP F1 b c d a (inp ! 11 + 0x895cd7be) 22;
          a = MD5STEP F1 a b c d (inp ! 12 + 0x6b901122) 7;
          d = MD5STEP F1 d a b c (inp ! 13 + 0xfd987193) 12;
          c = MD5STEP F1 c d a b (inp ! 14 + 0xa679438e) 17;
          b = MD5STEP F1 b c d a (inp ! 15 + 0x49b40821) 22;
          a = MD5STEP F2 a b c d (inp ! 1 + 0xf61e2562) 5;
          d = MD5STEP F2 d a b c (inp ! 6 + 0xc040b340) 9;
          c = MD5STEP F2 c d a b (inp ! 11 + 0x265e5a51) 14;
          b = MD5STEP F2 b c d a (inp ! 0 + 0xe9b6c7aa) 20;
          a = MD5STEP F2 a b c d (inp ! 5 + 0xd62f105d) 5;
          d = MD5STEP F2 d a b c (inp ! 10 + 0x02441453) 9;
          c = MD5STEP F2 c d a b (inp ! 15 + 0xd8a1e681) 14;
          b = MD5STEP F2 b c d a (inp ! 4 + 0xe7d3fbc8) 20;
          a = MD5STEP F2 a b c d (inp ! 9 + 0x21e1cde6) 5;
          d = MD5STEP F2 d a b c (inp ! 14 + 0xc33707d6) 9;
          c = MD5STEP F2 c d a b (inp ! 3 + 0xf4d50d87) 14;
          b = MD5STEP F2 b c d a (inp ! 8 + 0x455a14ed) 20;
          a = MD5STEP F2 a b c d (inp ! 13 + 0xa9e3e905) 5;
          d = MD5STEP F2 d a b c (inp ! 2 + 0xfcefa3f8) 9;
          c = MD5STEP F2 c d a b (inp ! 7 + 0x676f02d9) 14;
          b = MD5STEP F2 b c d a (inp ! 12 + 0x8d2a4c8a) 20;
          a = MD5STEP F3 a b c d (inp ! 5 + 0xfffa3942) 4;
          d = MD5STEP F3 d a b c (inp ! 8 + 0x8771f681) 11;
          c = MD5STEP F3 c d a b (inp ! 11 + 0x6d9d6122) 16;
          b = MD5STEP F3 b c d a (inp ! 14 + 0xfde5380c) 23;
          a = MD5STEP F3 a b c d (inp ! 1 + 0xa4beea44) 4;
          d = MD5STEP F3 d a b c (inp ! 4 + 0x4bdecfa9) 11;
          c = MD5STEP F3 c d a b (inp ! 7 + 0xf6bb4b60) 16;
          b = MD5STEP F3 b c d a (inp ! 10 + 0xbebfbc70) 23;
          a = MD5STEP F3 a b c d (inp ! 13 + 0x289b7ec6) 4;
          d = MD5STEP F3 d a b c (inp ! 0 + 0xeaa127fa) 11;
          c = MD5STEP F3 c d a b (inp ! 3 + 0xd4ef3085) 16;
          b = MD5STEP F3 b c d a (inp ! 6 + 0x04881d05) 23;
          a = MD5STEP F3 a b c d (inp ! 9 + 0xd9d4d039) 4;
          d = MD5STEP F3 d a b c (inp ! 12 + 0xe6db99e5) 11;
          c = MD5STEP F3 c d a b (inp ! 15 + 0x1fa27cf8) 16;
          b = MD5STEP F3 b c d a (inp ! 2 + 0xc4ac5665) 23;
          a = MD5STEP F4 a b c d (inp ! 0 + 0xf4292244) 6;
          d = MD5STEP F4 d a b c (inp ! 7 + 0x432aff97) 10;
          c = MD5STEP F4 c d a b (inp ! 14 + 0xab9423a7) 15;
          b = MD5STEP F4 b c d a (inp ! 5 + 0xfc93a039) 21;
          a = MD5STEP F4 a b c d (inp ! 12 + 0x655b59c3) 6;
          d = MD5STEP F4 d a b c (inp ! 3 + 0x8f0ccc92) 10;
          c = MD5STEP F4 c d a b (inp ! 10 + 0xffeff47d) 15;
          b = MD5STEP F4 b c d a (inp ! 1 + 0x85845dd1) 21;
          a = MD5STEP F4 a b c d (inp ! 8 + 0x6fa87e4f) 6;
          d = MD5STEP F4 d a b c (inp ! 15 + 0xfe2ce6e0) 10;
          c = MD5STEP F4 c d a b (inp ! 6 + 0xa3014314) 15;
          b = MD5STEP F4 b c d a (inp ! 13 + 0x4e0811a1) 21;
          a = MD5STEP F4 a b c d (inp ! 4 + 0xf7537e82) 6;
          d = MD5STEP F4 d a b c (inp ! 11 + 0xbd3af235) 10;
          c = MD5STEP F4 c d a b (inp ! 2 + 0x2ad7d2bb) 15;
          b = MD5STEP F4 b c d a (inp ! 9 + 0xeb86d391) 21
      in [buf ! 0 + a, buf ! 1 + b, buf ! 2 + c, buf ! 3 + d])"

text \<open>The same steps as data: round function, message index, constant, shift.\<close>

type_synonym round_step = "(u32 \<Rightarrow> u32 \<Rightarrow> u32 \<Rightarrow> u32) \<times> nat \<times> u32 \<times> nat"

definition md5_steps :: "round_step list" where
  "md5_steps = [
     (F1, 0, 0xd76aa478, 7), (F1, 1, 0xe8c7b756, 12),
     (F1, 2, 0x242070db, 17), (F1, 3, 0xc1bdceee, 22),
     (F1, 4, 0xf57c0faf, 7), (F1, 5, 0x4787c62a, 12),
     (F1, 6, 0xa8304613, 17), (F1, 7, 0xfd469501, 22),
     (F1, 8, 0x698098d8, 7), (F1, 9, 0x8b44f7af, 12),
     (F1, 10, 0xffff5bb1, 17), (F1, 11, 0x895cd7be, 22),
     (F1, 12, 0x6b901122, 7), (F1, 13, 0xfd987193, 12),
     (F1, 14, 0xa679438e, 17), (F1, 15, 0x49b40821, 22),
     (F2, 1, 0xf61e2562, 5), (F2, 6, 0xc040b340, 9),
     (F2, 11, 0x265e5a51, 14), (F2, 0, 0xe9b6c7aa, 20),
     (F2, 5, 0xd62f105d, 5), (F2, 10, 0x02441453, 9),
     (F2, 15, 0xd8a1e681, 14), (F2, 4, 0xe7d3fbc8, 20),
     (F2, 9, 0x21e1cde6, 5), (F2, 14, 0xc33707d6, 9),
     (F2, 3, 0xf4d50d87, 14), (F2, 8, 0x455a14ed, 20),
     (F2, 13, 0xa9e3e905, 5), (F2, 2, 0xfcefa3f8, 9),
     (F2, 7, 0x676f02d9, 14), (F2, 12, 0x8d2a4c8a, 20),
     (F3, 5, 0xfffa3942, 4), (F3, 8, 0x8771f681, 11),
     (F3, 11, 0x6d9d6122, 16), (F3, 14, 0xfde5380c, 23),
     (F3, 1, 0xa4beea44, 4), (F3, 4, 0x4bdecfa9, 11),
     (F3, 7, 0xf6bb4b60, 16), (F3, 10, 0xbebfbc70, 23),
     (F3, 13, 0x289b7ec6, 4), (F3, 0, 0xeaa127fa, 11),
     (F3, 3, 0xd4ef3085, 16), (F3, 6, 0x04881d05, 23),
     (F3, 9, 0xd9d4d039, 4), (F3, 12, 0xe6db99e5, 11),
     (F3, 15, 0x1fa27cf8, 16), (F3, 2, 0xc4ac5665, 23),
     (F4, 0, 0xf4292244, 6), (F4, 7, 0x432aff97, 10),
     (F4, 14, 0xab9423a7, 15), (F4, 5, 0xfc93a039, 21),
     (F4, 12, 0x655b59c3, 6), (F4, 3, 0x8f0ccc92, 10),
     (F4, 10, 0xffeff47d, 15), (F4, 1, 0x85845dd1, 21),
     (F4, 8, 0x6fa87e4f, 6), (F4, 15, 0xfe2ce6e0, 10),
     (F4, 6, 0xa3014314, 15), (F4, 13, 0x4e0811a1, 21),
     (F4, 4, 0xf7537e82, 6), (F4, 11, 0xbd3af235, 10),
     (F4, 2, 0x2ad7d2bb, 15), (F4, 9, 0xeb86d391, 21)]"

text \<open>One step on the register file; the registers rotate so that each step has the same shape.\<close>

type_synonym regs = "u32 \<times> u32 \<times> u32 \<times> u32"

fun run_step :: "u32 list \<Rightarrow> regs \<Rightarrow> round_step \<Rightarrow> regs" where
  "run_step inp (a, b, c, d) (f, i, k, s) = (d, MD5STEP f a b c d (inp ! i + k) s, b, c)"

definition add_regs :: "u32 list \<Rightarrow> regs \<Rightarrow> u32 list" where
  "add_regs buf r = (case r of (a, b, c, d) \<Rightarrow> [buf ! 0 + a, buf ! 1 + b, buf ! 2 + c, buf ! 3 + d])"

lemma foldl_run_step:
  "add_regs buf (foldl (run_step inp) (a, b, c, d) ((f, i, k, s) # xs)) =
     (let a' = MD5STEP f a b c d (inp ! i + k) s
      in add_regs buf (foldl (run_step inp) (d, a', b, c) xs))"
  by (simp add: Let_def)

lemma add_regs_Nil:
  "add_regs buf (foldl (run_step inp) (a, b, c, d) []) = [buf ! 0 + a, buf ! 1 + b, buf ! 2 + c, buf ! 3 + d]"
  by (simp add: add_regs_def)

lemma transform_steps:
  "transform buf inp =
     (let a = buf ! 0; b = buf ! 1; c = buf ! 2; d = buf ! 3
      in add_regs buf (foldl (run_step inp) (a, b, c, d) md5_steps))"
  by (simp only: transform_def md5_steps_def foldl_run_step add_regs_Nil)

section \<open>RFC 1321\<close>

text \<open>The textbook round functions and the schedules as functions of the step number.\<close>

definition rfc_round :: "nat \<Rightarrow> u32 \<Rightarrow> u32 \<Rightarrow> u32 \<Rightarrow> u32" where
  "rfc_round i x y z =
     (if i < 16 then (x AND y) OR (NOT x AND z)
      else if i < 32 then (x AND z) OR (y AND NOT z)
      else if i < 48 then x XOR y XOR z
      else y XOR (x OR NOT z))"

definition rfc_index :: "nat \<Rightarrow> nat" where
  "rfc_index i =
     (if i < 16 then i
      else if i < 32 then (5 * i + 1) mod 16
      else if i < 48 then (3 * i + 5) mod 16
      else (7 * i) mod 16)"

definition rfc_shift :: "nat \<Rightarrow> nat" where
  "rfc_shift i = [[7, 12, 17, 22], [5, 9, 14, 20], [4, 11, 16, 23], [6, 10, 15, 21]]
     ! (i div 16) ! (i mod 4)"

definition rfc_T :: "u32 list" where
  "rfc_T = [
     0xd76aa478, 0xe8c7b756, 0x242070db, 0xc1bdceee,
     0xf57c0faf, 0x4787c62a, 0xa8304613, 0xfd469501,
     0x698098d8, 0x8b44f7af, 0xffff5bb1, 0x895cd7be,
     0x6b901122, 0xfd987193, 0xa679438e, 0x49b40821,
     0xf61e2562, 0xc040b340, 0x265e5a51, 0xe9b6c7aa,
     0xd62f105d, 0x02441453, 0xd8a1e681, 0xe7d3fbc8,
     0x21e1cde6, 0xc33707d6, 0xf4d50d87, 0x455a14ed,
     0xa9e3e905, 0xfcefa3f8, 0x676f02d9, 0x8d2a4c8a,
     0xfffa3942, 0x8771f681, 0x6d9d6122, 0xfde5380c,
     0xa4beea44, 0x4bdecfa9, 0xf6bb4b60, 0xbebfbc70,
     0x289b7ec6, 0xeaa127fa, 0xd4ef3085, 0x04881d05,
     0xd9d4d039, 0xe6db99e5, 0x1fa27cf8, 0xc4ac5665,
     0xf4292244, 0x432aff97, 0xab9423a7, 0xfc93a039,
     0x655b59c3, 0x8f0ccc92, 0xffeff47d, 0x85845dd1,
     0x6fa87e4f, 0xfe2ce6e0, 0xa3014314, 0x4e0811a1,
     0xf7537e82, 0xbd3af235, 0x2ad7d2bb, 0xeb86d391]"

fun rfc_step :: "u32 list \<Rightarrow> regs \<Rightarrow> nat \<Rightarrow> regs" where
  "rfc_step inp (a, b, c, d) i =
     (d, b + word_rotl (rfc_shift i) (a + rfc_round i b c d + inp ! rfc_index i + rfc_T ! i), b, c)"

definition rfc_compress :: "u32 list \<Rightarrow> u32 list \<Rightarrow> u32 list" where
  "rfc_compress buf inp =
     add_regs buf (foldl (rfc_step inp) (buf ! 0, buf ! 1, buf ! 2, buf ! 3) [0..<64])"

section \<open>The unrolled steps are the RFC's\<close>

lemma rotl_shifts:
  assumes "0 < s" "s < 32"
  shows "(push_bit s w) OR (drop_bit (32 - s) w) = word_rotl s (w :: u32)"
proof (rule bit_word_eqI)
  fix n assume "n < LENGTH(32)"
  then have n: "n < 32" by simp
  show "bit ((push_bit s w) OR (drop_bit (32 - s) w)) n \<longleftrightarrow> bit (word_rotl s w) n"
  proof (cases "s \<le> n")
    case True
    then have "(n + (32 - s)) mod 32 = n - s" using assms n by (simp add: mod_if)
    moreover have "\<not> bit w (32 + n - s)" using True by (auto dest: bit_imp_le_length)
    ultimately show ?thesis
      using True n assms by (simp add: bit_simps bit_word_rotl_iff)
  next
    case False
    then have "(n + (32 - s)) mod 32 = n + (32 - s)" using assms by simp
    then show ?thesis
      using False n assms
      by (simp add: bit_simps bit_word_rotl_iff) (simp only: add.commute [of 32 n])
  qed
qed

lemma rfc_round_code:
  "rfc_round i = (if i < 16 then F1 else if i < 32 then F2 else if i < 48 then F3 else F4)"
  by (auto simp: fun_eq_iff rfc_round_def F1_def F2_def F3_def F4_def bit_eq_iff bit_simps)

lemma MD5STEP_rfc:
  "0 < s \<Longrightarrow> s < 32 \<Longrightarrow> MD5STEP f a b c d (m + k) s = b + word_rotl s (a + f b c d + m + k)"
  by (simp add: MD5STEP_def rotl_shifts add.assoc)

lemma rfc_shift_bounds: "list_all (\<lambda>i. 0 < rfc_shift i \<and> rfc_shift i < 32) [0..<64]"
  by (simp add: upt_rec rfc_shift_def)

lemma md5_steps_rfc:
  "md5_steps = map (\<lambda>i. (rfc_round i, rfc_index i, rfc_T ! i, rfc_shift i)) [0..<64]"
  by (simp add: md5_steps_def upt_rec rfc_round_code rfc_index_def rfc_T_def rfc_shift_def)

lemma run_step_rfc:
  "i < 64 \<Longrightarrow> run_step inp r (rfc_round i, rfc_index i, rfc_T ! i, rfc_shift i) = rfc_step inp r i"
  using list_all_upt [OF rfc_shift_bounds, of i] by (cases r) (simp add: MD5STEP_rfc)

lemma foldl_run_step_rfc:
  "set is \<subseteq> {..<64} \<Longrightarrow>
     foldl (run_step inp) r (map (\<lambda>i. (rfc_round i, rfc_index i, rfc_T ! i, rfc_shift i)) is) =
       foldl (rfc_step inp) r is"
  by (induction "is" arbitrary: r) (simp_all add: run_step_rfc)

lemma transform_rfc: "transform buf inp = rfc_compress buf inp"
proof -
  have "set [0..<64] \<subseteq> {..<(64::nat)}" by auto
  from foldl_run_step_rfc [OF this] show ?thesis
    by (simp only: transform_steps rfc_compress_def md5_steps_rfc Let_def)
qed

lemma length_transform [simp]: "length (transform buf inp) = 4"
  by (simp add: transform_rfc rfc_compress_def add_regs_def split: prod.split)

text \<open>
  C18. The 64 unrolled steps of the optimised transformation, with the round functions rewritten to
  save operations and the rotation as two shifts, compute RFC 1321's compression function: the
  tabulated schedule over the textbook round functions with a left rotation, for every state and
  every block.
\<close>

theorem transform_is_rfc1321: "transform buf inp = rfc_compress buf inp"
  by (rule transform_rfc)

end
