(* ===== verification/Hash_Stream.thy ===== *)
theory Hash_Stream
  imports ModRuby_Prelude
begin

text \<open>
  The interface the digest classes share: a context started once, fed with buffers, finished once.
  The contract is an abstraction relation between a context and the bytes fed so far. The client is
  the file loop that \<open>md5::md5(path)\<close> and \<open>sha1::hashfile\<close> both contain: read at most 10240 bytes,
  stop when \<open>fread\<close> returns nothing, update with what was read.
\<close>

section \<open>Base 16\<close>

text \<open>
  The loop of \<open>DigestToBase16\<close> and of \<open>sha1::final\<close>: two digits for each byte, high half first, \<open>j\<close> running two
  ahead. It reads the digest and writes the buffer within their sizes or has no result.
\<close>

definition zEncode :: string where
  "zEncode = ''0123456789abcdef''"

fun hex_loop :: "u8 list \<Rightarrow> string \<Rightarrow> nat \<Rightarrow> nat \<Rightarrow> nat \<Rightarrow> (string \<times> nat) option" where
  "hex_loop digest out 0 i j = Some (out, j)"
| "hex_loop digest out (Suc todo) i j =
     Option.bind (rd digest i) (\<lambda>a.
     Option.bind (wr out j (zEncode ! unat (drop_bit 4 a AND 0xf))) (\<lambda>out.
     Option.bind (wr out (Suc j) (zEncode ! unat (a AND 0xf))) (\<lambda>out.
       hex_loop digest out todo (Suc i) (j + 2))))"

text \<open>The digits of a whole digest.\<close>

definition hex_byte :: "u8 \<Rightarrow> string" where
  "hex_byte a = [zEncode ! unat (drop_bit 4 a AND 0xf), zEncode ! unat (a AND 0xf)]"

definition to_base16 :: "u8 list \<Rightarrow> string" where
  "to_base16 digest = concat (map hex_byte digest)"

lemma length_to_base16: "length (to_base16 d) = 2 * length d"
  by (induction d) (simp_all add: to_base16_def hex_byte_def)

lemma hex_loop_spec:
  "length out = j + 2 * todo + r \<Longrightarrow> length digest = i + todo \<Longrightarrow>
   hex_loop digest out todo i j = Some (take j out @ to_base16 (drop i digest) @ drop (j + 2 * todo) out, j + 2 * todo)"
proof (induction digest out todo i j rule: hex_loop.induct)
  case (2 digest out todo i j)
  let ?out = "out[j := zEncode ! unat (drop_bit 4 (digest ! i) AND 0xf),
                  Suc j := zEncode ! unat ((digest ! i) AND 0xf)]"
  have "take (j + 2) ?out = take j out @ hex_byte (digest ! i)"
    using 2 by (simp add: take_Suc_conv_app_nth hex_byte_def)
  moreover have "drop i digest = digest ! i # drop (Suc i) digest"
    using 2 by (simp add: Cons_nth_drop_Suc)
  ultimately show ?case using 2 by (simp add: to_base16_def rd_def wr_def)
qed (simp add: to_base16_def)

lemma low_nibble: "unat ((a :: u8) AND 0xf) = unat a mod 16"
proof -
  have "(0xf :: u8) = mask 4" by (simp add: mask_eq_exp_minus_1)
  then have "a AND 0xf = take_bit 4 a" by (simp only: take_bit_eq_mask)
  then have "unat (a AND 0xf) = take_bit 4 (unat a)" by (simp only: unsigned_take_bit_eq)
  then show ?thesis by (simp add: take_bit_eq_mod)
qed

lemma high_nibble: "unat (drop_bit 4 (a :: u8) AND 0xf) = unat a div 16"
proof -
  have "unat (drop_bit 4 a) = drop_bit 4 (unat a)" using unsigned_less [of a, where 'a = nat]
    by (simp only: unsigned_drop_bit_eq) (simp add: take_bit_nat_eq_self)
  moreover have "unat a < 256" using unsigned_less [of a, where 'a = nat] by simp
  ultimately show ?thesis by (simp only: low_nibble) (simp add: drop_bit_eq_div)
qed

lemma hex_byte_nat: "hex_byte a = [zEncode ! (unat a div 16), zEncode ! (unat a mod 16)]"
  by (simp only: hex_byte_def high_nibble) (simp only: low_nibble)

lemma zEncode_inj: "i < 16 \<Longrightarrow> j < 16 \<Longrightarrow> zEncode ! i = zEncode ! j \<longleftrightarrow> i = j"
proof -
  have "distinct zEncode" "length zEncode = 16" by (simp_all add: zEncode_def)
  then show "i < 16 \<Longrightarrow> j < 16 \<Longrightarrow> ?thesis" by (simp add: nth_eq_iff_index_eq)
qed

lemma hex_byte_inj: "hex_byte a = hex_byte b \<longleftrightarrow> a = b"
proof
  assume "hex_byte a = hex_byte b"
  then have "zEncode ! (unat a div 16) = zEncode ! (unat b div 16)"
      "zEncode ! (unat a mod 16) = zEncode ! (unat b mod 16)"
    by (simp_all add: hex_byte_nat)
  then have "unat a div 16 = unat b div 16" "unat a mod 16 = unat b mod 16"
    using unsigned_less [of a, where 'a = nat] unsigned_less [of b, where 'a = nat]
    by (simp_all add: zEncode_inj)
  then have "unat a = unat b" by (metis div_mult_mod_eq)
  then show "a = b" by (simp add: word_unat_eq_iff)
qed simp

lemma to_base16_inj: "to_base16 d = to_base16 e \<Longrightarrow> d = e"
proof (induction d arbitrary: e)
  case Nil
  then show ?case by (cases e) (simp_all add: to_base16_def hex_byte_def)
next
  case (Cons a d)
  then obtain b e' where e: "e = b # e'"
    by (cases e) (simp_all add: to_base16_def hex_byte_def)
  with Cons.prems have "hex_byte a = hex_byte b" "to_base16 d = to_base16 e'"
    by (simp_all add: to_base16_def hex_byte_def)
  with Cons.IH e show ?case by (simp add: hex_byte_inj)
qed

lemma zEncode_no_NUL: "i < 16 \<Longrightarrow> zEncode ! i \<noteq> NUL"
proof
  assume "i < 16" "zEncode ! i = NUL"
  moreover have "length zEncode = 16" by (simp add: zEncode_def)
  ultimately have "NUL \<in> set zEncode" by (metis nth_mem)
  then show False by (simp add: zEncode_def NUL_def)
qed

lemma hex_byte_no_NUL: "NUL \<notin> set (hex_byte a)"
proof -
  have "unat a div 16 < 16" "unat a mod 16 < 16"
    using unsigned_less [of a, where 'a = nat] by simp_all
  from this [THEN zEncode_no_NUL] show ?thesis by (auto simp: hex_byte_nat)
qed

lemma to_base16_no_NUL: "NUL \<notin> set (to_base16 d)"
  by (induction d) (auto simp: to_base16_def hex_byte_no_NUL)

section \<open>The contract of an incremental hash\<close>

locale incremental_hash =
  fixes start :: 'c
    and feed :: "'c \<Rightarrow> u8 list \<Rightarrow> 'c"
    and finish :: "'c \<Rightarrow> u8 list"
    and digest :: "u8 list \<Rightarrow> u8 list"
    and absorbed :: "'c \<Rightarrow> u8 list \<Rightarrow> bool"
  assumes absorbed_start: "absorbed start []"
    and absorbed_feed: "absorbed c m \<Longrightarrow> length d < 2 ^ 32 \<Longrightarrow> absorbed (feed c d) (m @ d)"
    and finish_absorbed: "absorbed c m \<Longrightarrow> finish c = digest m"
begin

lemma absorbed_foldl:
  "absorbed c m \<Longrightarrow> \<forall>d \<in> set ds. length d < 2 ^ 32 \<Longrightarrow> absorbed (foldl feed c ds) (m @ concat ds)"
proof (induction ds arbitrary: c m)
  case (Cons d ds)
  then have "absorbed (feed c d) (m @ d)" by (simp add: absorbed_feed)
  with Cons show ?case by (metis append_assoc concat.simps(2) foldl_Cons list.set_intros(2))
qed simp

lemma chunking_irrelevant:
  "\<forall>d \<in> set ds. length d < 2 ^ 32 \<Longrightarrow> finish (foldl feed start ds) = digest (concat ds)"
  using absorbed_foldl [OF absorbed_start] by (simp add: finish_absorbed)

end

section \<open>The file loop\<close>

text \<open>
  What \<open>access\<close>, \<open>fopen\<close> and the reads find at a path, and the loop
  \<open>n = fread(zBuf, 1, sizeof(zBuf), in); if (n <= 0) break; update(zBuf, n)\<close> over the contents of a
  readable file.
\<close>

datatype file_read = Not_readable | Open_failed | Readable "u8 list"

definition sizeof_zBuf :: nat where
  "sizeof_zBuf = 10240"

function read_loop :: "('c \<Rightarrow> u8 list \<Rightarrow> 'c) \<Rightarrow> 'c \<Rightarrow> u8 list \<Rightarrow> 'c" where
  "read_loop upd ctx contents =
     (let zBuf = take sizeof_zBuf contents
      in if length zBuf = 0 then ctx
         else read_loop upd (upd ctx zBuf) (drop sizeof_zBuf contents))"
  by pat_completeness auto
termination
  by (relation "measure (\<lambda>(_, _, contents). length contents)") (auto simp: sizeof_zBuf_def)

declare read_loop.simps [simp del]

lemma read_loop_Nil [simp]: "read_loop upd ctx [] = ctx"
  by (simp add: read_loop.simps)

fun blocks_of :: "nat \<Rightarrow> 'a list \<Rightarrow> 'a list list" where
  "blocks_of n xs =
     (if xs = [] \<or> n = 0 then [] else take n xs # blocks_of n (drop n xs))"

declare blocks_of.simps [simp del]

lemma blocks_of_Nil [simp]: "blocks_of n [] = []"
  by (simp add: blocks_of.simps)

lemma concat_blocks_of: "0 < n \<Longrightarrow> concat (blocks_of n xs) = xs"
proof (induction n xs rule: blocks_of.induct)
  case (1 n xs)
  then show ?case by (cases "xs = []") (simp_all add: blocks_of.simps [of n xs])
qed

lemma length_blocks_of: "d \<in> set (blocks_of n xs) \<Longrightarrow> length d \<le> n"
proof (induction n xs rule: blocks_of.induct)
  case (1 n xs)
  then show ?case by (cases "xs = [] \<or> n = 0") (auto simp: blocks_of.simps [of n xs])
qed

lemma read_loop_foldl: "read_loop upd ctx contents = foldl upd ctx (blocks_of sizeof_zBuf contents)"
proof (induction upd ctx contents rule: read_loop.induct)
  case (1 upd ctx contents)
  then show ?case
    by (cases "contents = []")
      (simp_all add: read_loop.simps [of upd ctx contents] blocks_of.simps [of _ contents] sizeof_zBuf_def)
qed

context incremental_hash
begin

lemma absorbed_read_loop: "absorbed c m \<Longrightarrow> absorbed (read_loop feed c contents) (m @ contents)"
proof -
  assume "absorbed c m"
  moreover have "\<forall>d \<in> set (blocks_of sizeof_zBuf contents). length d < 2 ^ 32"
    by (auto simp: sizeof_zBuf_def dest!: length_blocks_of)
  ultimately show ?thesis
    using absorbed_foldl [of c m "blocks_of sizeof_zBuf contents"]
    by (simp add: read_loop_foldl concat_blocks_of sizeof_zBuf_def)
qed

lemma read_loop_digest: "finish (read_loop feed start contents) = digest contents"
  using absorbed_read_loop [OF absorbed_start] by (simp add: finish_absorbed)

end

end
