(* ===== verification/Md5.thy ===== *)
theory Md5
  imports Md5_Core Hash_Stream
begin

text \<open>
  The class \<open>modruby::md5\<close> of \<open>src/src/md5.cpp\<close>: \<open>byteReverse\<close> on the memory of a host of either byte
  order (\<open>le\<close> is IS_LITTLEENDIAN of \<open>src/src/endian.h\<close>), \<open>init\<close>, \<open>update\<close>, \<open>final\<close> and the file
  constructor. The abstract specification is RFC 1321's digest of the whole message; the invariant
  \<open>md5_absorbed\<close> relates a context to the bytes fed so far, and the class is an interpretation of the
  contract \<open>incremental_hash\<close>.
\<close>

section \<open>Words in memory\<close>

definition le_word :: "u8 \<Rightarrow> u8 \<Rightarrow> u8 \<Rightarrow> u8 \<Rightarrow> u32" where
  "le_word b0 b1 b2 b3 =
     push_bit 16 (push_bit 8 (ucast b3) OR ucast b2) OR (push_bit 8 (ucast b1) OR ucast b0)"

definition le_bytes :: "u32 \<Rightarrow> u8 list" where
  "le_bytes w = [ucast w, ucast (drop_bit 8 w), ucast (drop_bit 16 w), ucast (drop_bit 24 w)]"

text \<open>A \<open>uint32\<close> stored to memory, and four bytes of memory read as a \<open>uint32\<close>.\<close>

definition host_bytes :: "bool \<Rightarrow> u32 \<Rightarrow> u8 list" where
  "host_bytes le w = (if le then le_bytes w else rev (le_bytes w))"

definition host_word :: "bool \<Rightarrow> u8 \<Rightarrow> u8 \<Rightarrow> u8 \<Rightarrow> u8 \<Rightarrow> u32" where
  "host_word le a b c d = (if le then le_word a b c d else le_word d c b a)"

fun words4 :: "(u8 \<Rightarrow> u8 \<Rightarrow> u8 \<Rightarrow> u8 \<Rightarrow> u32) \<Rightarrow> u8 list \<Rightarrow> u32 list" where
  "words4 f (a # b # c # d # r) = f a b c d # words4 f r"
| "words4 f _ = []"

text \<open>The array of words a pointer cast shows, on this host and in little-endian order.\<close>

definition host_words :: "bool \<Rightarrow> u8 list \<Rightarrow> u32 list" where
  "host_words le = words4 (host_word le)"

definition le_words :: "u8 list \<Rightarrow> u32 list" where
  "le_words = words4 le_word"

text \<open>
  \<open>byteReverse\<close>: a do-while loop over an unsigned counter that reads four bytes as a little-endian
  word and stores it in the host's order; \<^const>\<open>None\<close> when it leaves the buffer.
\<close>

fun byteReverse :: "bool \<Rightarrow> u8 list \<Rightarrow> u32 \<Rightarrow> u8 list option" where
  "byteReverse le (b0 # b1 # b2 # b3 # rest) longs =
     (let t = le_word b0 b1 b2 b3 in
      if longs - 1 = 0 then Some (host_bytes le t @ rest)
      else map_option (\<lambda>r. host_bytes le t @ r) (byteReverse le rest (longs - 1)))"
| "byteReverse le _ longs = None"

lemma le_word_bytes: "le_word (ucast w) (ucast (drop_bit 8 w)) (ucast (drop_bit 16 w)) (ucast (drop_bit 24 w)) = w"
proof (rule bit_word_eqI)
  fix n assume "n < LENGTH(32)"
  then have "n < 32" by simp
  then consider "n < 8" | "8 \<le> n" "n < 16" | "16 \<le> n" "n < 24" | "24 \<le> n" "n < 32" by linarith
  then show "bit (le_word (ucast w) (ucast (drop_bit 8 w)) (ucast (drop_bit 16 w)) (ucast (drop_bit 24 w))) n
      \<longleftrightarrow> bit w n"
    by cases (auto simp: le_word_def bit_simps dest: bit_imp_le_length)
qed

lemma host_word_True: "host_word True = le_word"
  by (simp add: host_word_def fun_eq_iff)

lemma length_bytes [simp]: "length (le_bytes w) = 4" "length (host_bytes le w) = 4"
  by (simp_all add: le_bytes_def host_bytes_def)

lemma words4_host_bytes:
  "words4 (host_word le) (host_bytes le w @ r) = w # words4 (host_word le) r"
  by (simp add: host_bytes_def le_bytes_def host_word_def le_word_bytes)

lemma host_words_bytes [simp]: "host_words le (concat (map (host_bytes le) ws) @ r) = ws @ host_words le r"
  by (induction ws) (simp_all add: host_words_def words4_host_bytes)

lemma le_words_bytes: "le_words (le_bytes w @ r) = w # le_words r"
  using words4_host_bytes [of True w r] by (simp add: le_words_def host_bytes_def host_word_True)

lemma words4_append: "length xs mod 4 = 0 \<Longrightarrow> words4 f (xs @ ys) = words4 f xs @ words4 f ys"
  by (induction f xs rule: words4.induct) (auto simp: mod_Suc split: if_splits)

lemma length_words4: "length (words4 f xs) = length xs div 4"
  by (induction f xs rule: words4.induct) auto

lemma byteReverse_spec:
  "n < 2 ^ 32 - 1 \<Longrightarrow> 4 * Suc n \<le> length bs \<Longrightarrow>
     byteReverse le bs (word_of_nat (Suc n)) =
       Some (concat (map (host_bytes le) (le_words (take (4 * Suc n) bs))) @ drop (4 * Suc n) bs)"
proof (induction n arbitrary: bs)
  case 0
  then have "4 \<le> length bs" by simp
  then obtain a b c d r where "bs = a # b # c # d # r" by (rule four_elements)
  then show ?case by (simp add: le_words_def)
next
  case (Suc n)
  then have "4 \<le> length bs" by simp
  then obtain a b c d r where bs: "bs = a # b # c # d # r" by (rule four_elements)
  have eight: "4 * Suc (Suc n) = Suc (Suc (Suc (Suc (4 * Suc n))))" by simp
  have "(word_of_nat (Suc (Suc n)) :: u32) - 1 = word_of_nat (Suc n)" by simp
  moreover have "(word_of_nat (Suc n) :: u32) \<noteq> 0"
    using Suc.prems by (simp add: word_unat_eq_iff unat_of_nat del: of_nat_Suc)
  moreover have "byteReverse le r (word_of_nat (Suc n)) =
      Some (concat (map (host_bytes le) (le_words (take (4 * Suc n) r))) @ drop (4 * Suc n) r)"
    using Suc.IH [of r] Suc.prems bs by simp
  moreover have "le_words (take (4 * Suc (Suc n)) bs) = le_word a b c d # le_words (take (4 * Suc n) r)"
    using bs eight by (simp add: le_words_def del: mult_Suc_right)
  moreover have "drop (4 * Suc (Suc n)) bs = drop (4 * Suc n) r"
    using bs eight by (simp del: mult_Suc_right)
  ultimately show ?case using bs by (simp del: of_nat_Suc)
qed

section \<open>The context and its operations\<close>

text \<open>
  The context, the digest and its printed form; the last two are unset until \<open>final\<close> ran.
\<close>

record md5_state =
  ctx_buf :: "u32 list"
  ctx_bits0 :: u32
  ctx_bits1 :: u32
  ctx_in :: "u8 list"
  hash_bytes :: "u8 list option"
  hash_str :: "string option"

definition md5_init :: "md5_state \<Rightarrow> md5_state" where
  "md5_init st = st\<lparr>
     ctx_buf := [0x67452301, 0xefcdab89, 0x98badcfe, 0x10325476], ctx_bits0 := 0, ctx_bits1 := 0\<rparr>"

text \<open>\<open>_hash\<close> and \<open>_hash_str\<close>; their old contents do not matter, as all of it is written.\<close>

definition sizeof_hash :: nat where "sizeof_hash = 16"
definition sizeof_hash_str :: nat where "sizeof_hash_str = 33"

text \<open>\<open>DigestToBase16\<close> writes the digits of 16 bytes and the NUL behind them.\<close>

definition DigestToBase16 :: "u8 list \<Rightarrow> string \<Rightarrow> string option" where
  "DigestToBase16 digest zBuf =
     Option.bind (hex_loop digest zBuf 16 0 0) (\<lambda>(out, j). wr out j NUL)"

definition md5_process :: "bool \<Rightarrow> md5_state \<Rightarrow> md5_state option" where
  "md5_process le st =
     (case byteReverse le (ctx_in st) 16 of None \<Rightarrow> None
      | Some mem \<Rightarrow> Some (st\<lparr>ctx_in := mem, ctx_buf := transform (ctx_buf st) (host_words le mem)\<rparr>))"

function update_blocks :: "bool \<Rightarrow> md5_state \<Rightarrow> u8 list \<Rightarrow> md5_state option" where
  "update_blocks le st data =
     (if 64 \<le> length data then
        (case memcpy (ctx_in st) 0 data 64 of None \<Rightarrow> None
         | Some mem \<Rightarrow>
             (case md5_process le (st\<lparr>ctx_in := mem\<rparr>) of None \<Rightarrow> None
              | Some st' \<Rightarrow> update_blocks le st' (drop 64 data)))
      else map_option (\<lambda>mem. st\<lparr>ctx_in := mem\<rparr>) (memcpy (ctx_in st) 0 data (length data)))"
  by pat_completeness auto
termination
  by (relation "measure (\<lambda>(_, _, data). length data)") auto

declare update_blocks.simps [simp del]

definition md5_update :: "bool \<Rightarrow> md5_state \<Rightarrow> u8 list \<Rightarrow> md5_state option" where
  "md5_update le st data =
     (let len = word_of_nat (length data);
          t = ctx_bits0 st;
          low = t + push_bit 3 len;
          high = (if low < t then ctx_bits1 st + 1 else ctx_bits1 st) + drop_bit 29 len;
          st1 = st\<lparr>ctx_bits0 := low, ctx_bits1 := high\<rparr>;
          t1 = drop_bit 3 t AND 0x3f
      in if t1 \<noteq> 0 then
           (let t2 = 64 - t1 in
            if len < t2 then map_option (\<lambda>mem. st1\<lparr>ctx_in := mem\<rparr>) (memcpy (ctx_in st1) (unat t1) data (unat len))
            else
              (case memcpy (ctx_in st1) (unat t1) data (unat t2) of
                 None \<Rightarrow> None
               | Some mem \<Rightarrow>
                   (case md5_process le (st1\<lparr>ctx_in := mem\<rparr>) of
                      None \<Rightarrow> None
                    | Some st2 \<Rightarrow> update_blocks le st2 (drop (unat t2) data))))
         else update_blocks le st1 data)"

text \<open>The end of \<open>final\<close>: append the length in bits, transform, store the digest, wipe the context.\<close>

definition md5_finish :: "bool \<Rightarrow> md5_state \<Rightarrow> md5_state option" where
  "md5_finish le st =
     Option.bind (byteReverse le (ctx_in st) 14) (\<lambda>mem.
     Option.bind (memcpy mem 56 (host_bytes le (ctx_bits0 st)) 4) (\<lambda>mem.
     Option.bind (memcpy mem 60 (host_bytes le (ctx_bits1 st)) 4) (\<lambda>mem.
     let buf = transform (ctx_buf st) (host_words le mem) in
     Option.bind (byteReverse le (concat (map (host_bytes le) buf)) 4) (\<lambda>h.
     Option.bind (memcpy (replicate sizeof_hash 0) 0 h 16) (\<lambda>digest.
     Option.bind (DigestToBase16 digest (replicate sizeof_hash_str NUL)) (\<lambda>str.
       Some (st\<lparr>hash_bytes := Some digest, hash_str := Some (c_str str),
                ctx_buf := replicate 4 0, ctx_bits0 := 0, ctx_bits1 := 0, ctx_in := replicate 64 0\<rparr>)))))))"

definition md5_final :: "bool \<Rightarrow> md5_state \<Rightarrow> md5_state option" where
  "md5_final le st =
     (let count = unat (drop_bit 3 (ctx_bits0 st) AND 0x3F);
          p = count + 1;
          count1 = 64 - 1 - count
      in Option.bind (wr (ctx_in st) count 0x80) (\<lambda>mem.
         if count1 < 8 then
           Option.bind (memset mem p 0 count1) (\<lambda>mem.
           Option.bind (md5_process le (st\<lparr>ctx_in := mem\<rparr>)) (\<lambda>st.
           Option.bind (memset (ctx_in st) 0 0 56) (\<lambda>mem. md5_finish le (st\<lparr>ctx_in := mem\<rparr>))))
         else Option.bind (memset mem p 0 (count1 - 8)) (\<lambda>mem. md5_finish le (st\<lparr>ctx_in := mem\<rparr>))))"

section \<open>Specification: RFC 1321 over the whole message\<close>

definition md5_IV :: "u32 list" where
  "md5_IV = [0x67452301, 0xefcdab89, 0x98badcfe, 0x10325476]"

definition compress :: "u32 list \<Rightarrow> u8 list \<Rightarrow> u32 list" where
  "compress h block = rfc_compress h (le_words block)"

definition chain :: "u8 list \<Rightarrow> u32 list" where
  "chain m = foldl compress md5_IV (blocks_of 64 m)"

definition md5_pad :: "u8 list \<Rightarrow> u8 list" where
  "md5_pad m =
     m @ 0x80 # replicate ((119 - length m mod 64) mod 64) 0
       @ le_bytes (word_of_nat (8 * length m)) @ le_bytes (word_of_nat (8 * length m div 2 ^ 32))"

definition md5_rfc :: "u8 list \<Rightarrow> u8 list" where
  "md5_rfc m = concat (map le_bytes (chain (md5_pad m)))"

section \<open>Blocks\<close>

text \<open>The part of a message already compressed, and the part still in the buffer.\<close>

definition whole :: "u8 list \<Rightarrow> u8 list" where
  "whole m = take (64 * (length m div 64)) m"

definition rest :: "u8 list \<Rightarrow> u8 list" where
  "rest m = drop (64 * (length m div 64)) m"

lemma whole_rest: "whole m @ rest m = m"
  by (simp add: whole_def rest_def)

lemma length_whole: "length (whole m) = 64 * (length m div 64)"
  by (simp add: whole_def)

lemma length_rest: "length (rest m) = length m mod 64"
  by (simp add: rest_def minus_mult_div_eq_mod)

lemma blocks_of_append:
  "length xs mod 64 = 0 \<Longrightarrow> blocks_of 64 (xs @ ys) = blocks_of 64 xs @ blocks_of 64 ys"
proof (induction "64 :: nat" xs rule: blocks_of.induct)
  case (1 xs)
  show ?case
  proof (cases "xs = []")
    case False
    then have "64 \<le> length xs" using "1.prems" by (metis dvd_imp_le length_greater_0_conv mod_0_imp_dvd)
    moreover have "length (drop 64 xs) mod 64 = 0"
      using "1.prems" \<open>64 \<le> length xs\<close> by (simp add: le_mod_geq)
    ultimately show ?thesis
      using "1.hyps" False by (simp add: blocks_of.simps [of 64 "xs @ ys"] blocks_of.simps [of 64 xs])
  qed simp
qed

lemma chain_append:
  "length xs mod 64 = 0 \<Longrightarrow> chain (xs @ ys) = foldl compress (chain xs) (blocks_of 64 ys)"
  by (simp add: chain_def blocks_of_append)

lemma chain_block:
  "length xs mod 64 = 0 \<Longrightarrow> length b = 64 \<Longrightarrow> chain (xs @ b) = compress (chain xs) b"
  by (auto simp: chain_append blocks_of.simps)

lemma whole_extend:
  assumes "length xs mod 64 = 0"
  shows "whole (xs @ ys) = xs @ whole ys" "rest (xs @ ys) = rest ys"
proof -
  obtain k where k: "length xs = 64 * k" using assms by (auto elim: dvdE simp: mod_eq_0_iff_dvd)
  then have "64 * (length (xs @ ys) div 64) = length xs + 64 * (length ys div 64)" by simp
  then show "whole (xs @ ys) = xs @ whole ys" "rest (xs @ ys) = rest ys"
    by (simp_all add: whole_def rest_def)
qed

lemma whole_short: "length m < 64 \<Longrightarrow> whole m = [] \<and> rest m = m"
  by (simp add: whole_def rest_def)

section \<open>The invariant: a context and the bytes fed so far\<close>

text \<open>The counters hold eight times the length, the rest sits in the buffer, the blocks are chained.\<close>

definition md5_blocks :: "md5_state \<Rightarrow> u8 list \<Rightarrow> bool" where
  "md5_blocks st m \<longleftrightarrow>
     ctx_buf st = chain (whole m) \<and> length (ctx_in st) = 64 \<and>
     take (length m mod 64) (ctx_in st) = rest m"

definition md5_count :: "md5_state \<Rightarrow> u8 list \<Rightarrow> bool" where
  "md5_count st m \<longleftrightarrow>
     ctx_bits0 st = word_of_nat (8 * length m) \<and> ctx_bits1 st = word_of_nat (8 * length m div 2 ^ 32)"

text \<open>What a copy within the bounds leaves in the buffer.\<close>

definition copy_at :: "'a list \<Rightarrow> nat \<Rightarrow> 'a list \<Rightarrow> 'a list" where
  "copy_at mem off data = take off mem @ data @ drop (off + length data) mem"

lemma memcpy_copy_at:
  "off + n \<le> length mem \<Longrightarrow> n \<le> length src \<Longrightarrow> memcpy mem off src n = Some (copy_at mem off (take n src))"
  by (simp add: memcpy_def copy_at_def)

lemma memset_copy_at: "off + n \<le> length mem \<Longrightarrow> memset mem off c n = Some (copy_at mem off (replicate n c))"
  by (simp add: memset_def copy_at_def)

lemma DigestToBase16_spec:
  assumes "length digest = 16" "length zBuf = 33"
  shows "\<exists>str. DigestToBase16 digest zBuf = Some str \<and> c_str str = to_base16 digest"
  using hex_loop_spec [of zBuf 0 16 1 digest 0] assms
  by (auto simp: DigestToBase16_def wr_def length_to_base16 list_update_append to_base16_no_NUL c_str_append_NUL
      simp flip: Cons_nth_drop_Suc)

lemma length_copy_at [simp]:
  "off + length data \<le> length mem \<Longrightarrow> length (copy_at mem off data) = length mem"
  by (simp add: copy_at_def)

lemma take_copy_at:
  "off \<le> length mem \<Longrightarrow> take (off + length data) (copy_at mem off data) = take off mem @ data"
  by (simp add: copy_at_def)

lemma md5_process_eq:
  assumes "length (ctx_in st) = 64"
  obtains mem where "length mem = 64"
    "md5_process le st = Some (st\<lparr>ctx_in := mem, ctx_buf := transform (ctx_buf st) (le_words (ctx_in st))\<rparr>)"
proof -
  let ?mem = "concat (map (host_bytes le) (le_words (ctx_in st)))"
  have "byteReverse le (ctx_in st) 16 = Some ?mem"
    using byteReverse_spec [of 15 "ctx_in st" le] assms by simp
  moreover have "host_words le ?mem = le_words (ctx_in st)"
    using host_words_bytes [of le "le_words (ctx_in st)" "[]"] by (simp add: host_words_def)
  moreover have "length ?mem = 64"
    using assms by (simp add: length_concat comp_def le_words_def length_words4 sum_list_triv)
  ultimately show thesis using that by (simp add: md5_process_def)
qed

text \<open>Completing the buffer to a block compresses it.\<close>

lemma md5_process_block:
  assumes "length m mod 64 = 0" "ctx_buf st = chain m" "ctx_in st = b" "length b = 64"
  obtains mem where "length mem = 64"
    "md5_process le st = Some (st\<lparr>ctx_in := mem, ctx_buf := chain (m @ b)\<rparr>)"
  using md5_process_eq [of st le] assms that
  by (metis chain_block compress_def transform_rfc)

lemma update_blocks_spec:
  "length m mod 64 = 0 \<Longrightarrow> ctx_buf st = chain m \<Longrightarrow> length (ctx_in st) = 64 \<Longrightarrow>
     \<exists>mem h. update_blocks le st data = Some (st\<lparr>ctx_in := mem, ctx_buf := h\<rparr>) \<and>
       md5_blocks (st\<lparr>ctx_in := mem, ctx_buf := h\<rparr>) (m @ data)"
proof (induction "length data" arbitrary: m st data rule: less_induct)
  case less
  show ?case
  proof (cases "64 \<le> length data")
    case True
    let ?st = "st\<lparr>ctx_in := copy_at (ctx_in st) 0 (take 64 data)\<rparr>"
    have b: "ctx_in ?st = take 64 data" "length (take 64 data) = 64"
      using True less.prems by (simp_all add: copy_at_def)
    from md5_process_block [OF less.prems(1) _ b(1) b(2), of le] less.prems
    obtain mem where mem: "length mem = 64"
      "md5_process le ?st = Some (?st\<lparr>ctx_in := mem, ctx_buf := chain (m @ take 64 data)\<rparr>)"
      by auto
    have "length (drop 64 data) < length data" using True by simp
    moreover have "length (m @ take 64 data) mod 64 = 0" using less.prems True by simp
    ultimately obtain mem' h where
      "update_blocks le (?st\<lparr>ctx_in := mem, ctx_buf := chain (m @ take 64 data)\<rparr>) (drop 64 data) =
         Some (st\<lparr>ctx_in := mem', ctx_buf := h\<rparr>)"
      "md5_blocks (st\<lparr>ctx_in := mem', ctx_buf := h\<rparr>) (m @ data)"
      using less.hyps [of "drop 64 data" "m @ take 64 data"
          "?st\<lparr>ctx_in := mem, ctx_buf := chain (m @ take 64 data)\<rparr>"] mem(1) by auto
    with True mem(2) less.prems(3) show ?thesis by (subst update_blocks.simps) (auto simp: memcpy_copy_at)
  next
    case False
    let ?st = "st\<lparr>ctx_in := copy_at (ctx_in st) 0 data, ctx_buf := ctx_buf st\<rparr>"
    have "whole (m @ data) = m" "rest (m @ data) = data" "length (m @ data) mod 64 = length data"
      using False less.prems(1) whole_extend [OF less.prems(1), of data] whole_short [of data]
      by (auto simp: mod_add_left_eq [symmetric])
    then have "md5_blocks ?st (m @ data)"
      using less.prems False take_copy_at [of 0 "ctx_in st" data] by (simp add: md5_blocks_def)
    then have "\<exists>mem h. st\<lparr>ctx_in := copy_at (ctx_in st) 0 data\<rparr> = st\<lparr>ctx_in := mem, ctx_buf := h\<rparr> \<and>
        md5_blocks (st\<lparr>ctx_in := mem, ctx_buf := h\<rparr>) (m @ data)"
      by (intro exI [of _ "copy_at (ctx_in st) 0 data"] exI [of _ "ctx_buf st"]) simp
    with False less.prems(3) show ?thesis by (subst update_blocks.simps) (simp add: memcpy_copy_at)
  qed
qed

section \<open>update keeps the invariant\<close>

lemma bits_low:
  "(word_of_nat (8 * a) :: u32) + push_bit 3 (word_of_nat b) = word_of_nat (8 * (a + b))"
  by (simp add: push_bit_eq_mult)

lemma carry:
  assumes "d < 2 ^ 32"
  shows "(word_of_nat (8 * (a + d)) :: u32) < word_of_nat (8 * a) \<longleftrightarrow>
           2 ^ 32 \<le> 8 * a mod 2 ^ 32 + 8 * d mod 2 ^ 32"
proof -
  have "8 * (a + d) mod 2 ^ 32 = (8 * a mod 2 ^ 32 + 8 * d mod 2 ^ 32) mod 2 ^ 32"
    by (simp only: mod_add_eq distrib_left)
  then show ?thesis
    by (simp only: word_less_nat_alt unat_u32) (rule wrap_less_iff; simp)
qed

lemma bits_high:
  assumes "d < 2 ^ 32"
  shows "(if (word_of_nat (8 * (a + d)) :: u32) < word_of_nat (8 * a)
          then word_of_nat (8 * a div 2 ^ 32) + 1 else word_of_nat (8 * a div 2 ^ 32))
         + drop_bit 29 (word_of_nat d) = (word_of_nat (8 * (a + d) div 2 ^ 32) :: u32)"
proof -
  have "drop_bit 29 (word_of_nat d :: u32) = word_of_nat (d div 2 ^ 29)"
  proof -
    have "d mod 2 ^ 32 = d" "d div 2 ^ 29 mod 2 ^ 32 = d div 2 ^ 29"
      using assms by (simp_all add: less_mult_imp_div_less)
    then show ?thesis by (simp only: word_unat_eq_iff unat_drop_bit_u32 unat_u32)
  qed
  moreover have "8 * d div 2 ^ 32 = d div 2 ^ 29"
    using div_mult_mult1 [of 8 d "2 ^ 29"] by simp
  moreover have "8 * (a + d) div 2 ^ 32 = 8 * a div 2 ^ 32 + 8 * d div 2 ^ 32 +
      (if 2 ^ 32 \<le> 8 * a mod 2 ^ 32 + 8 * d mod 2 ^ 32 then 1 else 0)"
    using sum_div_carry [of "2 ^ 32" "8 * a" "8 * d"] by (simp only: distrib_left) simp
  ultimately show ?thesis by (simp only: carry [OF assms]) simp
qed

lemma buffered_count:
  "md5_count st m \<Longrightarrow> unat (drop_bit 3 (ctx_bits0 st) AND 0x3f) = length m mod 64"
proof -
  assume c: "md5_count st m"
  have "(0x3f :: u32) = mask 6" by (simp add: mask_eq_exp_minus_1)
  then have "unat (drop_bit 3 (ctx_bits0 st) AND 0x3f) = unat (ctx_bits0 st) div 2 ^ 3 mod 2 ^ 6"
    by (simp only: unat_and_mask_u32 unat_drop_bit_u32)
  also have "unat (ctx_bits0 st) = 8 * length m mod 2 ^ 32"
    using c by (simp only: md5_count_def unat_u32)
  also have "\<dots> = 8 * (length m mod 2 ^ 29)"
    using mult_mod_right [of 8 "length m" "2 ^ 29"] by simp
  finally show ?thesis by (simp add: mod_mod_cancel)
qed

lemma md5_blocks_short:
  assumes "md5_blocks st m" "length m mod 64 + length data < 64"
  shows "md5_blocks (st\<lparr>ctx_in := copy_at (ctx_in st) (length m mod 64) data\<rparr>) (m @ data)"
proof -
  have m: "m @ data = whole m @ (rest m @ data)" by (simp add: whole_rest flip: append_assoc)
  have short: "length (rest m @ data) < 64" using assms(2) by (simp add: length_rest)
  have w: "length (whole m) mod 64 = 0" by (simp add: length_whole)
  have "whole (m @ data) = whole m" "rest (m @ data) = rest m @ data"
    by (simp_all only: m whole_extend [OF w] whole_short [OF short] append_Nil2)
  moreover have "length (m @ data) mod 64 = length m mod 64 + length data"
    using calculation(2) length_rest [of "m @ data"] length_rest [of m] by simp
  ultimately show ?thesis
    using assms take_copy_at [of "length m mod 64" "ctx_in st" data] by (simp add: md5_blocks_def)
qed

lemma md5_update_spec:
  assumes blocks: "md5_blocks st m" and count: "md5_count st m" and len: "length data < 2 ^ 32"
  shows "\<exists>st'. md5_update le st data = Some st' \<and> md5_blocks st' (m @ data) \<and> md5_count st' (m @ data)"
proof -
  let ?k = "length m mod 64"
  let ?low = "ctx_bits0 st + push_bit 3 (word_of_nat (length data))"
  let ?high = "(if ?low < ctx_bits0 st then ctx_bits1 st + 1 else ctx_bits1 st) + drop_bit 29 (word_of_nat (length data))"
  let ?st1 = "st\<lparr>ctx_bits0 := ?low, ctx_bits1 := ?high\<rparr>"
  let ?t1 = "drop_bit 3 (ctx_bits0 st) AND 0x3f :: u32"
  have t1: "unat ?t1 = ?k" by (rule buffered_count [OF count])
  have bits: "ctx_bits0 st = word_of_nat (8 * length m)" "ctx_bits1 st = word_of_nat (8 * length m div 2 ^ 32)"
    using count by (simp_all only: md5_count_def)
  have "?low = word_of_nat (8 * length (m @ data))"
       "?high = word_of_nat (8 * length (m @ data) div 2 ^ 32)"
    by (simp_all only: bits bits_low bits_high [OF len] length_append)
  then have c1: "md5_count (?st1\<lparr>ctx_in := mem, ctx_buf := h\<rparr>) (m @ data)"
    and c2: "md5_count (?st1\<lparr>ctx_in := mem\<rparr>) (m @ data)" for mem h
    by (simp_all only: md5_count_def) simp_all
  have b1: "md5_blocks ?st1 m" "ctx_buf ?st1 = chain (whole m)" "length (ctx_in ?st1) = 64"
    using blocks by (simp_all add: md5_blocks_def)
  have t1_0: "?t1 = 0 \<longleftrightarrow> ?k = 0" using t1 by (metis unat_eq_zero)
  show ?thesis
  proof (cases "?k = 0")
    case True
    then have "whole m = m" using whole_rest [of m] length_rest [of m] by simp
    then obtain mem h where "update_blocks le ?st1 data = Some (?st1\<lparr>ctx_in := mem, ctx_buf := h\<rparr>)"
      "md5_blocks (?st1\<lparr>ctx_in := mem, ctx_buf := h\<rparr>) (m @ data)"
      using update_blocks_spec [of m ?st1 le data] b1 True by auto
    with c1 True t1_0 show ?thesis by (simp add: md5_update_def Let_def)
  next
    case False
    have k: "?k < 64" by simp
    have "?t1 \<le> 64" using t1 k by (simp add: word_le_nat_alt)
    then have t2: "unat (64 - ?t1) = 64 - ?k" using t1 by (simp add: unat_sub)
    have ulen: "unat (word_of_nat (length data) :: u32) = length data"
      using len by (simp only: unat_u32 mod_less)
    then have lt: "(word_of_nat (length data) :: u32) < 64 - ?t1 \<longleftrightarrow> length data < 64 - ?k"
      by (simp only: word_less_nat_alt t2)
    show ?thesis
    proof (cases "length data < 64 - ?k")
      case True
      then have "md5_blocks (?st1\<lparr>ctx_in := copy_at (ctx_in ?st1) ?k data\<rparr>) (m @ data)"
        by (intro md5_blocks_short b1) simp
      moreover have "unat (word_of_nat (length data) :: u32) = length data" using True by (simp add: unat_u32)
      moreover have "memcpy (ctx_in st) ?k data (length data) = Some (copy_at (ctx_in st) ?k data)"
        using True blocks by (simp add: memcpy_copy_at md5_blocks_def)
      ultimately show ?thesis using c2 True lt False t1_0 t1 by (simp add: md5_update_def Let_def)
    next
      case long: False
      let ?d = "take (64 - ?k) data"
      let ?st2 = "?st1\<lparr>ctx_in := copy_at (ctx_in ?st1) ?k ?d\<rparr>"
      have d: "length ?d = 64 - ?k" using long by simp
      have b: "ctx_in ?st2 = rest m @ ?d"
        using blocks d by (simp add: md5_blocks_def copy_at_def)
      have "length (rest m @ ?d) = 64" using d by (simp add: length_rest)
      then obtain mem where mem: "length mem = 64"
        "md5_process le ?st2 = Some (?st2\<lparr>ctx_in := mem, ctx_buf := chain (whole m @ rest m @ ?d)\<rparr>)"
        using md5_process_block [of "whole m" ?st2 "rest m @ ?d" le] b b1(2)
        by (auto simp: length_whole)
      have m': "whole m @ rest m @ ?d = m @ ?d" by (simp add: whole_rest flip: append_assoc)
      have "length (m @ ?d) = 64 * (length m div 64) + 64"
        using arg_cong [OF m', of length] \<open>length (rest m @ ?d) = 64\<close> by (simp add: length_whole)
      then have "length (m @ ?d) mod 64 = 0" by (simp del: length_append)
      then obtain mem' h where
        "update_blocks le (?st2\<lparr>ctx_in := mem, ctx_buf := chain (m @ ?d)\<rparr>) (drop (64 - ?k) data) =
           Some (?st1\<lparr>ctx_in := mem', ctx_buf := h\<rparr>)"
        "md5_blocks (?st1\<lparr>ctx_in := mem', ctx_buf := h\<rparr>) (m @ data)"
        using update_blocks_spec [of "m @ ?d" "?st2\<lparr>ctx_in := mem, ctx_buf := chain (m @ ?d)\<rparr>" le
            "drop (64 - ?k) data"] mem(1) by auto
      moreover have "memcpy (ctx_in st) ?k data (64 - ?k) = Some (copy_at (ctx_in st) ?k ?d)"
        using long blocks by (simp add: memcpy_copy_at md5_blocks_def)
      ultimately show ?thesis using c1 mem(2) m' long lt False t1_0 t1 t2
        by (simp add: md5_update_def Let_def)
    qed
  qed
qed

section \<open>final yields the digest of everything fed\<close>

lemma le_bytes_word: "le_bytes (le_word a b c d) = [a, b, c, d]"
proof -
  have high: "8 \<le> n \<Longrightarrow> \<not> bit x n" for x :: u8 and n
    by (auto dest: bit_imp_le_length)
  have "(ucast (le_word a b c d) :: u8) = a" "(ucast (drop_bit 8 (le_word a b c d)) :: u8) = b"
    "(ucast (drop_bit 16 (le_word a b c d)) :: u8) = c" "(ucast (drop_bit 24 (le_word a b c d)) :: u8) = d"
    by (auto intro!: bit_word_eqI simp: le_word_def bit_simps high)
  then show ?thesis by (simp add: le_bytes_def)
qed

lemma le_words_host_bytes:
  "\<exists>x. le_words (host_bytes le w @ r) = x # le_words r \<and> host_bytes le x = le_bytes w"
proof (cases le)
  case True
  then show ?thesis by (auto simp: host_bytes_def le_words_bytes)
next
  case False
  then have "le_words (host_bytes le w @ r) =
      le_word (ucast (drop_bit 24 w)) (ucast (drop_bit 16 w)) (ucast (drop_bit 8 w)) (ucast w) # le_words r"
    by (simp add: host_bytes_def le_bytes_def le_words_def)
  moreover have "host_bytes le (le_word (ucast (drop_bit 24 w)) (ucast (drop_bit 16 w))
      (ucast (drop_bit 8 w)) (ucast w)) = le_bytes w"
    using False by (simp add: host_bytes_def le_bytes_word) (simp add: le_bytes_def)
  ultimately show ?thesis by blast
qed

lemma host_to_le:
  "concat (map (host_bytes le) (le_words (concat (map (host_bytes le) ws)))) = concat (map le_bytes ws)"
proof (induction ws)
  case Nil
  show ?case by (simp add: le_words_def)
next
  case (Cons w ws)
  obtain x where "le_words (host_bytes le w @ concat (map (host_bytes le) ws)) =
      x # le_words (concat (map (host_bytes le) ws))" "host_bytes le x = le_bytes w"
    using le_words_host_bytes by blast
  with Cons show ?case by simp
qed

lemma length_concat_bytes [simp]:
  "length (concat (map le_bytes ws)) = 4 * length ws"
  "length (concat (map (host_bytes le) ws)) = 4 * length ws"
  by (induction ws) simp_all

lemma length_le_words [simp]: "length (le_words xs) = length xs div 4"
  by (simp add: le_words_def length_words4)

lemma md5_finish_spec:
  assumes M: "length M mod 64 = 0" "ctx_buf st = chain M" and Z: "length (ctx_in st) = 64" "take 56 (ctx_in st) = Z"
  defines "d \<equiv> concat (map le_bytes (chain (M @ Z @ le_bytes (ctx_bits0 st) @ le_bytes (ctx_bits1 st))))"
  shows "md5_finish le st = Some (st\<lparr>hash_bytes := Some d, hash_str := Some (to_base16 d),
           ctx_buf := replicate 4 0, ctx_bits0 := 0, ctx_bits1 := 0, ctx_in := replicate 64 0\<rparr>)"
proof -
  let ?ws = "le_words Z @ [ctx_bits0 st, ctx_bits1 st]"
  let ?L = "le_bytes (ctx_bits0 st) @ le_bytes (ctx_bits1 st)"
  let ?buf = "transform (ctx_buf st) ?ws"
  have lZ: "length Z = 56" using Z by auto
  have "byteReverse le (ctx_in st) 14 = Some (concat (map (host_bytes le) (le_words Z)) @ drop 56 (ctx_in st))"
    using byteReverse_spec [of 13 "ctx_in st" le] Z by simp
  moreover have "copy_at (copy_at (concat (map (host_bytes le) (le_words Z)) @ drop 56 (ctx_in st)) 56
      (host_bytes le (ctx_bits0 st))) 60 (host_bytes le (ctx_bits1 st)) = concat (map (host_bytes le) ?ws)"
    using lZ Z by (simp add: copy_at_def)
  moreover have "host_words le (concat (map (host_bytes le) ?ws)) = ?ws"
    using host_words_bytes [of le ?ws "[]"] by (simp add: host_words_def)
  moreover have "length ?buf = 4" by simp
  then have "byteReverse le (concat (map (host_bytes le) ?buf)) 4 = Some (concat (map le_bytes ?buf))"
    using byteReverse_spec [of 3 "concat (map (host_bytes le) ?buf)" le] by (simp add: host_to_le)
  moreover have "?ws = le_words (Z @ ?L)"
    using words4_append [of Z le_word ?L] lZ le_words_bytes [of "ctx_bits0 st" "le_bytes (ctx_bits1 st)"]
      le_words_bytes [of "ctx_bits1 st" "[]"] by (simp add: le_words_def)
  then have "?buf = chain (M @ Z @ ?L)"
    using M chain_block [of M "Z @ ?L"] lZ by (simp add: compress_def transform_rfc)
  moreover obtain str where "DigestToBase16 (concat (map le_bytes ?buf)) (replicate 33 NUL) = Some str"
    "c_str str = to_base16 (concat (map le_bytes ?buf))"
    using DigestToBase16_spec [of "concat (map le_bytes ?buf)" "replicate 33 NUL"] \<open>length ?buf = 4\<close> by auto
  ultimately show ?thesis using \<open>length ?buf = 4\<close> Z lZ unfolding md5_finish_def d_def
    by (simp add: memcpy_copy_at Let_def sizeof_hash_def sizeof_hash_str_def) (simp add: copy_at_def)
qed

lemma md5_final_spec:
  assumes blocks: "md5_blocks st m" and count: "md5_count st m"
  shows "\<exists>st'. md5_final le st = Some st' \<and> hash_bytes st' = Some (md5_rfc m) \<and>
           hash_str st' = Some (to_base16 (md5_rfc m)) \<and>
           ctx_buf st' = replicate 4 0 \<and> ctx_in st' = replicate 64 0 \<and> ctx_bits0 st' = 0 \<and> ctx_bits1 st' = 0"
proof -
  let ?k = "length m mod 64"
  let ?L = "le_bytes (ctx_bits0 st) @ le_bytes (ctx_bits1 st)"
  have k: "unat (drop_bit 3 (ctx_bits0 st) AND 0x3F) = ?k" "?k < 64"
    using buffered_count [OF count] by simp_all
  have st: "ctx_buf st = chain (whole m)" "length (ctx_in st) = 64" "take ?k (ctx_in st) = rest m"
    using blocks by (simp_all add: md5_blocks_def)
  have w: "length (whole m) mod 64 = 0" by (simp add: length_whole)
  have L: "?L = le_bytes (word_of_nat (8 * length m)) @ le_bytes (word_of_nat (8 * length m div 2 ^ 32))"
    using count by (simp only: md5_count_def)
  have pad: "md5_pad m = whole m @ rest m @ 0x80 # replicate ((119 - ?k) mod 64) 0 @ ?L"
    unfolding md5_pad_def L using whole_rest [of m] by (metis append_assoc)
  have mark: "take (Suc ?k) ((ctx_in st)[?k := 0x80]) = rest m @ [0x80]"
    using st k by (simp add: take_Suc_conv_app_nth)
  have wr80: "wr (ctx_in st) ?k 0x80 = Some ((ctx_in st)[?k := 0x80])" using st k by (simp add: wr_def)
  have fill: "memset ((ctx_in st)[?k := 0x80]) (Suc ?k) 0 n = Some (copy_at ((ctx_in st)[?k := 0x80]) (Suc ?k) (replicate n 0))"
    if "n \<le> 63 - ?k" for n
    using that st(2) k(2) by (intro memset_copy_at) simp
  show ?thesis
  proof (cases "63 - ?k < 8")
    case True
    let ?b = "rest m @ 0x80 # replicate (63 - ?k) 0"
    let ?st1 = "st\<lparr>ctx_in := copy_at ((ctx_in st)[?k := 0x80]) (Suc ?k) (replicate (63 - ?k) 0)\<rparr>"
    have "ctx_in ?st1 = ?b" using mark k st by (simp add: copy_at_def)
    moreover have lb: "length ?b = 64" using k by (simp add: length_rest)
    ultimately obtain mem where mem: "length mem = 64"
      "md5_process le ?st1 = Some (?st1\<lparr>ctx_in := mem, ctx_buf := chain (whole m @ ?b)\<rparr>)"
      using md5_process_block [OF w, of ?st1 ?b le] st(1) by auto
    let ?st2 = "?st1\<lparr>ctx_buf := chain (whole m @ ?b), ctx_in := copy_at mem 0 (replicate 56 0)\<rparr>"
    have "length (whole m @ ?b) mod 64 = 0" using lb w by (simp del: length_append add: length_append [of "whole m"])
    moreover have "length (ctx_in ?st2) = 64" "take 56 (ctx_in ?st2) = replicate 56 0"
      using mem(1) by (simp_all add: copy_at_def)
    moreover have "(119 - ?k) mod 64 = (63 - ?k) + 56" using True k by simp
    then have "md5_pad m = (whole m @ ?b) @ replicate 56 0 @ ?L"
      unfolding pad by (simp only: replicate_add append_assoc append_Cons)
    ultimately show ?thesis
      using md5_finish_spec [of "whole m @ ?b" ?st2 "replicate 56 0" le] mem True k wr80 fill [of "63 - ?k"]
        memset_copy_at [of 0 56 mem "0 :: u8"]
      by (simp add: md5_final_def md5_rfc_def Let_def)
  next
    case False
    let ?Z = "rest m @ 0x80 # replicate (55 - ?k) 0"
    let ?st2 = "st\<lparr>ctx_in := copy_at ((ctx_in st)[?k := 0x80]) (Suc ?k) (replicate (55 - ?k) 0)\<rparr>"
    have "length ?Z = 56" using False by (simp add: length_rest)
    have "Suc ?k + length (replicate (55 - ?k) (0 :: u8)) = 56" using False by simp
    then have "length (ctx_in ?st2) = 64" "take 56 (ctx_in ?st2) = ?Z"
      using mark False st
        take_copy_at [of "Suc ?k" "(ctx_in st)[?k := 0x80]" "replicate (55 - ?k) (0 :: u8)"]
      by simp_all
    moreover have "(119 - ?k) mod 64 = 55 - ?k" using False by (simp add: le_mod_geq)
    then have "md5_pad m = whole m @ ?Z @ ?L" unfolding pad by simp
    ultimately show ?thesis
      using md5_finish_spec [OF w, of ?st2 ?Z le] st(1) False k wr80 fill [of "55 - ?k", OF diff_le_mono]
      by (simp add: md5_final_def md5_rfc_def Let_def)
  qed
qed

section \<open>The class as an incremental hash\<close>

text \<open>
  The operations on an object that may have failed (an access out of bounds), as the contract's
  parameters; a failure could never be undone, so absorption of a message includes that none
  happened.
\<close>

definition md5_feed :: "bool \<Rightarrow> md5_state option \<Rightarrow> u8 list \<Rightarrow> md5_state option" where
  "md5_feed le st data = Option.bind st (\<lambda>st. md5_update le st data)"

definition md5_digest :: "bool \<Rightarrow> md5_state option \<Rightarrow> u8 list" where
  "md5_digest le st = the (Option.bind (Option.bind st (md5_final le)) hash_bytes)"

definition md5_absorbed :: "md5_state option \<Rightarrow> u8 list \<Rightarrow> bool" where
  "md5_absorbed st m \<longleftrightarrow> (\<exists>s. st = Some s \<and> md5_blocks s m \<and> md5_count s m)"

lemma md5_absorbed_init: "length (ctx_in st) = 64 \<Longrightarrow> md5_absorbed (Some (md5_init st)) []"
  by (simp add: md5_absorbed_def md5_blocks_def md5_count_def md5_init_def whole_def rest_def
      chain_def md5_IV_def)

text \<open>A freshly allocated object: the buffer's 64 bytes are whatever memory holds, here zero.\<close>

definition md5_new :: md5_state where
  "md5_new = md5_init \<lparr>ctx_buf = replicate 4 0, ctx_bits0 = 0, ctx_bits1 = 0, ctx_in = replicate 64 0,
                       hash_bytes = None, hash_str = None\<rparr>"

interpretation md5_hash: incremental_hash "Some md5_new" "md5_feed le" "md5_digest le" md5_rfc md5_absorbed
  for le
proof (unfold_locales, goal_cases)
  case 1
  show ?case unfolding md5_new_def by (rule md5_absorbed_init) simp
next
  case (2 c m d)
  then show ?case using md5_update_spec by (fastforce simp: md5_absorbed_def md5_feed_def)
next
  case (3 c m)
  then obtain s where "c = Some s" "md5_blocks s m" "md5_count s m" by (auto simp: md5_absorbed_def)
  with md5_final_spec [of s m le] show ?case by (auto simp: md5_digest_def)
qed

text \<open>
  The constructor from a path. A file that \<open>access\<close> refuses leaves the object untouched, one that
  \<open>fopen\<close> refuses leaves it initialised; in both cases the digest is unset, and \<open>result()\<close> returns
  it all the same.
\<close>

definition md5_of_path :: "bool \<Rightarrow> md5_state \<Rightarrow> file_read \<Rightarrow> md5_state option" where
  "md5_of_path le st path =
     (case path of
        Not_readable \<Rightarrow> Some st
      | Open_failed \<Rightarrow> Some (md5_init st)
      | Readable contents \<Rightarrow>
          Option.bind (read_loop (md5_feed le) (Some (md5_init st)) contents) (md5_final le))"

text \<open>\<open>md5::debug\<close> copies the block being filled and prints its first 16 bytes in hexadecimal.\<close>

definition md5_debug :: "md5_state \<Rightarrow> string option" where
  "md5_debug st =
     Option.bind (memcpy (replicate 64 0) 0 (ctx_in st) 64) (\<lambda>block.
       map_option c_str (DigestToBase16 block (replicate 129 NUL)))"

text \<open>
  C10. Feeding a context any sequence of buffers (each shorter than 4 GB, as \<open>len\<close> is an unsigned
  int) and finishing it succeeds, so that no copy, fill or store leaves the 64-byte block, the 16 bytes of
  the digest or the 33 of its printed form, or reads past the caller's buffer. It yields RFC 1321's digest of
  the concatenation, on a host of either byte order: where the caller cuts the message does not matter.
  The printed form is its lower-case hexadecimal, and the context is wiped.
\<close>

theorem md5_streaming:
  assumes "length (ctx_in st) = 64" and "\<forall>d \<in> set ds. length d < 2 ^ 32"
  shows "\<exists>st' st''. foldl (md5_feed le) (Some (md5_init st)) ds = Some st' \<and>
           md5_final le st' = Some st'' \<and>
           hash_bytes st'' = Some (md5_rfc (concat ds)) \<and>
           hash_str st'' = Some (to_base16 (md5_rfc (concat ds))) \<and>
           ctx_buf st'' = replicate 4 0 \<and> ctx_in st'' = replicate 64 0"
proof -
  have "md5_absorbed (foldl (md5_feed le) (Some (md5_init st)) ds) (concat ds)"
    using md5_hash.absorbed_foldl [OF md5_absorbed_init [OF assms(1)] assms(2)] by simp
  then show ?thesis using md5_final_spec by (fastforce simp: md5_absorbed_def)
qed

theorem md5_streaming_witness:
  "\<exists>st' st''. foldl (md5_feed True) (Some (md5_init md5_new)) [[97], [98, 99]] = Some st' \<and>
     md5_final True st' = Some st'' \<and> hash_bytes st'' = Some (md5_rfc [97, 98, 99])"
proof -
  have "length (ctx_in md5_new) = 64" "\<forall>d \<in> set [[97], [98, 99 :: u8]]. length d < 2 ^ 32"
    by (simp_all add: md5_new_def md5_init_def)
  from md5_streaming [OF this, of True] show ?thesis by auto
qed

text \<open>
  The digest of a readable file of any length, read through a 10240-byte buffer, is RFC 1321's
  digest of its contents, and its hexadecimal form is the printed result; for a file that cannot be
  read or opened the constructor returns an object whose digest is as it was before.
\<close>

lemma md5_of_path_correct:
  assumes "length (ctx_in st) = 64"
  shows "case path of
           Readable contents \<Rightarrow>
             \<exists>st'. md5_of_path le st path = Some st' \<and>
               hash_bytes st' = Some (md5_rfc contents) \<and>
               hash_str st' = Some (to_base16 (md5_rfc contents))
         | _ \<Rightarrow> \<exists>st'. md5_of_path le st path = Some st' \<and>
               hash_bytes st' = hash_bytes st \<and> hash_str st' = hash_str st"
proof (cases path)
  case (Readable contents)
  have "md5_absorbed (read_loop (md5_feed le) (Some (md5_init st)) contents) contents"
    using md5_hash.absorbed_read_loop [OF md5_absorbed_init [OF assms]] by simp
  then show ?thesis
    using md5_final_spec Readable by (fastforce simp: md5_absorbed_def md5_of_path_def)
qed (simp_all add: md5_of_path_def md5_init_def)

end
