(* ===== verification/Sha1_Endian.thy ===== *)
theory Sha1_Endian
  imports Hash_Stream
begin

text \<open>
  The two small classes beside MD5: sha1.cpp, whose arithmetic is APR's (a parameter here, a record
  of the three \<open>apr_sha1_*\<close> calls on an opaque context), and endian.cpp, which reverses the bytes
  of a value into one static buffer that every call shares.
\<close>

section \<open>sha1.cpp\<close>

record 'c apr_sha1 =
  apr_sha1_init :: "'c \<Rightarrow> 'c"
  apr_sha1_update_binary :: "'c \<Rightarrow> u8 list \<Rightarrow> 'c"
  apr_sha1_final :: "'c \<Rightarrow> u8 list"

record 'c sha1_state =
  sha1_context :: 'c
  sha1_digest :: "u8 list"
  sha1_hex :: string

definition sha1_init :: "'c apr_sha1 \<Rightarrow> 'c sha1_state \<Rightarrow> 'c sha1_state" where
  "sha1_init apr st = st\<lparr>sha1_context := apr_sha1_init apr (sha1_context st)\<rparr>"

definition sha1_update :: "'c apr_sha1 \<Rightarrow> 'c sha1_state \<Rightarrow> u8 list \<Rightarrow> 'c sha1_state" where
  "sha1_update apr st data =
     st\<lparr>sha1_context := apr_sha1_update_binary apr (sha1_context st) data\<rparr>"

text \<open>
  APR writes the 20 bytes of the digest; then the loop over them, and the terminating NUL at 40, in the 41
  bytes of the printed form.
\<close>

definition sha1_final :: "'c apr_sha1 \<Rightarrow> 'c sha1_state \<Rightarrow> 'c sha1_state option" where
  "sha1_final apr st =
     (let d = apr_sha1_final apr (sha1_context st)
      in Option.bind (hex_loop d (sha1_hex st) 20 0 0) (\<lambda>(out, j).
           map_option (\<lambda>out. st\<lparr>sha1_digest := d, sha1_hex := out\<rparr>) (wr out 40 NUL)))"

definition sha1_result :: "'c sha1_state \<Rightarrow> string" where
  "sha1_result st = c_str (sha1_hex st)"

definition hashdata :: "'c apr_sha1 \<Rightarrow> 'c sha1_state \<Rightarrow> u8 list \<Rightarrow> (bool \<times> 'c sha1_state) option" where
  "hashdata apr st data = map_option (Pair True) (sha1_final apr (sha1_update apr (sha1_init apr st) data))"

definition hashfile :: "'c apr_sha1 \<Rightarrow> 'c sha1_state \<Rightarrow> file_read \<Rightarrow> (bool \<times> 'c sha1_state) option" where
  "hashfile apr st path =
     (let st = sha1_init apr st
      in case path of
           Not_readable \<Rightarrow> Some (False, st)
         | Open_failed \<Rightarrow> Some (False, st)
         | Readable contents \<Rightarrow> map_option (Pair True) (sha1_final apr (read_loop (sha1_update apr) st contents)))"

text \<open>
  What the code relies on in APR: initialising makes an empty context, updating appends, finishing
  yields the 20-byte digest of what was absorbed.
\<close>

definition apr_sha1_laws ::
    "'c apr_sha1 \<Rightarrow> (u8 list \<Rightarrow> u8 list) \<Rightarrow> ('c \<Rightarrow> u8 list \<Rightarrow> bool) \<Rightarrow> bool" where
  "apr_sha1_laws apr digest absorbed \<longleftrightarrow>
     (\<forall>c. absorbed (apr_sha1_init apr c) []) \<and>
     (\<forall>c m d. absorbed c m \<longrightarrow> length d < 2 ^ 32 \<longrightarrow>
        absorbed (apr_sha1_update_binary apr c d) (m @ d)) \<and>
     (\<forall>c m. absorbed c m \<longrightarrow> apr_sha1_final apr c = digest m) \<and>
     (\<forall>m. length (digest m) = 20)"

text \<open>The class keeps APR's contract: its own operations are an incremental hash again.\<close>

lemma sha1_incremental:
  assumes "apr_sha1_laws apr digest absorbed"
  shows "incremental_hash (sha1_init apr st) (sha1_update apr) (\<lambda>st. apr_sha1_final apr (sha1_context st))
           digest (\<lambda>st m. absorbed (sha1_context st) m)"
  using assms by unfold_locales (simp_all add: apr_sha1_laws_def sha1_init_def sha1_update_def)

lemma sha1_final_result:
  assumes "apr_sha1_final apr (sha1_context st) = d" "length d = 20" "length (sha1_hex st) = 41"
  obtains st' where "sha1_final apr st = Some st'" "sha1_digest st' = d" "sha1_result st' = to_base16 d"
    "length (sha1_hex st') = 41"
proof -
  have l: "length (to_base16 d) = 40" using assms by (simp add: length_to_base16)
  have "hex_loop d (sha1_hex st) 20 0 0 = Some (to_base16 d @ drop 40 (sha1_hex st), 40)"
    using hex_loop_spec [of "sha1_hex st" 0 20 1 d 0] assms by simp
  moreover have "drop 40 (sha1_hex st) = [sha1_hex st ! 40]"
    using assms Cons_nth_drop_Suc [of 40 "sha1_hex st"] by simp
  ultimately have "sha1_final apr st = Some (st\<lparr>sha1_digest := d, sha1_hex := to_base16 d @ [NUL]\<rparr>)"
    using assms(1) l by (simp add: sha1_final_def Let_def wr_def list_update_append)
  then show thesis using that l by (simp add: sha1_result_def c_str_append_NUL to_base16_no_NUL)
qed

lemma sha1_result_init [simp]: "sha1_result (sha1_init apr st) = sha1_result st"
  by (simp add: sha1_result_def sha1_init_def)

lemma length_sha1_hex [simp]:
  "length (sha1_hex (sha1_init apr st)) = length (sha1_hex st)"
  "length (sha1_hex (sha1_update apr st d)) = length (sha1_hex st)"
  "length (sha1_hex (read_loop (sha1_update apr) st contents)) = length (sha1_hex st)"
proof -
  show "length (sha1_hex (sha1_init apr st)) = length (sha1_hex st)" by (simp add: sha1_init_def)
  show upd: "length (sha1_hex (sha1_update apr st d)) = length (sha1_hex st)" for st d
    by (simp add: sha1_update_def)
  have "length (sha1_hex (foldl (sha1_update apr) st ds)) = length (sha1_hex st)" for ds
    by (induction ds arbitrary: st) (simp_all add: upd)
  then show "length (sha1_hex (read_loop (sha1_update apr) st contents)) = length (sha1_hex st)"
    by (simp add: read_loop_foldl)
qed

text \<open>
  C37. Given that APR's three calls compute a 20-byte digest incrementally, \<open>hashdata\<close> of a buffer
  and \<open>hashfile\<close> of a readable file both return true without leaving the 20 bytes of the digest or the 41 of
  its printed form, and put that digest of the bytes in \<open>hash()\<close> and its 40 hexadecimal digits in
  \<open>result()\<close>; for a path that cannot be read or opened \<open>hashfile\<close> returns false and the printed result is the
  old one. With a buffer for the printed form that is a byte shorter the last write is out of bounds.
\<close>

theorem sha1_hashing_correct:
  assumes laws: "apr_sha1_laws apr digest absorbed" and hex: "length (sha1_hex st) = 41"
    and len: "length data < 2 ^ 32"
  shows "(\<exists>st'. hashdata apr st data = Some (True, st') \<and> sha1_digest st' = digest data \<and>
            sha1_result st' = to_base16 (digest data) \<and> length (sha1_hex st') = 41) \<and>
         (case path of
            Readable contents \<Rightarrow> \<exists>st'. hashfile apr st path = Some (True, st') \<and>
              sha1_digest st' = digest contents \<and> sha1_result st' = to_base16 (digest contents) \<and> length (sha1_hex st') = 41
          | _ \<Rightarrow> \<exists>st'. hashfile apr st path = Some (False, st') \<and> sha1_result st' = sha1_result st) \<and>
         hashdata apr (st\<lparr>sha1_hex := butlast (sha1_hex st)\<rparr>) data = None"
proof -
  have d20: "length (digest m) = 20" for m using laws by (simp add: apr_sha1_laws_def)
  have data: "apr_sha1_final apr (sha1_context (sha1_update apr (sha1_init apr s) data)) = digest data" for s
    using incremental_hash.chunking_irrelevant [OF sha1_incremental [OF laws, of s], of "[data]"] len by simp
  have whole_file: "apr_sha1_final apr (sha1_context (read_loop (sha1_update apr) (sha1_init apr st) contents)) =
      digest contents" for contents
    by (rule incremental_hash.read_loop_digest [OF sha1_incremental [OF laws]])
  have "\<exists>st'. hashdata apr st data = Some (True, st') \<and> sha1_digest st' = digest data \<and>
      sha1_result st' = to_base16 (digest data) \<and> length (sha1_hex st') = 41"
    by (rule sha1_final_result [OF data d20, of st]) (simp_all add: hashdata_def hex)
  moreover have "\<exists>st'. hashfile apr st (Readable contents) = Some (True, st') \<and> sha1_digest st' = digest contents \<and>
      sha1_result st' = to_base16 (digest contents) \<and> length (sha1_hex st') = 41" for contents
    by (rule sha1_final_result [OF whole_file d20, of contents]) (simp_all add: hashfile_def hex)
  moreover have "hashdata apr (st\<lparr>sha1_hex := butlast (sha1_hex st)\<rparr>) data = None"
    using hex_loop_spec [of "butlast (sha1_hex st)" 0 20 0 "digest data" 0] hex d20 [of data] data
    by (simp add: hashdata_def sha1_final_def Let_def wr_def length_to_base16 sha1_init_def sha1_update_def)
  ultimately show ?thesis by (simp add: hashfile_def Let_def split: file_read.split)
qed

definition sha1_demo :: "u8 list apr_sha1" where
  "sha1_demo = \<lparr>apr_sha1_init = \<lambda>_. [], apr_sha1_update_binary = (@), apr_sha1_final = \<lambda>c. take 20 (c @ replicate 20 0)\<rparr>"

theorem sha1_hashing_correct_witness:
  "\<exists>st'. hashfile sha1_demo \<lparr>sha1_context = [9], sha1_digest = [], sha1_hex = replicate 41 NUL\<rparr>
     (Readable [1, 2]) = Some (True, st') \<and> sha1_result st' = to_base16 ([1, 2] @ replicate 18 0)"
proof -
  have "apr_sha1_laws sha1_demo (\<lambda>m. take 20 (m @ replicate 20 0)) (=)"
    by (auto simp: apr_sha1_laws_def sha1_demo_def)
  from sha1_hashing_correct [OF this, of "\<lparr>sha1_context = [9], sha1_digest = [], sha1_hex = replicate 41 NUL\<rparr>" "[]"
      "Readable [1, 2]"]
  show ?thesis by auto
qed

section \<open>endian.cpp\<close>

text \<open>
  The bytes to reverse are in the caller's memory, or in the static buffer itself, which every call
  writes and returns: then the reads see the bytes already written. A size other than 2, 4, 8 and 16
  falls through the switch. A read past the caller's memory is \<^const>\<open>None\<close>.
\<close>

datatype endian_addr = Mem "u8 list" | Static_buf

fun read_addr :: "u8 list \<Rightarrow> endian_addr \<Rightarrow> nat \<Rightarrow> u8 option" where
  "read_addr buf (Mem m) i = rd m i"
| "read_addr buf Static_buf i = rd buf i"

fun swap_assignments :: "endian_addr \<Rightarrow> u8 list \<Rightarrow> nat \<Rightarrow> nat list \<Rightarrow> u8 list option" where
  "swap_assignments addr buf n [] = Some buf"
| "swap_assignments addr buf n (i # is) =
     (case read_addr buf addr (n - 1 - i) of
        None \<Rightarrow> None
      | Some c \<Rightarrow> (case wr buf i c of None \<Rightarrow> None | Some buf' \<Rightarrow> swap_assignments addr buf' n is))"

definition swap_endian :: "u8 list \<Rightarrow> endian_addr \<Rightarrow> int \<Rightarrow> u8 list option" where
  "swap_endian buf addr sz =
     (if sz = 2 then swap_assignments addr buf 2 [0..<2]
      else if sz = 4 then swap_assignments addr buf 4 [0..<4]
      else if sz = 8 then swap_assignments addr buf 8 [0..<8]
      else if sz = 16 then swap_assignments addr buf 16 [0..<16]
      else Some buf)"

lemma swap_mem_gen:
  "n \<le> length m \<Longrightarrow> n \<le> length buf \<Longrightarrow> k \<le> n \<Longrightarrow>
   swap_assignments (Mem m) buf n [k..<n] = Some (take k buf @ drop k (rev (take n m)) @ drop n buf)"
proof (induction "n - k" arbitrary: k buf)
  case (Suc d)
  let ?c = "m ! (n - 1 - k)"
  have k: "k < n" using Suc.hyps by simp
  then have "rd m (n - 1 - k) = Some ?c" "wr buf k ?c = Some (buf[k := ?c])"
    using Suc.prems by (simp_all add: rd_def wr_def)
  moreover have "drop k (rev (take n m)) = ?c # drop (Suc k) (rev (take n m))"
    using k Suc.prems Cons_nth_drop_Suc [of k "rev (take n m)"] by (simp add: rev_nth)
  moreover have "take (Suc k) (buf[k := ?c]) = take k buf @ [?c]"
    using k Suc.prems by (simp add: take_Suc_conv_app_nth)
  ultimately show ?case using k Suc by (simp add: upt_conv_Cons)
qed simp

lemma swap_mem:
  "n \<le> length m \<Longrightarrow> n \<le> length buf \<Longrightarrow>
   swap_assignments (Mem m) buf n [0..<n] = Some (rev (take n m) @ drop n buf)"
  using swap_mem_gen [of n m buf 0] by simp

text \<open>
  In place the second half reads back what the first half wrote. The sizes are few, so the assignments
  are run on sixteen named bytes.
\<close>

lemma sixteen_bytes:
  assumes "length buf = 16"
  obtains a b c d e f g h i j k l m n p q where "buf = [a, b, c, d, e, f, g, h, i, j, k, l, m, n, p, q]"
  using assms by (auto simp: length_Suc_conv numeral_eq_Suc)

lemma swap_static:
  assumes "length buf = 16" "n \<in> {2, 4, 8, 16}"
  shows "swap_assignments Static_buf buf n [0..<n] =
     Some (rev (drop (n div 2) (take n buf)) @ drop (n div 2) (take n buf) @ drop n buf)"
proof -
  obtain a b c d e f g h i j k l m n' p q where "buf = [a, b, c, d, e, f, g, h, i, j, k, l, m, n', p, q]"
    using assms(1) by (rule sixteen_bytes)
  with assms(2) show ?thesis
    by (auto simp: upt_rec [of _ 2] upt_rec [of _ 4] upt_rec [of _ 8] upt_rec [of _ 16] rd_def wr_def)
qed

definition swap_sizes :: "nat set" where
  "swap_sizes = {2, 4, 8, 16}"

lemma swap_endian_assignments:
  "n \<in> swap_sizes \<Longrightarrow> swap_endian buf addr (int n) = swap_assignments addr buf n [0..<n]"
  by (auto simp: swap_endian_def swap_sizes_def)

text \<open>
  C29. For the four sizes \<open>swap_endian\<close> returns the value's bytes reversed at the start of the static
  buffer, whatever the buffer held; swapping a copy of what it returned gives the value back; but
  swapping through the returned pointer itself, which aliases the buffer, does not: it leaves the
  value's first half followed by its mirror image. Other sizes leave the buffer as it was.
\<close>

theorem swap_endian_reverses:
  assumes buf: "length buf = 16" "length buf' = 16" and n: "n \<in> swap_sizes" and m: "length m = n"
    and k: "k \<notin> int ` swap_sizes"
  shows "swap_endian buf (Mem m) (int n) = Some (rev m @ drop n buf) \<and>
         swap_endian buf' (Mem (rev m @ drop n buf)) (int n) = Some (m @ drop n buf') \<and>
         swap_endian (rev m @ drop n buf) Static_buf (int n) =
           Some (take (n div 2) m @ rev (take (n div 2) m) @ drop n buf) \<and>
         swap_endian buf (Mem m) k = Some buf"
proof (intro conjI)
  have n16: "n \<le> 16" "even n" using n by (auto simp: swap_sizes_def)
  show "swap_endian buf (Mem m) (int n) = Some (rev m @ drop n buf)"
    "swap_endian buf' (Mem (rev m @ drop n buf)) (int n) = Some (m @ drop n buf')"
    using buf m n16 by (simp_all add: swap_endian_assignments [OF n] swap_mem)
  have half: "rev (drop (n div 2) (rev m)) = take (n div 2) m"
    using m n by (auto simp: rev_drop swap_sizes_def)
  have "swap_endian (rev m @ drop n buf) Static_buf (int n) =
      Some (rev (drop (n div 2) (rev m)) @ drop (n div 2) (rev m) @ drop n buf)"
    using swap_static [of "rev m @ drop n buf" n] buf m n n16
    by (simp add: swap_endian_assignments [OF n]) (simp add: swap_sizes_def)
  then show "swap_endian (rev m @ drop n buf) Static_buf (int n) =
      Some (take (n div 2) m @ rev (take (n div 2) m) @ drop n buf)"
    using half by (metis rev_swap)
  show "swap_endian buf (Mem m) k = Some buf"
    using k by (auto simp: swap_endian_def swap_sizes_def)
qed

theorem swap_endian_reverses_witness:
  "swap_endian (replicate 16 0) (Mem [1, 2, 3, 4]) 4 = Some ([4, 3, 2, 1] @ replicate 12 0) \<and>
   swap_endian ([4, 3, 2, 1] @ replicate 12 0) Static_buf 4 = Some ([1, 2, 2, 1] @ replicate 12 0)"
  using swap_endian_reverses [of "replicate 16 0" "replicate 16 0" 4 "[1, 2, 3, 4]" 3]
  by (simp add: swap_sizes_def)

end
