(* ===== verification/Rhtml.thy ===== *)
theory Rhtml
  imports Url_Codec
begin

text \<open>
  The RHTML template compiler: rhtml.cpp and rhtml.h (the parser object the scanner drives),
  rhtml.lex (the scanner: its start conditions, its rules in the order of the file, with flex's
  choice of the longest match and then of the first rule, and \<open>compile_file\<close> and \<open>compile_text\<close>)
  and ruby_rhtml.cpp (the two module functions Ruby sees). A template compiles to a Ruby program;
  the specification reads that program back as a list of statements.
\<close>

abbreviation LF :: char where "LF \<equiv> CHR 0x0A"
abbreviation CR :: char where "CR \<equiv> CHR 0x0D"
abbreviation QUOTE :: char where "QUOTE \<equiv> CHR 0x22"
abbreviation BSL :: char where "BSL \<equiv> CHR 0x5C"

abbreviation print_open :: string where "print_open \<equiv> ''print '' @ [QUOTE]"

section \<open>The parser object\<close>

datatype state_t = CODE_STATE | VAR_STATE | COMMENT_STATE | TEXT_STATE

record 'v rhtml_parser =
  p_text :: string
  p_line :: string
  p_binding :: 'v
  p_state :: state_t
  p_block_start_line :: int
  p_current_line :: int
  p_file_name :: c_ptr

definition RhtmlParser :: "'v \<Rightarrow> 'v rhtml_parser" where
  "RhtmlParser Qnil =
     \<lparr>p_text = [], p_line = [], p_binding = Qnil, p_state = TEXT_STATE,
      p_block_start_line = 1, p_current_line = 1, p_file_name = None\<rparr>"

definition append_line :: "string \<Rightarrow> 'v rhtml_parser \<Rightarrow> 'v rhtml_parser" where
  "append_line t p = p\<lparr>p_line := p_line p @ t\<rparr>"

text \<open>
  \<open>RhtmlParser::read\<close>: a chunk of text is escaped and goes into an open print literal; anything
  else is copied. Its three \<open>replace\<close> calls return, so it does.
\<close>

definition escape_text :: "string \<Rightarrow> string option" where
  "escape_text t =
     (case replace t [BSL] [BSL, BSL] of
        None \<Rightarrow> None
      | Some (tmp, _) \<Rightarrow>
          (case replace tmp [QUOTE] [BSL, QUOTE] of
             None \<Rightarrow> None
           | Some (tmp, _) \<Rightarrow> map_option fst (replace tmp ''#'' [BSL, CHR ''#''])))"

definition read :: "string \<Rightarrow> 'v rhtml_parser \<Rightarrow> 'v rhtml_parser option" where
  "read t p =
     (if p_state p = TEXT_STATE then
        let p = (if length (p_line p) = 0 then append_line print_open p else p)
        in map_option (\<lambda>tmp. append_line tmp p) (escape_text t)
      else Some (append_line t p))"

fun content_name :: "state_t \<Rightarrow> string" where
  "content_name CODE_STATE = ''code''"
| "content_name COMMENT_STATE = ''comment''"
| "content_name TEXT_STATE = ''text''"
| "content_name VAR_STATE = ''var''"

definition change :: "state_t \<Rightarrow> 'v rhtml_parser \<Rightarrow> 'v rhtml_parser" where
  "change s p =
     (let line =
        (case p_state p of
           VAR_STATE \<Rightarrow> p_line p @ (if length (p_line p) > 0 then ''; '' else []) @ print_open
         | CODE_STATE \<Rightarrow> p_line p @ (if length (p_line p) > 0 then ''; '' else []) @ print_open
         | COMMENT_STATE \<Rightarrow> p_line p
         | TEXT_STATE \<Rightarrow> p_line p @ (if length (p_line p) > 0 then [QUOTE] @ ''; '' else []))
      in p\<lparr>p_line := line, p_state := s, p_block_start_line := p_current_line p\<rparr>)"

definition end_line :: "'v rhtml_parser \<Rightarrow> 'v rhtml_parser" where
  "end_line p =
     (let line =
        (case p_state p of
           CODE_STATE \<Rightarrow> p_line p @ [LF]
         | COMMENT_STATE \<Rightarrow> p_line p
         | TEXT_STATE \<Rightarrow> p_line p @ (if length (p_line p) = 0 then print_open else []) @ [BSL, CHR ''n'', QUOTE, LF]
         | VAR_STATE \<Rightarrow> p_line p)
      in p\<lparr>p_current_line := p_current_line p + 1, p_text := p_text p @ line, p_line := []\<rparr>)"

definition init :: "'v rhtml_parser \<Rightarrow> 'v rhtml_parser" where
  "init p = p\<lparr>p_line := [], p_text := []\<rparr>"

definition finalize :: "'v rhtml_parser \<Rightarrow> 'v rhtml_parser" where
  "finalize p = change TEXT_STATE p"

section \<open>The scanner\<close>

datatype start_cond = INITIAL | TEXT | CODE | INDENT | COMMENT

text \<open>The patterns of the rules: a quoted string, \<open>.\<close> and \<open>\r\n|\n\<close>.\<close>

datatype pattern = Lit string | Dot | Newline

datatype lex_action =
  Enter_text | Skip | Open_code | Open_var | Close_block | Open_comment | Close_comment |
  Read | End_line | Leave_comment

fun match_len :: "pattern \<Rightarrow> string \<Rightarrow> nat option" where
  "match_len (Lit w) s = (if take (length w) s = w then Some (length w) else None)"
| "match_len Dot s = (case s of [] \<Rightarrow> None | c # _ \<Rightarrow> if c = LF then None else Some 1)"
| "match_len Newline s =
     (case s of
        [] \<Rightarrow> None
      | c # s' \<Rightarrow>
          if c = LF then Some 1
          else if c = CR then (case s' of [] \<Rightarrow> None | d # _ \<Rightarrow> if d = LF then Some 2 else None)
          else None)"

text \<open>The rules of each start condition, in the order of the file.\<close>

fun rules :: "start_cond \<Rightarrow> (pattern \<times> lex_action) list" where
  "rules INITIAL = [(Newline, Enter_text), (Dot, Enter_text)]"
| "rules TEXT =
     [(Lit [BSL, CHR ''n''], Skip), (Lit [BSL, CHR ''r''], Skip), (Lit [BSL, CHR ''t''], Skip),
      (Lit ''<%'', Open_code), (Lit ''{%'', Open_code), (Lit ''<%='', Open_var), (Lit ''{%='', Open_var),
      (Lit ''<%--'', Open_comment), (Dot, Read), (Newline, End_line)]"
| "rules CODE = [(Lit ''%>'', Close_block), (Lit ''%}'', Close_block), (Dot, Read), (Newline, End_line)]"
| "rules INDENT = []"
| "rules COMMENT =
     [(Lit ''%>'', Close_comment), (Dot, Read), (Newline, End_line), (Lit ''--%>'', Leave_comment)]"

fun longest :: "(pattern \<times> lex_action) list \<Rightarrow> string \<Rightarrow> (nat \<times> lex_action) option" where
  "longest [] s = None"
| "longest ((w, a) # rs) s =
     (case match_len w s of
        None \<Rightarrow> longest rs s
      | Some n \<Rightarrow>
          (case longest rs s of
             None \<Rightarrow> Some (n, a)
           | Some (m, b) \<Rightarrow> if m \<le> n then Some (n, a) else Some (m, b)))"

text \<open>
  A rule's action on the scanner's start condition and the parser. \<open>read\<close> takes yytext as a C string.
\<close>

fun run_action ::
    "lex_action \<Rightarrow> string \<Rightarrow> start_cond \<Rightarrow> 'v rhtml_parser \<Rightarrow> (start_cond \<times> 'v rhtml_parser) option" where
  "run_action Enter_text yytext c p = Some (TEXT, p)"
| "run_action Skip yytext c p = Some (c, p)"
| "run_action Open_code yytext c p = Some (CODE, change CODE_STATE p)"
| "run_action Open_var yytext c p = Some (CODE, append_line ''print(('' (change VAR_STATE p))"
| "run_action Close_block yytext c p =
     Some (TEXT, change TEXT_STATE (if p_state p = VAR_STATE then append_line ''))'' p else p))"
| "run_action Open_comment yytext c p = Some (COMMENT, change COMMENT_STATE p)"
| "run_action Close_comment yytext c p = Some (TEXT, change TEXT_STATE p)"
| "run_action Read yytext c p = map_option (\<lambda>p. (c, p)) (read (c_str yytext) p)"
| "run_action End_line yytext c p = Some (c, end_line p)"
| "run_action Leave_comment yytext c p = Some (TEXT, p)"

lemma match_len_bounds: "match_len w s = Some n \<Longrightarrow> n \<le> length s"
  by (cases w) (auto split: if_splits list.splits dest: arg_cong [where f = length])

lemma longest_Some:
  "longest rs s = Some (n, a) \<Longrightarrow> \<exists>w. (w, a) \<in> set rs \<and> match_len w s = Some n"
proof (induction rs)
  case (Cons r rs)
  then show ?case by (cases r) (auto split: option.splits if_splits prod.splits)
qed simp

lemma rules_consume:
  assumes "longest (rules c) s = Some (n, a)"
  shows "0 < n \<and> n \<le> length s" "a = Enter_text \<Longrightarrow> c = INITIAL"
proof -
  obtain w where w: "(w, a) \<in> set (rules c)" "match_len w s = Some n"
    using longest_Some [OF assms] by blast
  then show "0 < n \<and> n \<le> length s" using match_len_bounds [OF w(2)]
    by (cases c) (auto split: if_splits list.splits)
  show "a = Enter_text \<Longrightarrow> c = INITIAL" using w by (cases c) auto
qed

text \<open>
  \<open>lexscan\<close>: match, act, go on behind the match (\<open>yyless(0)\<close> puts the match back). Input that no
  rule matches, which is only possible in \<open>INDENT\<close>, is echoed by flex's default rule.
\<close>

function lexscan :: "start_cond \<Rightarrow> string \<Rightarrow> 'v rhtml_parser \<Rightarrow> (start_cond \<times> 'v rhtml_parser) option" where
  "lexscan c s p =
     (if s = [] then Some (c, p)
      else case longest (rules c) s of
             None \<Rightarrow> lexscan c (tl s) p
           | Some (n, a) \<Rightarrow>
               (case run_action a (take n s) c p of
                  None \<Rightarrow> None
                | Some (c', p') \<Rightarrow> lexscan c' (if a = Enter_text then s else drop n s) p'))"
  by pat_completeness auto
termination
proof (relation "measure (\<lambda>(c, s, _). 2 * length s + (if c = INITIAL then 1 else 0))", goal_cases)
  case (3 c s p r n a r' c' p')
  note R = rules_consume [OF \<open>longest (rules c) s = Some r\<close> [unfolded \<open>(n, a) = r\<close> [symmetric]]]
  show ?case
  proof (cases "a = Enter_text")
    case True
    with R(2) 3 show ?thesis by auto
  next
    case False
    then have "2 * length (drop n s) + 1 < 2 * length s" using R(1) unfolding length_drop by linarith
    with False show ?thesis by simp
  qed
qed auto

declare lexscan.simps [simp del]

definition compile_text :: "string \<Rightarrow> 'v rhtml_parser \<Rightarrow> 'v rhtml_parser option" where
  "compile_text str p = map_option (\<lambda>(_, p). finalize p) (lexscan INITIAL (c_str str) (init p))"

text \<open>
  The file system is a partial map from readable names to contents; the parser reads standard input
  for a NULL name and then closes it.
\<close>

definition compile_file ::
    "(string \<Rightarrow> string option) \<Rightarrow> string \<Rightarrow> c_ptr \<Rightarrow> 'v rhtml_parser \<Rightarrow> (bool \<times> 'v rhtml_parser) option" where
  "compile_file fs stdin filename p =
     (case filename of
        None \<Rightarrow> map_option (\<lambda>(_, p). (True, finalize p)) (lexscan INITIAL stdin (init p))
      | Some path \<Rightarrow>
          (case fs path of
             None \<Rightarrow> Some (False, p)
           | Some contents \<Rightarrow>
               map_option (\<lambda>(_, p). (True, finalize p))
                 (lexscan INITIAL contents (init (p\<lparr>p_file_name := filename\<rparr>)))))"

end
