(* ===== verification/Rhtml_Document.thy ===== *)
theory Rhtml_Document
  imports Rhtml_Spec
begin

text \<open>
  The functional correctness of the RHTML compiler: the program it generates for a document, read
  back as Ruby statements, is the document's text and blocks in their order. The reader knows Ruby's
  line ends and semicolons, its comments, its quoted strings, and \<open>print\<close> of a double-quoted literal with the
  escapes the compiler writes; what could begin another kind of literal it refuses.
\<close>

section \<open>Reading a Ruby program\<close>

datatype ruby_stmt = Print string | Stmt string

text \<open>
  The inside of a double-quoted literal up to its closing quote: its value and the rest. A bare
  \<open>#\<close> could start an interpolation and is refused, as is an escape the compiler never writes.
\<close>

fun read_literal :: "string \<Rightarrow> (string \<times> string) option" where
  "read_literal [] = None"
| "read_literal (c # s) =
     (if c = QUOTE then Some ([], s)
      else if c = BSL then
        (case s of
           [] \<Rightarrow> None
         | d # s' \<Rightarrow>
             if d = CHR ''n'' then map_option (apfst (Cons LF)) (read_literal s')
             else if d = BSL \<or> d = QUOTE \<or> d = CHR ''#'' then map_option (apfst (Cons d)) (read_literal s')
             else None)
      else if c = CHR ''#'' then None
      else map_option (apfst (Cons c)) (read_literal s))"

text \<open>A statement ends at a line feed or at a semicolon, with a blank behind it.\<close>

definition skip_blank :: "string \<Rightarrow> string" where
  "skip_blank s = (if s \<noteq> [] \<and> hd s = CHR '' '' then tl s else s)"

fun stmt_end :: "string \<Rightarrow> string option" where
  "stmt_end [] = None"
| "stmt_end (c # s) = (if c = LF then Some s else if c = CHR '';'' then Some (skip_blank s) else None)"

text \<open>
  Any other statement is taken as it stands, up to its end or a comment, which goes to the end of the line. In
  a quoted string ends and comments have no meaning. Refused are escapes and interpolation in strings, here
  documents, and the characters that may begin a regular expression, a percent or character literal, a command
  or a special variable.
\<close>

definition APOS :: char where [simp]: "APOS = CHR 0x27"

definition plain_char :: "char \<Rightarrow> bool" where
  "plain_char c \<longleftrightarrow> isalnum c \<or> c = CHR 0x09 \<or> c \<in> set '' _.,()[]{}+-*=<>!&|:@~^''"

fun raw_stmt :: "char option \<Rightarrow> string \<Rightarrow> (string \<times> string) option" where
  "raw_stmt q [] = (if q = None then Some ([], []) else None)"
| "raw_stmt (Some d) (c # s) =
     (if c = d then map_option (apfst (Cons c)) (raw_stmt None s)
      else if c = BSL \<or> c = LF \<or> (c = CHR ''#'' \<and> d = QUOTE) then None
      else map_option (apfst (Cons c)) (raw_stmt (Some d) s))"
| "raw_stmt None (c # s) =
     (case stmt_end (c # s) of
        Some r \<Rightarrow> Some ([], r)
      | None \<Rightarrow>
          if c = CHR ''#'' then Some ([], drop 1 (dropWhile (\<lambda>c. c \<noteq> LF) s))
          else if c = QUOTE \<or> c = APOS then map_option (apfst (Cons c)) (raw_stmt (Some c) s)
          else if plain_char c \<and> \<not> (c = CHR ''<'' \<and> s \<noteq> [] \<and> hd s = CHR ''<'') then map_option (apfst (Cons c)) (raw_stmt None s)
          else None)"

lemma read_literal_length: "read_literal s = Some (v, r) \<Longrightarrow> length r < length s"
  by (induction s arbitrary: v r rule: read_literal.induct)
    (auto split: if_splits list.splits, (fastforce dest: less_trans)+)

lemma stmt_end_length: "stmt_end s = Some r \<Longrightarrow> length r < length s"
  by (cases s) (auto simp: skip_blank_def split: if_splits)

lemma raw_stmt_length: "raw_stmt q s = Some (c, r) \<Longrightarrow> length r \<le> length s - (if q = None then 1 else 0)"
proof (induction q s arbitrary: c r rule: raw_stmt.induct)
  case (3 c s)
  have "length (drop 1 (dropWhile (\<lambda>c. c \<noteq> LF) s)) \<le> length s" by (simp add: le_diff_conv le_SucI length_dropWhile_le)
  with 3 show ?case
    by (fastforce split: option.splits if_splits dest: stmt_end_length simp del: stmt_end.simps)
qed (fastforce split: if_splits)+

function ruby_stmts :: "string \<Rightarrow> ruby_stmt list option" where
  "ruby_stmts s =
     (if s = [] then Some []
      else if take 7 s = print_open then
        (case read_literal (drop 7 s) of
           None \<Rightarrow> None
         | Some (v, r) \<Rightarrow>
             (case stmt_end r of
                None \<Rightarrow> None
              | Some r' \<Rightarrow> map_option (Cons (Print v)) (ruby_stmts r')))
      else (case raw_stmt None s of None \<Rightarrow> None | Some (c, r) \<Rightarrow> map_option (Cons (Stmt c)) (ruby_stmts r)))"
  by pat_completeness auto
termination
proof (relation "measure length", goal_cases)
  case (2 s x v r r')
  then have "length r < length (drop 7 s)" "length r' < length r"
    using read_literal_length [of "drop 7 s" v r] stmt_end_length [of r r'] by auto
  then show ?case by simp
next
  case (3 s x c r)
  then show ?case using raw_stmt_length [of None s c r] by (cases s) auto
qed auto

declare ruby_stmts.simps [simp del]

section \<open>Documents\<close>

text \<open>
  A line is a piece of text followed by blocks, each with the text behind it; a block is delimited
  by angle brackets or by braces.
\<close>

datatype block = Code_block bool string | Var_block bool string

type_synonym doc_line = "string \<times> (block \<times> string) list"

definition open_delim :: "bool \<Rightarrow> string" where
  "open_delim brace = (if brace then ''{%'' else ''<%'')"

definition close_delim :: "bool \<Rightarrow> string" where
  "close_delim brace = (if brace then ''%}'' else ''%>'')"

fun render_block :: "block \<Rightarrow> string" where
  "render_block (Code_block k c) = open_delim k @ c @ close_delim k"
| "render_block (Var_block k c) = open_delim k @ ''='' @ c @ close_delim k"

fun render_blocks :: "(block \<times> string) list \<Rightarrow> string" where
  "render_blocks [] = []"
| "render_blocks ((b, t) # bs) = render_block b @ t @ render_blocks bs"

definition line_end :: "bool \<Rightarrow> string" where
  "line_end crlf = (if crlf then [CR, LF] else [LF])"

definition render_doc :: "(doc_line \<times> bool) list \<Rightarrow> string" where
  "render_doc doc = concat (map (\<lambda>((t, bs), crlf). t @ render_blocks bs @ line_end crlf) doc)"

fun block_stmt :: "block \<Rightarrow> ruby_stmt" where
  "block_stmt (Code_block k c) = Stmt c"
| "block_stmt (Var_block k c) = Stmt (''print(('' @ c @ ''))'')"

fun blocks_stmts :: "(block \<times> string) list \<Rightarrow> ruby_stmt list" where
  "blocks_stmts [] = []"
| "blocks_stmts ((b, t) # bs) =
     block_stmt b # Print (t @ (if bs = [] then [LF] else [])) # blocks_stmts bs"

definition line_stmts :: "doc_line \<Rightarrow> ruby_stmt list" where
  "line_stmts l =
     (if snd l = [] then [Print (fst l @ [LF])]
      else (if fst l = [] then [] else [Print (fst l)]) @ blocks_stmts (snd l))"

text \<open>
  Text that is only text: no line ends, no NUL, no opening delimiter, none of the two-character
  sequences the scanner drops. Code that the scanner passes on: neither a closing delimiter nor a line end
  inside. Code that is one statement: its strings are closed, and outside of them there are neither comments
  nor semicolons nor anything the reader refuses.
\<close>

definition text_ok :: "string \<Rightarrow> bool" where
  "text_ok t \<longleftrightarrow> LF \<notin> set t \<and> CR \<notin> set t \<and> NUL \<notin> set t \<and>
     apart (CHR ''<'') (CHR ''%'') t \<and> apart (CHR ''{'') (CHR ''%'') t \<and>
     apart BSL (CHR ''n'') t \<and> apart BSL (CHR ''r'') t \<and> apart BSL (CHR ''t'') t"

definition scannable :: "string \<Rightarrow> bool" where
  "scannable c \<longleftrightarrow> LF \<notin> set c \<and> NUL \<notin> set c \<and> apart (CHR ''%'') (CHR ''>'') c \<and> apart (CHR ''%'') (CHR ''}'') c"

fun fragment :: "char option \<Rightarrow> string \<Rightarrow> bool" where
  "fragment q [] \<longleftrightarrow> q = None"
| "fragment (Some d) (c # s) \<longleftrightarrow>
     (if c = d then fragment None s else c \<noteq> BSL \<and> c \<noteq> LF \<and> \<not> (c = CHR ''#'' \<and> d = QUOTE) \<and> fragment (Some d) s)"
| "fragment None (c # s) \<longleftrightarrow>
     (if c = QUOTE \<or> c = APOS then fragment (Some c) s
      else plain_char c \<and> \<not> (c = CHR ''<'' \<and> s \<noteq> [] \<and> hd s = CHR ''<'') \<and> fragment None s)"

definition code_ok :: "string \<Rightarrow> bool" where
  "code_ok c \<longleftrightarrow> scannable c \<and> fragment None c"

fun block_scans :: "block \<Rightarrow> bool" where
  "block_scans (Code_block k c) \<longleftrightarrow> scannable c \<and> c \<noteq> [] \<and> hd c \<noteq> CHR ''='' \<and> take 2 c \<noteq> ''--''"
| "block_scans (Var_block k c) \<longleftrightarrow> scannable c"

fun block_ok :: "block \<Rightarrow> bool" where
  "block_ok (Code_block k c) \<longleftrightarrow> code_ok c \<and> c \<noteq> [] \<and> hd c \<noteq> CHR ''='' \<and> take 2 c \<noteq> ''--'' \<and> take 7 c \<noteq> print_open"
| "block_ok (Var_block k c) \<longleftrightarrow> code_ok c"

lemma block_ok_scans: "block_ok b \<Longrightarrow> block_scans b"
  by (cases b) (auto simp: code_ok_def)

definition line_ok :: "doc_line \<Rightarrow> bool" where
  "line_ok l \<longleftrightarrow> text_ok (fst l) \<and> (\<forall>(b, t) \<in> set (snd l). block_ok b \<and> text_ok t)"

section \<open>Scanning text and code\<close>

lemma lexscan_INITIAL: "s \<noteq> [] \<Longrightarrow> lexscan INITIAL s p = lexscan TEXT s p"
proof -
  assume s: "s \<noteq> []"
  obtain n a where m: "longest (rules INITIAL) s = Some (n, a)"
    using rules_match [OF _ s, of INITIAL] by blast
  then have "a = Enter_text" using longest_Some [OF m] by auto
  with m s show ?thesis by (simp add: lexscan.simps [of INITIAL s])
qed

lemma longest_text_char:
  assumes "c \<noteq> LF" "c \<noteq> CR"
    and "s \<noteq> [] \<Longrightarrow> c = CHR ''<'' \<or> c = CHR ''{'' \<Longrightarrow> hd s \<noteq> CHR ''%''"
    and "s \<noteq> [] \<Longrightarrow> c = BSL \<Longrightarrow> hd s \<notin> {CHR ''n'', CHR ''r'', CHR ''t''}"
  shows "longest (rules TEXT) (c # s) = Some (1, Read)"
  using assms by (cases s) auto

lemma longest_code_char:
  assumes "c \<noteq> LF" and "s \<noteq> [] \<Longrightarrow> c = CHR ''%'' \<Longrightarrow> hd s \<noteq> CHR ''>'' \<and> hd s \<noteq> CHR ''}''"
    and "s \<noteq> [] \<Longrightarrow> c = CR \<Longrightarrow> hd s \<noteq> LF"
  shows "longest (rules CODE) (c # s) = Some (1, Read)"
  using assms by (cases s) auto

definition add_text :: "string \<Rightarrow> string \<Rightarrow> string" where
  "add_text t line = (if t = [] then line else (if line = [] then print_open else line) @ esc t)"

lemma scan_text:
  assumes "text_ok t" "p_state p = TEXT_STATE"
    and "u \<noteq> [] \<Longrightarrow> hd u \<notin> {CHR ''%'', CHR ''n'', CHR ''r'', CHR ''t''}"
  shows "lexscan TEXT (t @ u) p = lexscan TEXT u (p\<lparr>p_line := add_text t (p_line p)\<rparr>)"
  using assms
proof (induction t arbitrary: p)
  case (Cons c t)
  have ok: "text_ok t" using Cons.prems(1) by (auto simp: text_ok_def apart_Cons)
  have "longest (rules TEXT) (c # t @ u) = Some (1, Read)"
    using Cons.prems(1,3) by (intro longest_text_char) (cases t; auto simp: text_ok_def apart_Cons)+
  moreover have "c_str [c] = [c]" using Cons.prems(1) by (auto simp: text_ok_def)
  ultimately have "lexscan TEXT (c # t @ u) p =
      lexscan TEXT (t @ u) (p\<lparr>p_line := (if p_line p = [] then print_open else p_line p) @ esc [c]\<rparr>)"
    using Cons.prems(2) lexscan_step [of TEXT "c # t @ u" 1 Read p] by (simp add: read_eq)
  then show ?case using Cons.IH [OF ok _ Cons.prems(3)] Cons.prems(2) by (simp add: add_text_def)
qed (simp add: add_text_def)

lemma scan_code:
  assumes "scannable c" "p_state p \<noteq> TEXT_STATE"
  shows "lexscan CODE (c @ CHR ''%'' # u) p = lexscan CODE (CHR ''%'' # u) (p\<lparr>p_line := p_line p @ c\<rparr>)"
  using assms
proof (induction c arbitrary: p)
  case (Cons d c)
  have ok: "scannable c" using Cons.prems(1) by (auto simp: scannable_def apart_Cons)
  have "longest (rules CODE) (d # c @ CHR ''%'' # u) = Some (1, Read)"
    using Cons.prems(1) by (intro longest_code_char) (cases c; auto simp: scannable_def apart_Cons)+
  moreover have "c_str [d] = [d]" using Cons.prems(1) by (auto simp: scannable_def)
  ultimately have "lexscan CODE (d # c @ CHR ''%'' # u) p =
      lexscan CODE (c @ CHR ''%'' # u) (p\<lparr>p_line := p_line p @ [d]\<rparr>)"
    using Cons.prems(2) lexscan_step [of CODE "d # c @ CHR ''%'' # u" 1 Read p] by (simp add: read_eq)
  then show ?case using Cons.IH [OF ok] Cons.prems(2) by simp
qed simp

fun block_code :: "block \<Rightarrow> string" where
  "block_code (Code_block k c) = c"
| "block_code (Var_block k c) = ''print(('' @ c @ ''))''"

definition add_block :: "block \<Rightarrow> string \<Rightarrow> string" where
  "add_block b line = line @ (if line = [] then [] else [QUOTE] @ ''; '') @ block_code b @ ''; '' @ print_open"

lemma longest_open_code:
  assumes "c \<noteq> []" "hd c \<noteq> CHR ''=''" "take 2 c \<noteq> ''--''"
  shows "longest (rules TEXT) (open_delim k @ c @ CHR ''%'' # u) = Some (2, Open_code)"
  using assms by (cases c; cases "tl c"; cases k) (auto simp: open_delim_def numeral_2_eq_2)

lemma longest_open_var: "longest (rules TEXT) (open_delim k @ CHR ''='' # u) = Some (3, Open_var)"
  by (cases k) (auto simp: open_delim_def numeral_3_eq_3)

lemma longest_close: "longest (rules CODE) (close_delim k @ u) = Some (2, Close_block)"
  by (cases k) (auto simp: close_delim_def)

lemma delim_shape: "length (open_delim k) = 2" "close_delim k = CHR ''%'' # tl (close_delim k)" "length (close_delim k) = 2"
  by (cases k; simp add: open_delim_def close_delim_def)+

lemma scan_close:
  assumes "p_line p \<noteq> []" "p_state p \<in> {CODE_STATE, VAR_STATE}"
  shows "lexscan CODE (close_delim k @ u) p =
     lexscan TEXT u (p\<lparr>p_line := p_line p @ (if p_state p = VAR_STATE then ''))'' else []) @ ''; '' @ print_open,
                      p_state := TEXT_STATE, p_block_start_line := p_current_line p\<rparr>)"
  using assms lexscan_step [OF longest_close [of k u], of p]
  by (auto simp: delim_shape(3) change_def append_line_def Let_def)

lemma scan_block:
  assumes "block_scans b" "p_state p = TEXT_STATE"
  shows "\<exists>p'. lexscan TEXT (render_block b @ u) p = lexscan TEXT u p' \<and>
     p_line p' = add_block b (p_line p) \<and> p_text p' = p_text p \<and> p_state p' = TEXT_STATE"
proof (cases b)
  case (Code_block k c)
  with assms have ok: "scannable c" "c \<noteq> []" "hd c \<noteq> CHR ''=''" "take 2 c \<noteq> ''--''" by auto
  let ?p = "change CODE_STATE p"
  have "lexscan TEXT (open_delim k @ c @ close_delim k @ u) p = lexscan CODE (c @ close_delim k @ u) ?p"
    using lexscan_step [OF longest_open_code [OF ok(2-4), of k "tl (close_delim k) @ u"], of p]
    by (simp add: delim_shape(1) flip: append_Cons delim_shape(2))
  also have "\<dots> = lexscan CODE (close_delim k @ u) (?p\<lparr>p_line := p_line ?p @ c\<rparr>)"
    using scan_code [OF ok(1), of ?p "tl (close_delim k) @ u"]
    by (simp add: change_def Let_def flip: append_Cons delim_shape(2))
  finally show ?thesis using Code_block ok(2) assms(2)
    by (simp add: scan_close change_def add_block_def Let_def) auto
next
  case (Var_block k c)
  with assms have ok: "scannable c" by auto
  let ?p = "append_line ''print(('' (change VAR_STATE p)"
  have "lexscan TEXT (open_delim k @ ''='' @ c @ close_delim k @ u) p = lexscan CODE (c @ close_delim k @ u) ?p"
    using lexscan_step [OF longest_open_var [of k "c @ close_delim k @ u"], of p]
    by (simp add: delim_shape(1))
  also have "\<dots> = lexscan CODE (close_delim k @ u) (?p\<lparr>p_line := p_line ?p @ c\<rparr>)"
    using scan_code [OF ok, of ?p "tl (close_delim k) @ u"]
    by (simp add: change_def append_line_def Let_def flip: append_Cons delim_shape(2))
  finally show ?thesis using Var_block assms(2)
    by (simp add: scan_close append_line_def change_def Let_def add_block_def) auto
qed

fun add_blocks :: "(block \<times> string) list \<Rightarrow> string \<Rightarrow> string" where
  "add_blocks [] line = line"
| "add_blocks ((b, t) # bs) line = add_blocks bs (add_text t (add_block b line))"

definition close_line :: "string \<Rightarrow> string" where
  "close_line line = (if line = [] then print_open else line) @ [BSL, CHR ''n'', QUOTE, LF]"

definition line_prog :: "doc_line \<Rightarrow> string" where
  "line_prog l = close_line (add_blocks (snd l) (add_text (fst l) []))"

lemma hd_render:
  "u \<noteq> [] \<Longrightarrow> hd u \<in> {LF, CR} \<Longrightarrow>
   hd (render_blocks bs @ u) \<notin> {CHR ''%'', CHR ''n'', CHR ''r'', CHR ''t''}"
proof (cases bs)
  case (Cons x bs)
  then show ?thesis by (cases x; cases "fst x") (auto simp: open_delim_def)
qed auto

lemma scan_blocks:
  assumes "\<forall>(b, t) \<in> set bs. block_ok b \<and> text_ok t" "p_state p = TEXT_STATE" "u \<noteq> []" "hd u \<in> {LF, CR}"
  shows "\<exists>p'. lexscan TEXT (render_blocks bs @ u) p = lexscan TEXT u p' \<and>
     p_line p' = add_blocks bs (p_line p) \<and> p_text p' = p_text p \<and> p_state p' = TEXT_STATE"
  using assms(1,2)
proof (induction bs arbitrary: p)
  case Nil
  then show ?case by auto
next
  case (Cons x bs)
  obtain b t where x: "x = (b, t)" by (cases x)
  then have ok: "block_ok b" "text_ok t" using Cons.prems by auto
  obtain p1 where p1: "lexscan TEXT (render_blocks (x # bs) @ u) p = lexscan TEXT (t @ render_blocks bs @ u) p1"
    "p_line p1 = add_block b (p_line p)" "p_text p1 = p_text p" "p_state p1 = TEXT_STATE"
    using scan_block [OF block_ok_scans [OF ok(1)] Cons.prems(2), of "t @ render_blocks bs @ u"] by (auto simp: x)
  let ?q = "p1\<lparr>p_line := add_text t (p_line p1)\<rparr>"
  have "lexscan TEXT (t @ render_blocks bs @ u) p1 = lexscan TEXT (render_blocks bs @ u) ?q"
    using ok(2) p1(4) hd_render [OF assms(3,4)] by (intro scan_text) auto
  with Cons.IH [of ?q] Cons.prems(1) p1 show ?case by (simp add: x)
qed

lemma scan_line_end:
  assumes "p_state p = TEXT_STATE"
  shows "lexscan TEXT (line_end crlf @ u) p =
     lexscan TEXT u (p\<lparr>p_current_line := p_current_line p + 1, p_text := p_text p @ close_line (p_line p), p_line := []\<rparr>)"
proof -
  have "longest (rules TEXT) (line_end crlf @ u) = Some (length (line_end crlf), End_line)"
    by (cases crlf) (auto simp: line_end_def)
  then show ?thesis using assms
    by (subst lexscan_step) (auto simp: end_line_def close_line_def)
qed

lemma scan_doc:
  assumes "\<forall>(l, crlf) \<in> set doc. line_ok l" "p_state p = TEXT_STATE" "p_line p = []"
  shows "\<exists>p'. lexscan TEXT (render_doc doc @ u) p = lexscan TEXT u p' \<and>
     p_text p' = p_text p @ concat (map (line_prog \<circ> fst) doc) \<and> p_state p' = TEXT_STATE \<and> p_line p' = []"
  using assms
proof (induction doc arbitrary: p)
  case Nil
  then show ?case by (auto simp: render_doc_def)
next
  case (Cons x doc)
  obtain t bs crlf where x: "x = ((t, bs), crlf)" by (metis prod.exhaust)
  let ?u = "line_end crlf @ render_doc doc @ u"
  have u: "?u \<noteq> []" "hd ?u \<in> {LF, CR}" by (auto simp: line_end_def)
  have ok: "text_ok t" "\<forall>(b, t) \<in> set bs. block_ok b \<and> text_ok t"
    using Cons.prems(1) x by (auto simp: line_ok_def)
  let ?p = "p\<lparr>p_line := add_text t []\<rparr>"
  have "lexscan TEXT (render_doc (x # doc) @ u) p = lexscan TEXT (t @ render_blocks bs @ ?u) p"
    by (simp add: x render_doc_def)
  also have "\<dots> = lexscan TEXT (render_blocks bs @ ?u) ?p"
    using scan_text [OF ok(1) Cons.prems(2)] hd_render [OF u] Cons.prems(3) by simp
  finally obtain p1 where p1: "lexscan TEXT (render_doc (x # doc) @ u) p = lexscan TEXT ?u p1"
    "p_line p1 = add_blocks bs (add_text t [])" "p_text p1 = p_text p" "p_state p1 = TEXT_STATE"
    using scan_blocks [OF ok(2) _ u, of ?p] Cons.prems(2) by auto
  let ?q = "p1\<lparr>p_current_line := p_current_line p1 + 1, p_text := p_text p1 @ line_prog (t, bs), p_line := []\<rparr>"
  have "lexscan TEXT ?u p1 = lexscan TEXT (render_doc doc @ u) ?q"
    using p1 by (simp add: scan_line_end line_prog_def)
  with Cons.IH [of ?q] Cons.prems(1) p1 show ?case by (auto simp: x)
qed

section \<open>Reading the program back\<close>

text \<open>The program behind an open literal, and behind a block at the start of a line.\<close>

fun tail_prog :: "(block \<times> string) list \<Rightarrow> string" where
  "tail_prog [] = [BSL, CHR ''n'', QUOTE, LF]"
| "tail_prog ((b, t) # bs) =
     [QUOTE] @ ''; '' @ block_code b @ ''; '' @ print_open @ esc t @ tail_prog bs"

lemma add_text_open: "line \<noteq> [] \<Longrightarrow> add_text t line = line @ esc t"
  by (simp add: add_text_def)

lemma close_add_blocks: "line \<noteq> [] \<Longrightarrow> close_line (add_blocks bs line) = line @ tail_prog bs"
proof (induction bs arbitrary: line)
  case Nil
  then show ?case by (simp add: close_line_def)
next
  case (Cons x bs)
  then show ?case by (cases x) (simp add: add_block_def add_text_open)
qed

lemma read_literal_esc:
  "read_literal (esc t @ s) = map_option (apfst ((@) t)) (read_literal s)"
  by (induction t) (auto simp: option.map_comp comp_def apfst_def map_prod_def case_prod_beta option.map_ident_strong)

lemma read_literal_tail_Nil: "read_literal (esc t @ tail_prog [] @ u) = Some (t @ [LF], LF # u)"
  by (simp add: read_literal_esc)

lemma read_literal_close: "read_literal (esc t @ QUOTE # u) = Some (t, u)"
  by (simp add: read_literal_esc)

lemma ruby_stmts_print:
  assumes "read_literal s = Some (v, r)" "stmt_end r = Some r'"
  shows "ruby_stmts (print_open @ s) = map_option (Cons (Print v)) (ruby_stmts r')"
  using assms by (subst ruby_stmts.simps) (simp add: numeral_eq_Suc)

lemma plain_char_ends: "plain_char c \<Longrightarrow> c \<noteq> LF \<and> c \<noteq> CHR '';'' \<and> c \<noteq> CHR ''#''"
  by (auto simp: plain_char_def isalnum_def code_def)

lemma raw_stmt_end: "fragment q c \<Longrightarrow> raw_stmt q (c @ ''; '' @ u) = Some (c, u)"
proof (induction q c rule: fragment.induct)
  case (3 c s)
  show ?case
  proof (cases "c = QUOTE \<or> c = APOS")
    case True
    then have "stmt_end (c # s @ ''; '' @ u) = None" "c \<noteq> CHR ''#''" by auto
    with True 3 show ?thesis by simp
  next
    case False
    with 3(3) have p: "plain_char c" "fragment None s" "c = CHR ''<'' \<Longrightarrow> s \<noteq> [] \<Longrightarrow> hd s \<noteq> CHR ''<''" by auto
    have e: "(c # s) @ ''; '' @ u = c # (s @ ''; '' @ u)" by simp
    from p have "c = CHR ''<'' \<Longrightarrow> hd (s @ ''; '' @ u) \<noteq> CHR ''<''" by (cases s) auto
    with p False 3(2) [OF False p(2)] plain_char_ends [OF p(1)] show ?thesis
      unfolding e by (simp del: append.simps)
  qed
next
  case 1
  then show ?case by (simp add: skip_blank_def)
next
  case (2 d c s)
  then show ?case by (simp split: if_splits)
qed

lemma fragment_append: "fragment q c \<Longrightarrow> fragment None d \<Longrightarrow> d \<noteq> [] \<Longrightarrow> hd d \<noteq> CHR ''<'' \<Longrightarrow> fragment q (c @ d)"
proof (induction q c rule: fragment.induct)
  case (3 c s)
  then show ?case by (cases s) (auto split: if_splits)
qed (auto split: if_splits)

lemma ruby_stmts_code:
  assumes "fragment None c" "take 7 c \<noteq> print_open"
  shows "ruby_stmts (c @ ''; '' @ u) = map_option (Cons (Stmt c)) (ruby_stmts u)"
proof -
  have "take 7 (c @ ''; '' @ u) \<noteq> print_open"
    using take_before [of "CHR '';''" print_open c "CHR '' '' # u"] assms(2) by (simp add: numeral_eq_Suc)
  then show ?thesis using raw_stmt_end [OF assms(1)] by (subst ruby_stmts.simps) simp
qed

lemma block_stmt_code:
  assumes "block_ok b"
  shows "ruby_stmts (block_code b @ ''; '' @ u) = map_option (Cons (block_stmt b)) (ruby_stmts u)"
proof (cases b)
  case (Code_block k c)
  with assms show ?thesis using ruby_stmts_code [of c u] by (simp add: code_ok_def)
next
  case (Var_block k c)
  have "fragment None ''))''" by (simp add: plain_char_def)
  with Var_block assms have "fragment None (c @ ''))'')" by (intro fragment_append) (simp_all add: code_ok_def)
  then have "fragment None (''print(('' @ c @ ''))'')" by (simp add: plain_char_def isalnum_def code_def)
  with Var_block show ?thesis using ruby_stmts_code [of "''print(('' @ c @ ''))''" u] by simp
qed

lemma ruby_stmts_tail:
  assumes "\<forall>(b, t) \<in> set bs. block_ok b"
  shows "ruby_stmts (print_open @ esc t @ tail_prog bs @ u) =
     map_option ((@) (Print (t @ (if bs = [] then [LF] else [])) # blocks_stmts bs)) (ruby_stmts u)"
  using assms
proof (induction bs arbitrary: t)
  case Nil
  then show ?case 
    using ruby_stmts_print [of "esc t @ tail_prog [] @ u" "t @ [LF]" "LF # u" u] read_literal_tail_Nil [of t u]
    by (cases "ruby_stmts u") simp_all
next
  case (Cons x bs)
  obtain b t' where x: "x = (b, t')" by (cases x)
  let ?u = "block_code b @ ''; '' @ print_open @ esc t' @ tail_prog bs @ u"
  have "ruby_stmts (print_open @ esc t @ tail_prog (x # bs) @ u) = map_option (Cons (Print t)) (ruby_stmts ?u)"
    using ruby_stmts_print [OF read_literal_close, of "''; '' @ ?u" ?u t] by (simp add: x skip_blank_def)
  with Cons block_stmt_code [of b "print_open @ esc t' @ tail_prog bs @ u"] show ?case
    by (cases "ruby_stmts u") (simp_all add: x)
qed

lemma ruby_stmts_line:
  assumes "line_ok l"
  shows "ruby_stmts (line_prog l @ u) = map_option ((@) (line_stmts l)) (ruby_stmts u)"
proof -
  obtain t bs where l: "l = (t, bs)" by (cases l)
  have ok: "\<forall>(b, t) \<in> set bs. block_ok b" using assms by (auto simp: line_ok_def l)
  show ?thesis
  proof (cases "t = [] \<and> bs \<noteq> []")
    case True
    then obtain b t' bs' where bs: "bs = (b, t') # bs'" by (cases bs) auto
    then have "line_prog l = block_code b @ ''; '' @ print_open @ esc t' @ tail_prog bs'"
      using True by (simp add: l line_prog_def add_text_def add_block_def add_text_open close_add_blocks)
    then show ?thesis using True ok bs block_stmt_code [of b] ruby_stmts_tail [of bs' t' u]
      by (cases "ruby_stmts u") (simp_all add: l line_stmts_def)
  next
    case False
    then have "line_prog l = print_open @ esc t @ tail_prog bs"
      by (cases "t = []") (simp_all add: l line_prog_def add_text_def close_add_blocks, simp add: close_line_def)
    then show ?thesis using ruby_stmts_tail [OF ok, of t u] False by (auto simp: l line_stmts_def)
  qed
qed

lemma ruby_stmts_doc:
  "\<forall>(l, crlf) \<in> set doc. line_ok l \<Longrightarrow>
   ruby_stmts (concat (map (line_prog \<circ> fst) doc)) = Some (concat (map (line_stmts \<circ> fst) doc))"
proof (induction doc)
  case Nil
  show ?case by (simp add: ruby_stmts.simps)
qed (auto simp: ruby_stmts_line)

lemma c_str_render:
  assumes "\<forall>(l, crlf) \<in> set doc. line_ok l"
  shows "NUL \<notin> set (render_doc doc)"
proof -
  have block: "block_ok b \<Longrightarrow> NUL \<notin> set (render_block b)" for b
    by (cases b) (auto simp: open_delim_def close_delim_def code_ok_def scannable_def NUL_def)
  have "\<forall>(b, t) \<in> set bs. block_ok b \<and> text_ok t \<Longrightarrow> NUL \<notin> set (render_blocks bs)" for bs
    by (induction bs) (auto simp: block text_ok_def)
  moreover have "NUL \<notin> set (line_end crlf)" for crlf by (simp add: line_end_def NUL_def)
  ultimately show ?thesis using assms by (fastforce simp: render_doc_def line_ok_def text_ok_def)
qed

text \<open>The program has no NUL either, so that all of it reaches the interpreter.\<close>

lemma program_no_NUL:
  assumes "\<forall>(l, crlf) \<in> set doc. line_ok l"
  shows "NUL \<notin> set (concat (map (line_prog \<circ> fst) doc))"
proof -
  have e_ok: "NUL \<notin> set t \<Longrightarrow> NUL \<notin> set (esc t)" for t by (induction t) (auto simp: NUL_def)
  have t_ok: "text_ok t \<Longrightarrow> NUL \<notin> set line \<Longrightarrow> NUL \<notin> set (add_text t line)" for t line
    using e_ok [of t] by (auto simp: add_text_def text_ok_def NUL_def)
  have b_ok: "block_ok b \<Longrightarrow> NUL \<notin> set line \<Longrightarrow> NUL \<notin> set (add_block b line)" for b line
    by (cases b) (auto simp: add_block_def code_ok_def scannable_def NUL_def)
  have "\<forall>(b, t) \<in> set bs. block_ok b \<and> text_ok t \<Longrightarrow> NUL \<notin> set line \<Longrightarrow> NUL \<notin> set (add_blocks bs line)" for bs line
    by (induction bs arbitrary: line) (auto simp: t_ok b_ok)
  moreover have "NUL \<notin> set line \<Longrightarrow> NUL \<notin> set (close_line line)" for line
    by (auto simp: close_line_def NUL_def)
  ultimately show ?thesis using assms t_ok [of _ "[]"] by (fastforce simp: line_prog_def line_ok_def)
qed

text \<open>
  A document of lines, each of text and of code and \<open>=\<close> blocks in either delimiter style, with
  LF or CRLF ends, compiles, when each block is one statement, to a Ruby program whose statements are, in the document's order, the
  print of each piece of text, unescaped to exactly that text, with the line feed of its line, each
  code block as it stands, and the print of each \<open>=\<close> block's value.
\<close>

lemma compile_document:
  assumes "\<forall>(l, crlf) \<in> set doc. line_ok l" "p_state p = TEXT_STATE"
  shows "\<exists>p'. compile_text (render_doc doc) p = Some p' \<and>
           ruby_stmts (p_text p') = Some (concat (map (line_stmts \<circ> fst) doc)) \<and> NUL \<notin> set (p_text p')"
proof (cases "render_doc doc = []")
  case True
  then have "doc = []" by (cases doc) (auto simp: render_doc_def line_end_def split: if_splits)
  then show ?thesis by (simp add: compile_text_def render_doc_def init_def ruby_stmts.simps)
next
  case False
  obtain p' where "lexscan TEXT (render_doc doc) (init p) = Some (TEXT, p')"
    "p_text p' = concat (map (line_prog \<circ> fst) doc)"
    using scan_doc [OF assms(1), of "init p" "[]"] assms(2) by (auto simp: init_def)
  then show ?thesis using False c_str_render [OF assms(1)] ruby_stmts_doc [OF assms(1)] program_no_NUL [OF assms(1)]
    by (simp add: compile_text_def lexscan_INITIAL)
qed

text \<open>
  A comment in a code block is a different matter: it reaches the program, where it takes the text behind the
  block on its line with it.
\<close>

lemma comment_block_swallows_text:
  assumes "scannable c" "text_ok t" "p_state p = TEXT_STATE"
  shows "\<exists>p'. compile_text (''<%#'' @ c @ ''%>'' @ t @ [LF]) p = Some p' \<and> ruby_stmts (p_text p') = Some [Stmt []]"
proof -
  let ?b = "Code_block False (CHR ''#'' # c)"
  have b: "block_scans ?b" using assms(1) by (auto simp: scannable_def apart_Cons numeral_2_eq_2 NUL_def)
  have doc: "''<%#'' @ c @ ''%>'' @ t @ [LF] = render_block ?b @ t @ [LF]" by (simp add: open_delim_def close_delim_def)
  have noNUL: "c_str (render_block ?b @ t @ [LF]) = render_block ?b @ t @ [LF]"
    using assms(1,2) by (simp add: open_delim_def close_delim_def scannable_def text_ok_def NUL_def)
  obtain p1 where p1: "lexscan TEXT (render_block ?b @ t @ [LF]) (init p) = lexscan TEXT (t @ [LF]) p1"
    "p_line p1 = add_block ?b []" "p_text p1 = []" "p_state p1 = TEXT_STATE"
    using scan_block [OF b, of "init p" "t @ [LF]"] assms(3) by (auto simp: init_def)
  let ?q = "p1\<lparr>p_line := add_text t (p_line p1)\<rparr>"
  have "lexscan TEXT (t @ [LF]) p1 = lexscan TEXT [LF] ?q" using scan_text [OF assms(2) p1(4), of "[LF]"] by simp
  with p1 scan_line_end [of ?q False "[]"] obtain p2 where
    "lexscan TEXT (render_block ?b @ t @ [LF]) (init p) = Some (TEXT, p2)"
    "p_text p2 = close_line (add_text t (add_block ?b []))" by (auto simp: line_end_def)
  note p2 = this
  have "LF \<notin> set (esc t)" "LF \<notin> set c" using assms(1,2) by (auto simp: text_ok_def scannable_def)
  then have x: "LF \<notin> set (c @ ''; '' @ print_open @ esc t @ [BSL, CHR ''n'', QUOTE])" (is "LF \<notin> set ?x") by simp
  have prog: "close_line (add_text t (add_block ?b [])) = CHR ''#'' # ?x @ [LF]"
    by (simp add: close_line_def add_text_def add_block_def)
  have sweep: "LF \<notin> set x \<Longrightarrow> drop 1 (dropWhile (\<lambda>c. c \<noteq> LF) (x @ [LF])) = []" for x by (induction x) auto
  note sweep [OF x]
  moreover have "stmt_end (CHR ''#'' # ?x @ [LF]) = None" by simp
  ultimately have "raw_stmt None (CHR ''#'' # ?x @ [LF]) = Some ([], [])" unfolding raw_stmt.simps by simp
  moreover have "take 7 (CHR ''#'' # ?x @ [LF]) \<noteq> print_open" by simp
  ultimately have "ruby_stmts (close_line (add_text t (add_block ?b []))) = Some [Stmt []]"
    unfolding prog by (subst ruby_stmts.simps) (simp add: ruby_stmts.simps [of "[]"] del: append.simps)
  moreover have ne: "render_block ?b @ t @ [LF] \<noteq> []" by simp
  ultimately show ?thesis using p2 unfolding doc compile_text_def noNUL lexscan_INITIAL [OF ne] by simp
qed

text \<open>A document with both delimiter styles, both block kinds and both line ends, for the examples.\<close>

definition demo_doc :: "(doc_line \<times> bool) list" where
  "demo_doc = [((''a#'', [(Var_block False '' x '', ''b''), (Code_block True '' y '', [])]), True), (([QUOTE], []), False)]"

end
