(* ===== verification/Ruby_Value.thy ===== *)
theory Ruby_Value
  imports ModRuby_Prelude
begin

text \<open>
  What the extension sees of Ruby: values with the types it checks, the exceptions it raises, and
  the loop \<open>while (i.next()) ...\<close> over a cursor that the bindings and the table class share, with its
  contract as a locale.
\<close>

section \<open>Values and errors\<close>

text \<open>An object wrapping a C structure carries its class and the structure's address.\<close>

datatype ruby_value =
  Qnil | Qtrue | Qfalse | Fixnum int | Str string | Arr "ruby_value list" | Obj string nat

datatype ruby_error = TypeError | ArgumentError | RangeError | NoMethodError | RuntimeError string | IOError string

type_synonym 'a ruby_result = "ruby_error + 'a"

definition and_then :: "'a ruby_result \<Rightarrow> ('a \<Rightarrow> 'b ruby_result) \<Rightarrow> 'b ruby_result" where
  "and_then r f = (case r of Inl e \<Rightarrow> Inl e | Inr x \<Rightarrow> f x)"

lemma and_then_simps [simp]: "and_then (Inl e) f = Inl e" "and_then (Inr x) f = f x"
  by (simp_all add: and_then_def)

lemma and_then_Inr: "and_then r f = Inr y \<longleftrightarrow> (\<exists>x. r = Inr x \<and> f x = Inr y)"
  by (cases r) simp_all

text \<open>\<open>Check_Type(v, T_STRING)\<close> followed by \<open>StringValuePtr(v)\<close> read as a C string.\<close>

fun string_arg :: "ruby_value \<Rightarrow> string ruby_result" where
  "string_arg (Str s) = Inr (c_str s)"
| "string_arg _ = Inl TypeError"

lemma string_arg_Inr: "string_arg v = Inr s \<longleftrightarrow> (\<exists>t. v = Str t \<and> s = c_str t)"
  by (cases v) auto

text \<open>\<open>rb_str_new2\<close> of a pointer that may be NULL.\<close>

definition rb_str_new2 :: "c_ptr \<Rightarrow> ruby_value ruby_result" where
  "rb_str_new2 p = (case p of None \<Rightarrow> Inl ArgumentError | Some s \<Rightarrow> Inr (Str (c_str s)))"

section \<open>Loops over a cursor\<close>

text \<open>\<open>while (next) body\<close>; \<^const>\<open>None\<close> when the body reads out of bounds, or the loop never ends.\<close>

partial_function (option) while_next :: "('s \<Rightarrow> 's option) \<Rightarrow> ('s \<Rightarrow> 's option) \<Rightarrow> 's \<Rightarrow> 's option" where
  "while_next adv body s =
     (case adv s of
        None \<Rightarrow> Some s
      | Some s' \<Rightarrow> (case body s' of None \<Rightarrow> None | Some s'' \<Rightarrow> while_next adv body s''))"

locale cursor_loop =
  fixes adv :: "'s \<Rightarrow> 's option"
    and body :: "'s \<Rightarrow> 's option"
    and good :: "'s \<Rightarrow> bool"
    and todo :: "'s \<Rightarrow> 'a list"
    and view :: "'s \<Rightarrow> 'b"
    and act :: "'a \<Rightarrow> 'b \<Rightarrow> 'b"
  assumes at_end: "good s \<Longrightarrow> todo s = [] \<Longrightarrow> adv s = None"
    and one_item: "good s \<Longrightarrow> todo s = x # xs \<Longrightarrow>
      \<exists>s' s''. adv s = Some s' \<and> body s' = Some s'' \<and> good s'' \<and> todo s'' = xs \<and> view s'' = act x (view s)"
begin

lemma loop_visits_all:
  "good s \<Longrightarrow> \<exists>s'. while_next adv body s = Some s' \<and> good s' \<and> todo s' = [] \<and> view s' = fold act (todo s) (view s)"
proof (induction "todo s" arbitrary: s)
  case Nil
  then show ?case using at_end by (subst while_next.simps) simp
next
  case (Cons x xs)
  obtain s' s'' where s: "adv s = Some s'" "body s' = Some s''" "good s''" "todo s'' = xs" "view s'' = act x (view s)"
    using one_item [OF Cons.prems Cons.hyps(2) [symmetric]] by blast
  with Cons.hyps(1) [of s''] have "\<exists>t. while_next adv body s'' = Some t \<and> good t \<and> todo t = [] \<and>
      view t = fold act xs (act x (view s))" by simp
  with s(1,2) Cons.hyps(2) [symmetric] show ?case by (subst while_next.simps) simp
qed

end

end
