(* ===== verification/Apr_Table.thy ===== *)
theory Apr_Table
  imports Ruby_Value
begin

text \<open>
  The table wrapper (apr_table.cpp, apr_table.h), its Ruby class (ruby_apr_table.cpp) and the
  read-only array class (ruby_apr_array.cpp). APR's own table functions are not part of the program:
  they are a record of operations on the visible entries, and what the code relies on in them is the
  predicate \<open>apr_table_laws\<close>, after APR's documentation. A \<open>table\<close> object is a handle into a heap of
  tables, so that copies of it share one table.
\<close>

section \<open>APR's tables\<close>

type_synonym entries = "(string \<times> string) list"

record apr_table_api =
  apr_table_get :: "entries \<Rightarrow> string \<Rightarrow> string option"
  apr_table_set :: "entries \<Rightarrow> string \<Rightarrow> string \<Rightarrow> entries"
  apr_table_setn :: "entries \<Rightarrow> string \<Rightarrow> string \<Rightarrow> entries"
  apr_table_add :: "entries \<Rightarrow> string \<Rightarrow> string \<Rightarrow> entries"
  apr_table_addn :: "entries \<Rightarrow> string \<Rightarrow> string \<Rightarrow> entries"
  apr_table_merge :: "entries \<Rightarrow> string \<Rightarrow> string \<Rightarrow> entries"
  apr_table_mergen :: "entries \<Rightarrow> string \<Rightarrow> string \<Rightarrow> entries"
  apr_table_unset :: "entries \<Rightarrow> string \<Rightarrow> entries"
  apr_table_clear :: "entries \<Rightarrow> entries"
  apr_table_overlay :: "entries \<Rightarrow> entries \<Rightarrow> entries"
  apr_table_compress_set :: "entries \<Rightarrow> entries"

text \<open>Keys are compared without regard to the case of ASCII letters.\<close>

definition ascii_lower :: "char \<Rightarrow> char" where
  "ascii_lower c = (if 65 \<le> code c \<and> code c \<le> 90 then char_of (code c + 32) else c)"

definition same_key :: "string \<Rightarrow> string \<Rightarrow> bool" where
  "same_key k k' \<longleftrightarrow> map ascii_lower k = map ascii_lower k'"

lemma same_key_refl [simp]: "same_key k k"
  by (simp add: same_key_def)

lemma same_key_sym: "same_key k k' \<longleftrightarrow> same_key k' k"
  by (auto simp: same_key_def)

lemma same_key_trans: "same_key k k' \<Longrightarrow> same_key k' k'' \<Longrightarrow> same_key k k''"
  by (simp add: same_key_def)

text \<open>
  The documented behaviour: \<open>set\<close>, \<open>unset\<close> and \<open>merge\<close> change what is found under their key only and
  leave no two entries with one key where there were none, \<open>add\<close> appends; the overlay puts its first
  argument's entries ahead of its second's, and compressing with \<open>APR_OVERLAP_TABLES_SET\<close> keeps of
  several entries with one key the value of the last.
\<close>

definition distinct_keys :: "entries \<Rightarrow> bool" where
  "distinct_keys e \<longleftrightarrow> distinct (map (map ascii_lower \<circ> fst) e)"

definition last_entry :: "entries \<Rightarrow> string \<Rightarrow> string option" where
  "last_entry e k = map_option snd (find (\<lambda>(k', v). same_key k' k) (rev e))"

definition apr_table_laws :: "apr_table_api \<Rightarrow> bool" where
  "apr_table_laws A \<longleftrightarrow>
     (\<forall>k. apr_table_get A [] k = None) \<and>
     (\<forall>e k k'. same_key k k' \<longrightarrow> apr_table_get A e k = apr_table_get A e k') \<and>
     (\<forall>e k k' v. apr_table_get A (apr_table_set A e k v) k' =
        (if same_key k k' then Some v else apr_table_get A e k')) \<and>
     (\<forall>e k k'. apr_table_get A (apr_table_unset A e k) k' =
        (if same_key k k' then None else apr_table_get A e k')) \<and>
     (\<forall>e k k' v. apr_table_get A (apr_table_merge A e k v) k' =
        (if same_key k k' then Some (case apr_table_get A e k of None \<Rightarrow> v | Some o' \<Rightarrow> o' @ '', '' @ v)
         else apr_table_get A e k')) \<and>
     (\<forall>e k v. apr_table_add A e k v = e @ [(k, v)]) \<and>
     apr_table_setn A = apr_table_set A \<and> apr_table_addn A = apr_table_add A \<and>
     apr_table_mergen A = apr_table_merge A \<and> (\<forall>e. apr_table_clear A e = []) \<and>
     (\<forall>e e'. apr_table_overlay A e e' = e @ e') \<and>
     (\<forall>e k. apr_table_get A (apr_table_compress_set A e) k = last_entry e k) \<and>
     (\<forall>e. distinct_keys (apr_table_compress_set A e)) \<and>
     (\<forall>e k v. distinct_keys e \<longrightarrow> distinct_keys (apr_table_set A e k v)) \<and>
     (\<forall>e k. distinct_keys e \<longrightarrow> apr_table_get A e k = last_entry e k)"

lemma apr_laws:
  assumes "apr_table_laws A"
  shows "apr_table_get A [] k = None"
    and "apr_table_get A (apr_table_set A e k v) k' = (if same_key k k' then Some v else apr_table_get A e k')"
    and "apr_table_overlay A e e' = e @ e'"
    and "apr_table_get A (apr_table_compress_set A e) k = last_entry e k"
    and "distinct_keys (apr_table_compress_set A e)"
    and "distinct_keys e \<Longrightarrow> distinct_keys (apr_table_set A e k v)"
    and "distinct_keys e \<Longrightarrow> apr_table_get A e k = last_entry e k"
    and "same_key k k' \<Longrightarrow> apr_table_get A e k = apr_table_get A e k'"
    and "apr_table_get A (apr_table_merge A e k v) k' =
      (if same_key k k' then Some (case apr_table_get A e k of None \<Rightarrow> v | Some w \<Rightarrow> w @ '', '' @ v)
       else apr_table_get A e k')"
  using assms by (auto simp: apr_table_laws_def)

text \<open>
  An association list that satisfies the documentation. It shows that the laws can hold; nothing else
  rests on it.
\<close>

definition assoc_get :: "entries \<Rightarrow> string \<Rightarrow> string option" where
  "assoc_get e k = map_option snd (find (\<lambda>(k', v). same_key k' k) e)"

fun assoc_set :: "entries \<Rightarrow> string \<Rightarrow> string \<Rightarrow> entries" where
  "assoc_set [] k v = [(k, v)]"
| "assoc_set ((k', v') # e) k v =
     (if same_key k' k then (k', v) # filter (\<lambda>(k'', _). \<not> same_key k'' k) e else (k', v') # assoc_set e k v)"

definition assoc_unset :: "entries \<Rightarrow> string \<Rightarrow> entries" where
  "assoc_unset e k = filter (\<lambda>(k', _). \<not> same_key k' k) e"

definition assoc_merge :: "entries \<Rightarrow> string \<Rightarrow> string \<Rightarrow> entries" where
  "assoc_merge e k v = assoc_set e k (case assoc_get e k of None \<Rightarrow> v | Some w \<Rightarrow> w @ '', '' @ v)"

definition assoc_table :: apr_table_api where
  "assoc_table =
     \<lparr>apr_table_get = assoc_get, apr_table_set = assoc_set, apr_table_setn = assoc_set,
      apr_table_add = (\<lambda>e k v. e @ [(k, v)]), apr_table_addn = (\<lambda>e k v. e @ [(k, v)]),
      apr_table_merge = assoc_merge, apr_table_mergen = assoc_merge, apr_table_unset = assoc_unset,
      apr_table_clear = (\<lambda>_. []), apr_table_overlay = (@),
      apr_table_compress_set = foldl (\<lambda>acc (k, v). assoc_set acc k v) []\<rparr>"

lemma assoc_get_simps [simp]:
  "assoc_get [] k = None"
  "assoc_get ((k', v) # e) k = (if same_key k' k then Some v else assoc_get e k)"
  by (simp_all add: assoc_get_def)

lemma assoc_get_filter:
  "assoc_get (filter (\<lambda>(k'', _). \<not> same_key k'' k) e) k' = (if same_key k k' then None else assoc_get e k')"
  by (induction e) (auto simp: same_key_def)

lemma assoc_get_set: "assoc_get (assoc_set e k v) k' = (if same_key k k' then Some v else assoc_get e k')"
  by (induction e k v rule: assoc_set.induct)
    (auto simp: assoc_get_filter [unfolded same_key_def] same_key_def)

lemma assoc_get_compress:
  "assoc_get (foldl (\<lambda>acc (k, v). assoc_set acc k v) [] e) k = last_entry e k"
  by (induction e rule: rev_induct) (auto simp: assoc_get_set last_entry_def)

lemma assoc_set_keys:
  "distinct_keys e \<Longrightarrow> distinct_keys (assoc_set e k v) \<and>
     set (map (map ascii_lower \<circ> fst) (assoc_set e k v)) \<subseteq> insert (map ascii_lower k) (set (map (map ascii_lower \<circ> fst) e))"
proof (induction e k v rule: assoc_set.induct)
  case (2 k' v' e k v)
  have "distinct_keys e \<Longrightarrow> distinct_keys (filter (\<lambda>(k'', _). \<not> same_key k'' k) e)"
    by (induction e) (auto simp: distinct_keys_def)
  with 2 show ?case by (auto simp: distinct_keys_def same_key_def)
qed (simp add: distinct_keys_def)

lemma assoc_compress_keys: "distinct_keys (foldl (\<lambda>acc (k, v). assoc_set acc k v) [] e)"
proof (induction e rule: rev_induct)
  case (snoc x e)
  then show ?case using assoc_set_keys by (auto split: prod.split)
qed (simp add: distinct_keys_def)

lemma assoc_get_last: "distinct_keys e \<Longrightarrow> assoc_get e k = last_entry e k"
proof (induction e)
  case (Cons x e)
  have none: "\<forall>y \<in> set e. \<not> same_key (fst y) k \<Longrightarrow> find (\<lambda>(k', v). same_key k' k) (rev e) = None"
    by (auto simp: find_None_iff)
  have app: "find P (xs @ ys) = (case find P xs of None \<Rightarrow> find P ys | Some z \<Rightarrow> Some z)" for P and xs ys :: entries
    by (induction xs) auto
  from Cons show ?case using none
    by (cases x) (auto simp: last_entry_def distinct_keys_def app same_key_def image_iff split: option.splits, force+)
qed (simp add: last_entry_def)

lemma assoc_get_same: "same_key k k' \<Longrightarrow> assoc_get e k = assoc_get e k'"
  by (simp add: assoc_get_def same_key_def)

lemma assoc_table_laws: "apr_table_laws assoc_table"
  using assoc_set_keys assoc_compress_keys assoc_get_last assoc_get_same
  by (simp add: apr_table_laws_def assoc_table_def assoc_get_set assoc_merge_def assoc_get_compress
      assoc_unset_def assoc_get_filter)

section \<open>The table class\<close>

text \<open>The heap of tables, and objects holding a handle into it, or NULL as the Ruby allocator leaves it.\<close>

record table_heap =
  th_tables :: "nat \<Rightarrow> entries option"
  th_next :: nat

type_synonym handle = "nat option"

definition table_make :: "table_heap \<Rightarrow> handle \<times> table_heap" where
  "table_make H =
     (Some (th_next H), H\<lparr>th_tables := (th_tables H)(th_next H \<mapsto> []), th_next := Suc (th_next H)\<rparr>)"

text \<open>\<open>operator=\<close> copies the handle, not the table.\<close>

definition table_assign :: "handle \<Rightarrow> handle \<Rightarrow> handle" where
  "table_assign this t = t"

definition table_elts :: "table_heap \<Rightarrow> handle \<Rightarrow> entries option" where
  "table_elts H t = Option.bind t (th_tables H)"

definition table_update :: "(entries \<Rightarrow> entries) \<Rightarrow> table_heap \<Rightarrow> handle \<Rightarrow> table_heap option" where
  "table_update f H t =
     (case t of
        None \<Rightarrow> None
      | Some p \<Rightarrow> (case th_tables H p of None \<Rightarrow> None | Some e \<Rightarrow> Some (H\<lparr>th_tables := (th_tables H)(p \<mapsto> f e)\<rparr>)))"

definition table_size :: "table_heap \<Rightarrow> handle \<Rightarrow> nat option" where
  "table_size H t = map_option length (table_elts H t)"

definition table_clear :: "apr_table_api \<Rightarrow> table_heap \<Rightarrow> handle \<Rightarrow> table_heap option" where
  "table_clear A = table_update (apr_table_clear A)"

definition table_get :: "apr_table_api \<Rightarrow> table_heap \<Rightarrow> handle \<Rightarrow> string \<Rightarrow> c_ptr option" where
  "table_get A H t k = map_option (\<lambda>e. apr_table_get A e k) (table_elts H t)"

definition table_set :: "apr_table_api \<Rightarrow> table_heap \<Rightarrow> handle \<Rightarrow> string \<Rightarrow> string \<Rightarrow> table_heap option" where
  "table_set A H t k v = table_update (\<lambda>e. apr_table_set A e k v) H t"

definition table_setn :: "apr_table_api \<Rightarrow> table_heap \<Rightarrow> handle \<Rightarrow> string \<Rightarrow> string \<Rightarrow> table_heap option" where
  "table_setn A H t k v = table_update (\<lambda>e. apr_table_setn A e k v) H t"

definition table_add :: "apr_table_api \<Rightarrow> table_heap \<Rightarrow> handle \<Rightarrow> string \<Rightarrow> string \<Rightarrow> table_heap option" where
  "table_add A H t k v = table_update (\<lambda>e. apr_table_add A e k v) H t"

definition table_addn :: "apr_table_api \<Rightarrow> table_heap \<Rightarrow> handle \<Rightarrow> string \<Rightarrow> string \<Rightarrow> table_heap option" where
  "table_addn A H t k v = table_update (\<lambda>e. apr_table_addn A e k v) H t"

definition table_merge :: "apr_table_api \<Rightarrow> table_heap \<Rightarrow> handle \<Rightarrow> string \<Rightarrow> string \<Rightarrow> table_heap option" where
  "table_merge A H t k v = table_update (\<lambda>e. apr_table_merge A e k v) H t"

definition table_mergen :: "apr_table_api \<Rightarrow> table_heap \<Rightarrow> handle \<Rightarrow> string \<Rightarrow> string \<Rightarrow> table_heap option" where
  "table_mergen A H t k v = table_update (\<lambda>e. apr_table_mergen A e k v) H t"

definition table_unset :: "apr_table_api \<Rightarrow> table_heap \<Rightarrow> handle \<Rightarrow> string \<Rightarrow> table_heap option" where
  "table_unset A H t k = table_update (\<lambda>e. apr_table_unset A e k) H t"

section \<open>The iterator\<close>

text \<open>
  An iterator is an index into the elements of a live table; the number of elements is read anew by
  every operation. Each returns its result and the index.
\<close>

definition it_begin :: int where
  "it_begin = -1"

definition it_seek :: "nat \<Rightarrow> int \<Rightarrow> int \<Rightarrow> bool \<times> int" where
  "it_seek nelts i idx = (if idx < int nelts then (True, idx) else (False, i))"

definition it_rewind :: "int \<Rightarrow> bool \<times> int" where
  "it_rewind i = (True, -1)"

definition it_first :: "nat \<Rightarrow> int \<Rightarrow> bool \<times> int" where
  "it_first nelts i = (True, if nelts > 0 then 0 else i)"

definition it_last :: "nat \<Rightarrow> int \<Rightarrow> bool \<times> int" where
  "it_last nelts i = (if nelts > 0 then (True, int nelts - 1) else (False, i))"

definition it_next :: "nat \<Rightarrow> int \<Rightarrow> bool \<times> int" where
  "it_next nelts i =
     (if i = int nelts - 1 then (False, i)
      else if nelts > 0 then (True, i + 1)
      else (False, i))"

definition it_prev :: "int \<Rightarrow> bool \<times> int" where
  "it_prev i = (if i \<noteq> -1 then (let i = i - 1 in if i < 0 then (False, i) else (True, i)) else (False, i))"

text \<open>The entry under the index: NULL before the first, \<^const>\<open>None\<close> out of bounds.\<close>

definition it_entry :: "entries \<Rightarrow> int \<Rightarrow> (string \<times> string) option option" where
  "it_entry e i = (if i \<noteq> -1 then (if i < 0 then None else map_option Some (rd e (nat i))) else Some None)"

definition it_key :: "entries \<Rightarrow> int \<Rightarrow> c_ptr option" where
  "it_key e i = map_option (map_option fst) (it_entry e i)"

definition it_data :: "entries \<Rightarrow> int \<Rightarrow> c_ptr option" where
  "it_data e i = map_option (map_option snd) (it_entry e i)"

text \<open>\<open>operator[]\<close>: a fresh iterator, moved if the index is below the size.\<close>

definition table_at :: "entries \<Rightarrow> int \<Rightarrow> int" where
  "table_at e idx = snd (it_seek (length e) it_begin idx)"

section \<open>Loops over a table\<close>

text \<open>
  A loop state is the index, the elements as they are now, and what the body accumulates. The
  bodies of \<open>keys\<close> and \<open>values\<close> push a Ruby string, that of \<open>each\<close> yields to a block, which may change
  the table.
\<close>

type_synonym 'a it_state = "int \<times> entries \<times> 'a"

definition it_adv :: "'a it_state \<Rightarrow> 'a it_state option" where
  "it_adv st = (case st of (i, e, a) \<Rightarrow> (case it_next (length e) i of (ok, i') \<Rightarrow> if ok then Some (i', e, a) else None))"

definition it_body :: "(string \<times> string \<Rightarrow> entries \<times> 'a \<Rightarrow> entries \<times> 'a) \<Rightarrow> 'a it_state \<Rightarrow> 'a it_state option" where
  "it_body f st =
     (case st of (i, e, a) \<Rightarrow>
        (case (it_key e i, it_data e i) of
           (Some (Some k), Some (Some d)) \<Rightarrow> (case f (k, d) (e, a) of (e', a') \<Rightarrow> Some (i, e', a'))
         | _ \<Rightarrow> None))"

definition it_loop :: "(string \<times> string \<Rightarrow> entries \<times> 'a \<Rightarrow> entries \<times> 'a) \<Rightarrow> entries \<Rightarrow> 'a \<Rightarrow> (entries \<times> 'a) option" where
  "it_loop f e a = map_option snd (while_next it_adv (it_body f) (it_begin, e, a))"

text \<open>A body that leaves the table alone.\<close>

definition quiet :: "(string \<times> string \<Rightarrow> 'a \<Rightarrow> 'a) \<Rightarrow> string \<times> string \<Rightarrow> entries \<times> 'a \<Rightarrow> entries \<times> 'a" where
  "quiet g x s = (fst s, g x (snd s))"

definition it_good :: "entries \<Rightarrow> 'a it_state \<Rightarrow> bool" where
  "it_good e st \<longleftrightarrow> fst (snd st) = e \<and> -1 \<le> fst st \<and> fst st < int (length e)"

text \<open>The common shape: what is accumulated depends on the index and the entry.\<close>

definition indexed_body :: "(int \<Rightarrow> string \<times> string \<Rightarrow> 'a \<Rightarrow> 'a) \<Rightarrow> 'a it_state \<Rightarrow> 'a it_state option" where
  "indexed_body g st =
     (case st of (i, e, a) \<Rightarrow>
        (case (it_key e i, it_data e i) of
           (Some (Some k), Some (Some d)) \<Rightarrow> Some (i, e, g i (k, d) a)
         | _ \<Rightarrow> None))"

interpretation table_loop: cursor_loop it_adv "indexed_body g" "it_good e"
  "\<lambda>(i, e, a). drop (nat (i + 1)) (enumerate 0 e)" "snd \<circ> snd" "\<lambda>(j, x). g (int j) x"
  for g :: "int \<Rightarrow> string \<times> string \<Rightarrow> 'a \<Rightarrow> 'a" and e :: entries
proof (unfold_locales, goal_cases)
  case (1 s)
  then show ?case by (auto simp: it_adv_def it_next_def it_good_def split: prod.splits)
next
  case (2 s x xs)
  obtain i a where s: "s = (i, e, a)" using 2(1) by (cases s) (auto simp: it_good_def)
  define n where "n = nat (i + 1)"
  have i: "i = int n - 1" using 2(1) by (simp add: s n_def it_good_def)
  have d: "drop n (enumerate 0 e) = x # xs" using 2(2) by (simp add: s n_def)
  then have "n < length (enumerate 0 e)" by (metis drop_all list.distinct(1) not_le_imp_less)
  then have n: "n < length e" "x = (n, e ! n)" "drop (Suc n) (enumerate 0 e) = xs"
    using d by (auto simp: Cons_nth_drop_Suc [symmetric] nth_enumerate_eq)
  let ?s' = "(int n, e, a)" and ?s'' = "(int n, e, g (int n) (e ! n) a)"
  have "it_adv s = Some ?s'" using n(1) by (auto simp: s i it_adv_def it_next_def)
  moreover have "indexed_body g ?s' = Some ?s''"
    using n(1) by (simp add: indexed_body_def it_key_def it_data_def it_entry_def rd_def)
  moreover have "it_good e ?s''" using n(1) by (simp add: it_good_def)
  moreover have "drop (nat (int n + 1)) (enumerate 0 e) = xs" using n(3) by (simp add: nat_add_distrib)
  ultimately show ?case using n(2) by (intro exI [of _ ?s'] exI [of _ ?s'']) (simp add: s)
qed

lemma indexed_loop:
  "\<exists>i. while_next it_adv (indexed_body g) (it_begin, e, a) =
     Some (i, e, fold (\<lambda>(j, x). g (int j) x) (enumerate 0 e) a)"
proof -
  obtain s where "while_next it_adv (indexed_body g) (it_begin, e, a) = Some s" "it_good e s"
      "(snd \<circ> snd) s = fold (\<lambda>(j, x). g (int j) x) (enumerate 0 e) a"
    using table_loop.loop_visits_all [of e "(it_begin, e, a)" g] by (auto simp: it_good_def it_begin_def)
  then show ?thesis by (cases s) (simp add: it_good_def)
qed

lemma fold_enumerate: "fold (\<lambda>(j, x). g x) (enumerate n e) a = fold g e a"
  by (induction e arbitrary: n a) simp_all

lemma it_loop_quiet: "it_loop (quiet g) e a = Some (e, fold g e a)"
proof -
  have "it_body (quiet g) = indexed_body (\<lambda>_. g)"
    by (auto simp: fun_eq_iff it_body_def indexed_body_def quiet_def split: option.splits)
  then show ?thesis
    using indexed_loop [of "\<lambda>_. g" e a] by (auto simp: it_loop_def fold_enumerate)
qed

text \<open>
  \<open>join\<close>: the separator goes behind every item but the last, by the size taken before the loop.
\<close>

definition join_body :: "string \<Rightarrow> int \<Rightarrow> string it_state \<Rightarrow> string it_state option" where
  "join_body sep len st =
     (case st of (i, e, strm) \<Rightarrow>
        (case (it_key e i, it_data e i) of
           (Some (Some k), Some (Some d)) \<Rightarrow>
             Some (i, e, strm @ k @ ''='' @ d @ (if i < len - 1 then sep else []))
         | _ \<Rightarrow> None))"

definition table_join :: "string \<Rightarrow> entries \<Rightarrow> string option" where
  "table_join sep e =
     map_option (snd \<circ> snd) (while_next it_adv (join_body sep (int (length e))) (it_begin, e, []))"

definition table_keys :: "entries \<Rightarrow> ruby_value option" where
  "table_keys e = map_option (Arr \<circ> snd) (it_loop (quiet (\<lambda>(k, d) a. a @ [Str (c_str k)])) e [])"

definition table_values :: "entries \<Rightarrow> ruby_value option" where
  "table_values e = map_option (Arr \<circ> snd) (it_loop (quiet (\<lambda>(k, d) a. a @ [Str (c_str d)])) e [])"

text \<open>\<open>each\<close>: the block is given the pair of strings and works on the table and the rest of the world.\<close>

definition table_each ::
    "(ruby_value \<Rightarrow> entries \<times> 'w \<Rightarrow> entries \<times> 'w) \<Rightarrow> entries \<Rightarrow> 'w \<Rightarrow> (entries \<times> 'w) option" where
  "table_each blk e w = it_loop (\<lambda>(k, d). blk (Arr [Str (c_str k), Str (c_str d)])) e w"

section \<open>What the loops compute\<close>

lemma join_fold:
  "fold (\<lambda>(j, k, d) strm. strm @ k @ ''='' @ d @ (if int j < int (n + length e) - 1 then sep else []))
     (enumerate n e) a = a @ intercalate sep (map (\<lambda>(k, d). k @ ''='' @ d) e)"
proof (induction e arbitrary: n a)
  case (Cons x e)
  have "int n < int (n + length (x # e)) - 1 \<longleftrightarrow> e \<noteq> []" by auto
  moreover have "int (n + length (x # e)) = int (Suc n + length e)" by simp
  ultimately show ?case using Cons.IH [of "Suc n"]
    by (cases x; cases e) (simp_all add: intercalate_Cons)
qed simp

lemma table_join_eq: "table_join sep e = Some (intercalate sep (map (\<lambda>(k, d). k @ ''='' @ d) e))"
proof -
  let ?g = "\<lambda>i (k, d) strm. strm @ k @ ''='' @ d @ (if i < int (length e) - 1 then sep else [])"
  have "join_body sep (int (length e)) = indexed_body ?g"
    by (auto simp: fun_eq_iff join_body_def indexed_body_def split: option.splits)
  moreover have "(\<lambda>(j, x). ?g (int j) x) =
      (\<lambda>(j, k, d) strm. strm @ k @ ''='' @ d @ (if int j < int (0 + length e) - 1 then sep else []))"
    by (auto simp: fun_eq_iff)
  ultimately show ?thesis
    using indexed_loop [of ?g e "[]"] join_fold [of 0 e sep "[]"] by (auto simp: table_join_def)
qed

lemma fold_snoc: "fold (\<lambda>(k, d) a. a @ [f k d]) xs a = a @ map (\<lambda>(k, d). f k d) xs"
  by (induction xs arbitrary: a) auto

text \<open>
  A block that removes entries behind the iterator's back: with the index past the new end, \<open>next\<close>
  only compares it with the last index, goes on, and the key is read out of bounds.
\<close>

lemma each_shrinking_table:
  "table_each (\<lambda>v (e, n). (if n = 1 then take 1 e else e, n + 1)) (x # y # z # e) (0 :: nat) = None"
  by (simp add: table_each_def it_loop_def it_begin_def while_next.simps it_adv_def it_next_def it_body_def
      it_key_def it_data_def it_entry_def rd_def split: prod.split)

text \<open>
  C19. On every table \<open>keys\<close>, \<open>values\<close> and \<open>join\<close> end without reading out of bounds and visit every entry once,
  in order: they give the keys, the values, and the items \<open>key=value\<close> with the separator between them and not
  after the last. \<open>each\<close> yields the pairs in order for a block that leaves the table alone. A block may also
  shorten the table, and then \<open>each\<close> reads behind its end: on any table of three or more entries with a block
  that at its second pair leaves one entry.
\<close>

theorem table_loops_visit_all:
  "table_keys e = Some (Arr (map (\<lambda>(k, d). Str (c_str k)) e)) \<and>
   table_values e = Some (Arr (map (\<lambda>(k, d). Str (c_str d)) e)) \<and>
   table_join sep e = Some (intercalate sep (map (\<lambda>(k, d). k @ ''='' @ d) e)) \<and>
   table_each (\<lambda>v (e, w). (e, blk v w)) e w =
     Some (e, fold (\<lambda>(k, d). blk (Arr [Str (c_str k), Str (c_str d)])) e w) \<and>
   table_each (\<lambda>v (e, n). (if n = 1 then take 1 e else e, n + 1)) (x # y # z # e) (0 :: nat) = None"
proof (intro conjI)
  show "table_keys e = Some (Arr (map (\<lambda>(k, d). Str (c_str k)) e))"
    "table_values e = Some (Arr (map (\<lambda>(k, d). Str (c_str d)) e))"
    by (simp_all add: table_keys_def table_values_def it_loop_quiet fold_snoc)
  show "table_join sep e = Some (intercalate sep (map (\<lambda>(k, d). k @ ''='' @ d) e))"
    by (rule table_join_eq)
  have "(\<lambda>(k, d). (\<lambda>v (e, w). (e, blk v w)) (Arr [Str (c_str k), Str (c_str d)])) =
      quiet (\<lambda>(k, d). blk (Arr [Str (c_str k), Str (c_str d)]))"
    by (auto simp: fun_eq_iff quiet_def)
  then show "table_each (\<lambda>v (e, w). (e, blk v w)) e w =
      Some (e, fold (\<lambda>(k, d). blk (Arr [Str (c_str k), Str (c_str d)])) e w)"
    by (simp add: table_each_def it_loop_quiet)
qed (rule each_shrinking_table)

section \<open>Moving an iterator\<close>

datatype it_op = Seek int | Rewind | First | Last | Next | Prev

fun it_run :: "nat \<Rightarrow> it_op \<Rightarrow> int \<Rightarrow> bool \<times> int" where
  "it_run n (Seek idx) i = it_seek n i idx"
| "it_run n Rewind i = it_rewind i"
| "it_run n First i = it_first n i"
| "it_run n Last i = it_last n i"
| "it_run n Next i = it_next n i"
| "it_run n Prev i = it_prev i"

definition it_ok :: "nat \<Rightarrow> int \<Rightarrow> bool" where
  "it_ok n i \<longleftrightarrow> -1 \<le> i \<and> i < int n"

fun seek_ok :: "it_op \<Rightarrow> bool" where
  "seek_ok (Seek idx) \<longleftrightarrow> -1 \<le> idx"
| "seek_ok _ \<longleftrightarrow> True"

lemma it_op_ok: "it_ok n i \<Longrightarrow> seek_ok p \<Longrightarrow> it_ok n (snd (it_run n p i))"
  by (cases p) (auto simp: it_ok_def it_seek_def it_rewind_def it_first_def it_last_def it_next_def it_prev_def Let_def)

lemma it_ops_ok: "it_ok n i \<Longrightarrow> list_all seek_ok ps \<Longrightarrow> it_ok n (foldl (\<lambda>i p. snd (it_run n p i)) i ps)"
  by (induction ps arbitrary: i) (simp_all add: it_op_ok)

lemma it_entry_ok: "it_ok (length e) i \<longleftrightarrow> it_entry e i \<noteq> None"
  by (auto simp: it_ok_def it_entry_def rd_def nat_less_iff)

text \<open>
  C35. On a table that is not changed, an iterator moved by any sequence of its operations stays
  before the first or on an entry, so that \<open>key()\<close> and \<open>data()\<close> read in bounds, provided no \<open>seek\<close> is
  below -1; such a seek is accepted and the next read is out of bounds.
\<close>

theorem iterator_in_bounds:
  "(list_all seek_ok ps \<longrightarrow>
      it_entry e (foldl (\<lambda>i p. snd (it_run (length e) p i)) it_begin ps) \<noteq> None) \<and>
   (idx < -1 \<longrightarrow> it_seek (length e) i idx = (True, idx) \<and> it_entry e idx = None)"
  using it_ops_ok [of "length e" it_begin ps] it_entry_ok [of e]
  by (auto simp: it_begin_def it_ok_def it_seek_def it_entry_def)

theorem iterator_in_bounds_witness:
  "it_entry [(''a'', ''b'')] (foldl (\<lambda>i p. snd (it_run 1 p i)) it_begin [Next, Next, Prev, Seek 7, Last]) \<noteq> None \<and>
   it_seek 1 0 (-2) = (True, -2) \<and> it_entry [(''a'', ''b'')] (-2) = None"
  using iterator_in_bounds [of "[Next, Next, Prev, Seek 7, Last]" "[(''a'', ''b'')]" "-2" 0] by simp

section \<open>The Ruby class\<close>

text \<open>
  A method has the heap, the object's handle and its arguments; a Ruby exception is \<open>Inl\<close>, a
  dereference of a NULL handle, which ends the process, is \<^const>\<open>None\<close>. Checks come first.
\<close>

type_synonym method_result = "(ruby_value \<times> table_heap) ruby_result option"

definition with_table :: "table_heap option \<Rightarrow> method_result" where
  "with_table r = map_option (\<lambda>H. Inr (Qnil, H)) r"

definition pool_class :: string where
  "pool_class = ''APR::Pool''"

definition table_m_init :: "table_heap \<Rightarrow> ruby_value \<Rightarrow> (handle \<times> table_heap) ruby_result" where
  "table_m_init H pool =
     (case pool of
        Obj cls _ \<Rightarrow> if cls = pool_class then Inr (table_make H) else Inl (RuntimeError ''wrong argument type'')
      | _ \<Rightarrow> Inl TypeError)"

definition table_m_size :: "table_heap \<Rightarrow> handle \<Rightarrow> method_result" where
  "table_m_size H t = map_option (\<lambda>n. Inr (Fixnum (int n), H)) (table_size H t)"

definition table_m_clear :: "apr_table_api \<Rightarrow> table_heap \<Rightarrow> handle \<Rightarrow> method_result" where
  "table_m_clear A H t = with_table (table_clear A H t)"

definition two_strings :: "(string \<Rightarrow> string \<Rightarrow> method_result) \<Rightarrow> ruby_value \<Rightarrow> ruby_value \<Rightarrow> method_result" where
  "two_strings f key val =
     (case string_arg key of
        Inl e \<Rightarrow> Some (Inl e)
      | Inr k \<Rightarrow> (case string_arg val of Inl e \<Rightarrow> Some (Inl e) | Inr v \<Rightarrow> f k v))"

definition one_string :: "(string \<Rightarrow> method_result) \<Rightarrow> ruby_value \<Rightarrow> method_result" where
  "one_string f key = (case string_arg key of Inl e \<Rightarrow> Some (Inl e) | Inr k \<Rightarrow> f k)"

definition table_m_set :: "apr_table_api \<Rightarrow> table_heap \<Rightarrow> handle \<Rightarrow> ruby_value \<Rightarrow> ruby_value \<Rightarrow> method_result" where
  "table_m_set A H t = two_strings (\<lambda>k v. with_table (table_set A H t k v))"

definition table_m_add :: "apr_table_api \<Rightarrow> table_heap \<Rightarrow> handle \<Rightarrow> ruby_value \<Rightarrow> ruby_value \<Rightarrow> method_result" where
  "table_m_add A H t = two_strings (\<lambda>k v. with_table (table_add A H t k v))"

definition table_m_merge :: "apr_table_api \<Rightarrow> table_heap \<Rightarrow> handle \<Rightarrow> ruby_value \<Rightarrow> ruby_value \<Rightarrow> method_result" where
  "table_m_merge A H t = two_strings (\<lambda>k v. with_table (table_merge A H t k v))"

definition table_m_unset :: "apr_table_api \<Rightarrow> table_heap \<Rightarrow> handle \<Rightarrow> ruby_value \<Rightarrow> method_result" where
  "table_m_unset A H t = one_string (\<lambda>k. with_table (table_unset A H t k))"

definition table_m_get :: "apr_table_api \<Rightarrow> table_heap \<Rightarrow> handle \<Rightarrow> ruby_value \<Rightarrow> method_result" where
  "table_m_get A H t = one_string (\<lambda>k.
     map_option (\<lambda>val. Inr (case val of None \<Rightarrow> Qnil | Some v \<Rightarrow> Str (c_str v), H)) (table_get A H t k))"

definition table_m_has_key :: "apr_table_api \<Rightarrow> table_heap \<Rightarrow> handle \<Rightarrow> ruby_value \<Rightarrow> method_result" where
  "table_m_has_key A H t = one_string (\<lambda>k.
     map_option (\<lambda>val. Inr (case val of None \<Rightarrow> Qfalse | Some _ \<Rightarrow> Qtrue, H)) (table_get A H t k))"

definition table_m_keys :: "table_heap \<Rightarrow> handle \<Rightarrow> method_result" where
  "table_m_keys H t = map_option (\<lambda>a. Inr (a, H)) (Option.bind (table_elts H t) table_keys)"

definition table_m_values :: "table_heap \<Rightarrow> handle \<Rightarrow> method_result" where
  "table_m_values H t = map_option (\<lambda>a. Inr (a, H)) (Option.bind (table_elts H t) table_values)"

definition table_m_join :: "table_heap \<Rightarrow> handle \<Rightarrow> ruby_value \<Rightarrow> method_result" where
  "table_m_join H t = one_string (\<lambda>sep.
     map_option (\<lambda>s. Inr (Str (c_str s), H)) (Option.bind (table_elts H t) (table_join sep)))"

lemmas table_methods =
  table_m_set_def table_m_merge_def table_m_unset_def table_m_get_def table_m_has_key_def
  two_strings_def one_string_def with_table_def table_set_def table_merge_def table_unset_def
  table_get_def table_update_def table_elts_def

lemmas table_mutators = table_m_set_def table_m_merge_def table_m_unset_def two_strings_def one_string_def with_table_def
  table_set_def table_merge_def table_unset_def string_arg.simps

text \<open>
  A specification: what Ruby should find in a table, a map from keys without case to values. A program works on
  several objects; \<open>objs\<close> gives the handle of each, and two objects may have the same.
\<close>

datatype table_op = Set_op string string | Unset_op string | Merge_op string string | Clear_op

definition folded :: "string \<Rightarrow> string" where
  "folded k = map ascii_lower (c_str k)"

fun table_spec :: "(string \<Rightarrow> string option) \<Rightarrow> table_op \<Rightarrow> string \<Rightarrow> string option" where
  "table_spec m (Set_op k v) = m(folded k \<mapsto> c_str v)"
| "table_spec m (Unset_op k) = m(folded k := None)"
| "table_spec m (Merge_op k v) =
     m(folded k \<mapsto> (case m (folded k) of None \<Rightarrow> c_str v | Some w \<Rightarrow> w @ '', '' @ c_str v))"
| "table_spec m Clear_op = Map.empty"

fun table_call :: "apr_table_api \<Rightarrow> table_heap \<Rightarrow> handle \<Rightarrow> table_op \<Rightarrow> method_result" where
  "table_call A H t (Set_op k v) = table_m_set A H t (Str k) (Str v)"
| "table_call A H t (Unset_op k) = table_m_unset A H t (Str k)"
| "table_call A H t (Merge_op k v) = table_m_merge A H t (Str k) (Str v)"
| "table_call A H t Clear_op = table_m_clear A H t"

fun table_calls :: "apr_table_api \<Rightarrow> ('x \<Rightarrow> handle) \<Rightarrow> table_heap \<Rightarrow> ('x \<times> table_op) list \<Rightarrow> table_heap option" where
  "table_calls A objs H [] = Some H"
| "table_calls A objs H ((x, p) # ps) =
     (case table_call A H (objs x) p of
        Some (Inr (_, H)) \<Rightarrow> table_calls A objs H ps
      | _ \<Rightarrow> None)"

definition contents :: "apr_table_api \<Rightarrow> table_heap \<Rightarrow> handle \<Rightarrow> string \<Rightarrow> string option" where
  "contents A H t k = Option.bind (table_elts H t) (\<lambda>e. apr_table_get A e k)"

lemma lower_lower [simp]: "ascii_lower (ascii_lower c) = ascii_lower c"
proof -
  have "of_char (char_of n :: char) = n" if "n < 256" for n :: nat using that by simp
  then show ?thesis by (simp add: ascii_lower_def code_def)
qed

lemma same_key_folded: "same_key (map ascii_lower k) k'  \<longleftrightarrow> same_key k k'"
  "same_key k (map ascii_lower k') \<longleftrightarrow> same_key k k'"
  by (simp_all add: same_key_def comp_def)

lemma contents_lower: "apr_table_laws A \<Longrightarrow> contents A H t (map ascii_lower k) = contents A H t k"
  by (simp add: contents_def) (metis apr_laws(8) same_key_folded(1) same_key_refl)

text \<open>One call on one object.\<close>

lemma table_call_contents:
  assumes "apr_table_laws A" "table_elts H t = Some e"
  shows "\<exists>H'. table_call A H t p = Some (Inr (Qnil, H')) \<and> (\<exists>e'. table_elts H' t = Some e') \<and>
     (\<forall>u. u \<noteq> t \<longrightarrow> table_elts H' u = table_elts H u) \<and>
     (\<forall>k. contents A H' t (map ascii_lower k) = table_spec (contents A H t) p (map ascii_lower k))"
proof -
  obtain q where q: "t = Some q" "th_tables H q = Some e" using assms(2) by (cases t) (auto simp: table_elts_def)
  have upd: "table_update f H t = Some (H\<lparr>th_tables := (th_tables H)(q \<mapsto> f e)\<rparr>)" for f
    by (simp add: table_update_def q)
  have elts: "table_elts (H\<lparr>th_tables := (th_tables H)(q \<mapsto> d)\<rparr>) u = (if u = t then Some d else table_elts H u)" for d u
    by (cases u) (auto simp: table_elts_def q)
  have now: "contents A H t k = apr_table_get A e k" for k by (simp add: contents_def assms(2))
  have low: "apr_table_get A e (map ascii_lower k) = apr_table_get A e k" for k
    using contents_lower [OF assms(1), of H t k] by (simp add: now)
  have unset: "apr_table_get A (apr_table_unset A d k) k' = (if same_key k k' then None else apr_table_get A d k')"
    and none: "apr_table_get A (apr_table_clear A d) k = None" for d k k'
    using assms(1) by (simp_all add: apr_table_laws_def)
  note laws = apr_laws(2,9) [OF assms(1)] unset none
  have key: "same_key (c_str k) (map ascii_lower k') \<longleftrightarrow> map ascii_lower k' = folded k" for k k'
    by (auto simp: same_key_folded) (auto simp: same_key_def folded_def)
  show ?thesis
  proof (cases p)
    case (Set_op k v)
    then show ?thesis by (simp add: table_mutators upd elts contents_def key assms(2) laws)
  next
    case (Unset_op k)
    then show ?thesis by (simp add: table_mutators upd elts contents_def key assms(2) laws)
  next
    case (Merge_op k v)
    have "contents A H t (folded k) = apr_table_get A e (c_str k)" unfolding folded_def by (simp add: now low)
    with Merge_op show ?thesis by (simp add: table_mutators upd elts contents_def key assms(2) laws)
  next
    case Clear_op
    then show ?thesis
      by (simp add: table_m_clear_def with_table_def table_clear_def upd elts contents_def laws)
  qed
qed

text \<open>The specification looks at a map under the keys it is asked for only.\<close>

lemma table_spec_cong:
  assumes "\<And>k. m (map ascii_lower k) = m' (map ascii_lower k)"
  shows "foldl table_spec m ps (map ascii_lower k) = foldl table_spec m' ps (map ascii_lower k)"
  using assms
proof (induction ps arbitrary: m m' k)
  case (Cons p ps)
  have "table_spec m p (map ascii_lower k) = table_spec m' p (map ascii_lower k)" for k
    using Cons.prems by (cases p) (simp_all add: folded_def)
  then show ?case using Cons.IH [of "table_spec m p" "table_spec m' p"] by simp
qed simp

lemma table_calls_contents:
  assumes "apr_table_laws A" "\<forall>x. table_elts H (objs x) \<noteq> None"
  shows "\<exists>H'. table_calls A objs H ps = Some H' \<and> (\<forall>x. table_elts H' (objs x) \<noteq> None) \<and>
     (\<forall>u. u \<notin> range objs \<longrightarrow> table_elts H' u = table_elts H u) \<and>
     (\<forall>x k. contents A H' (objs x) (map ascii_lower k) =
        foldl table_spec (contents A H (objs x)) (map snd (filter (\<lambda>(y, p). objs y = objs x) ps)) (map ascii_lower k))"
  using assms(2)
proof (induction ps arbitrary: H)
  case (Cons yp ps)
  obtain y p where yp: "yp = (y, p)" by (cases yp)
  from Cons.prems obtain e where "table_elts H (objs y) = Some e" by blast
  from table_call_contents [OF assms(1) this, of p] obtain H1 where H1: "table_call A H (objs y) p = Some (Inr (Qnil, H1))"
    "table_elts H1 (objs y) \<noteq> None" "\<And>u. u \<noteq> objs y \<Longrightarrow> table_elts H1 u = table_elts H u"
    "\<And>k. contents A H1 (objs y) (map ascii_lower k) = table_spec (contents A H (objs y)) p (map ascii_lower k)"
    by blast
  have all: "\<forall>x. table_elts H1 (objs x) \<noteq> None" using Cons.prems H1(2,3) by metis
  have frame: "contents A H1 (objs x) = contents A H (objs x)" if "objs y \<noteq> objs x" for x
    using H1(3) [of "objs x"] that by (auto simp: contents_def fun_eq_iff)
  from Cons.IH [OF all] obtain H' where H': "table_calls A objs H1 ps = Some H'" "\<forall>x. table_elts H' (objs x) \<noteq> None"
    "\<forall>u. u \<notin> range objs \<longrightarrow> table_elts H' u = table_elts H1 u"
    "\<And>x k. contents A H' (objs x) (map ascii_lower k) =
      foldl table_spec (contents A H1 (objs x)) (map snd (filter (\<lambda>(y, p). objs y = objs x) ps)) (map ascii_lower k)"
    by blast
  have "contents A H' (objs x) (map ascii_lower k) =
      foldl table_spec (contents A H (objs x)) (map snd (filter (\<lambda>(y, p). objs y = objs x) (yp # ps))) (map ascii_lower k)" for x k
  proof (cases "objs y = objs x")
    case True
    with H1(4) have "contents A H1 (objs x) (map ascii_lower k) = table_spec (contents A H (objs x)) p (map ascii_lower k)" for k
      by simp
    from table_spec_cong [where m = "contents A H1 (objs x)" and m' = "table_spec (contents A H (objs x)) p", OF this] True show ?thesis by (simp add: H'(4) yp)
  next
    case False
    then show ?thesis by (simp add: H'(4) yp frame)
  qed
  moreover have "u \<notin> range objs \<longrightarrow> table_elts H' u = table_elts H u" for u using H'(3) H1(3) by (metis rangeI)
  ultimately show ?case using H1(1) H'(1,2) yp by auto
qed simp

text \<open>
  C34. Ruby's tables are maps that ignore the case of keys and are shared by the objects with one handle: after
  any program of sets, unsets, merges and clears on any objects, \<open>get\<close> and \<open>has_key\<close> on an object give, under
  every spelling of every key, what the calls on the objects with its handle, and no others, have left there;
  tables of no object are as before. A Ruby string counts up to its first NUL, and an argument that is not a
  string raises TypeError.
\<close>

theorem ruby_table_is_map:
  assumes laws: "apr_table_laws A" and live: "\<forall>x. table_elts H (objs x) \<noteq> None"
  shows "\<exists>H'. table_calls A objs H ps = Some H' \<and> (\<forall>u. u \<notin> range objs \<longrightarrow> table_elts H' u = table_elts H u) \<and>
    (\<forall>x k. let found = foldl table_spec (contents A H (objs x)) (map snd (filter (\<lambda>(y, p). objs y = objs x) ps)) (folded k) in
       table_m_get A H' (objs x) (Str k) = Some (Inr (case found of None \<Rightarrow> Qnil | Some v \<Rightarrow> Str (c_str v), H')) \<and>
       table_m_has_key A H' (objs x) (Str k) = Some (Inr (if found = None then Qfalse else Qtrue, H'))) \<and>
    table_m_set A H t (Str k) (Fixnum n) = Some (Inl TypeError)"
proof -
  obtain H' where H': "table_calls A objs H ps = Some H'" "\<forall>x. table_elts H' (objs x) \<noteq> None"
    "\<forall>u. u \<notin> range objs \<longrightarrow> table_elts H' u = table_elts H u"
    "\<And>x k. contents A H' (objs x) (map ascii_lower k) =
      foldl table_spec (contents A H (objs x)) (map snd (filter (\<lambda>(y, p). objs y = objs x) ps)) (map ascii_lower k)"
    using table_calls_contents [OF laws live] by blast
  have get: "table_get A H' (objs x) (c_str k) = Some (contents A H' (objs x) (folded k))" for x k
  proof -
    obtain e where "table_elts H' (objs x) = Some e" using H'(2) by blast
    moreover have "contents A H' (objs x) (folded k) = contents A H' (objs x) (c_str k)"
      unfolding folded_def by (rule contents_lower [OF laws])
    ultimately show ?thesis by (simp add: table_get_def contents_def)
  qed
  have found: "contents A H' (objs x) (folded k) =
      foldl table_spec (contents A H (objs x)) (map snd (filter (\<lambda>(y, p). objs y = objs x) ps)) (folded k)" for x k
    unfolding folded_def by (rule H'(4))
  show ?thesis
    using H'(1,3)
    by (auto simp: table_m_get_def table_m_has_key_def table_m_set_def two_strings_def one_string_def get found Let_def
        split: option.split)
qed

theorem ruby_table_is_map_witness:
  "\<exists>H'. table_calls assoc_table (\<lambda>_ :: nat. Some 0) \<lparr>th_tables = [0 \<mapsto> []], th_next = 1\<rparr>
       [(0, Set_op ''Host'' ''a''), (1, Merge_op ''HOST'' ''b'')] = Some H' \<and>
     table_m_get assoc_table H' (Some 0) (Str ''host'') = Some (Inr (Str ''a, b'', H'))"
proof -
  let ?H = "\<lparr>th_tables = [0 \<mapsto> []], th_next = 1\<rparr>" and ?ps = "[(0 :: nat, Set_op ''Host'' ''a''), (1, Merge_op ''HOST'' ''b'')]"
  have live: "\<forall>x :: nat. table_elts ?H ((\<lambda>_. Some 0) x) \<noteq> None" by (simp add: table_elts_def)
  have "folded ''Host'' = ''host''" "folded ''HOST'' = ''host''" "folded ''host'' = ''host''" "c_str ''a'' = ''a''" "c_str ''b'' = ''b''"
    "c_str ''a, b'' = ''a, b''" by code_simp+
  then show ?thesis
    using ruby_table_is_map [OF assoc_table_laws live, of ?ps "Some 0" "[]" 0]
    by (fastforce simp: Let_def)
qed

section \<open>The array class\<close>

text \<open>
  ruby_apr_array.cpp wraps an array header whose elements are taken to be C strings. Ruby code cannot
  create one, and \<open>initialize\<close> is registered with an argument it does not take.
\<close>

definition array_allocator :: "unit \<Rightarrow> nat ruby_result" where
  "array_allocator cls = Inl (RuntimeError ''Cannot create a ARP::array object from Ruby'')"

definition array_m_size :: "string list \<Rightarrow> ruby_value" where
  "array_m_size elts = Fixnum (int (length elts))"

fun array_each_loop :: "(ruby_value \<Rightarrow> 'w \<Rightarrow> 'w) \<Rightarrow> string list \<Rightarrow> nat \<Rightarrow> nat \<Rightarrow> 'w \<Rightarrow> 'w option" where
  "array_each_loop blk elts i 0 w = Some w"
| "array_each_loop blk elts i (Suc n) w =
     (case rd elts i of
        None \<Rightarrow> None
      | Some e \<Rightarrow> array_each_loop blk elts (Suc i) n (blk (Arr [Str (c_str e)]) w))"

definition array_m_each :: "(ruby_value \<Rightarrow> 'w \<Rightarrow> 'w) \<Rightarrow> string list \<Rightarrow> 'w \<Rightarrow> (ruby_value \<times> 'w) option" where
  "array_m_each blk elts w = map_option (Pair Qnil) (array_each_loop blk elts 0 (length elts) w)"

lemma array_m_each_eq:
  "array_m_each blk elts w = Some (Qnil, fold (\<lambda>e. blk (Arr [Str (c_str e)])) elts w)"
proof -
  have "i \<le> length elts \<Longrightarrow> array_each_loop blk elts i (length elts - i) w =
      Some (fold (\<lambda>e. blk (Arr [Str (c_str e)])) (drop i elts) w)" for i w
  proof (induction "length elts - i" arbitrary: i w)
    case (Suc n)
    then have i: "i < length elts" and n: "n = length elts - Suc i" by simp_all
    have "array_each_loop blk elts i (Suc n) w =
        Some (fold (\<lambda>e. blk (Arr [Str (c_str e)])) (drop (Suc i) elts) (blk (Arr [Str (c_str (elts ! i))]) w))"
      using Suc(1) [OF n] i n by (simp add: rd_def)
    then show ?case using i Suc(2) by (simp add: Cons_nth_drop_Suc [symmetric])
  qed simp
  from this [of 0] show ?thesis by (simp add: array_m_each_def)
qed

end
