(* ===== verification/Config.thy ===== *)
theory Config
  imports Apr_Table
begin

text \<open>
  The configuration phase: mod_ruby.c (the directive handlers, the directive table, creation and
  merging of configurations), module.h (the two configuration structures) and common.c (access to
  them). Option tables are lists of entries under APR's table functions; an \<open>apr_hash_t\<close> is a map. The
  environment that \<open>RubyEnv\<close> changes is part of the state.
\<close>

section \<open>State\<close>

type_synonym apr_hash = "string \<Rightarrow> string option"

record ruby_config =
  cfg_handler :: c_ptr
  cfg_default_handler_module :: c_ptr
  cfg_default_handler_class :: c_ptr
  cfg_default_handler_method :: c_ptr
  cfg_options :: entries
  cfg_handlers :: "string \<Rightarrow> apr_hash option"

record ruby_dir_config =
  dir_dir :: c_ptr
  dir_options :: entries

text \<open>
  A directive runs with the server's configuration, the directory configuration it stands in and the
  answer of \<open>ap_check_cmd_context(parms, NOT_IN_DIR_LOC_FILE)\<close>, which is NULL outside directories.
\<close>

record config_state =
  cs_server :: ruby_config
  cs_dir :: ruby_dir_config
  cs_env :: "string \<Rightarrow> string option"

type_synonym cmd_context = "string option"
type_synonym directive_result = "c_ptr \<times> config_state"

definition create_config :: ruby_config where
  "create_config =
     \<lparr>cfg_handler = None, cfg_default_handler_module = None, cfg_default_handler_class = None,
      cfg_default_handler_method = None, cfg_options = [], cfg_handlers = (\<lambda>_. None)\<rparr>"

definition create_dir_conf :: "c_ptr \<Rightarrow> ruby_dir_config" where
  "create_dir_conf dir = \<lparr>dir_dir = dir, dir_options = []\<rparr>"

definition merge_dir_conf :: "apr_table_api \<Rightarrow> ruby_dir_config \<Rightarrow> ruby_dir_config \<Rightarrow> ruby_dir_config" where
  "merge_dir_conf A dir_current dir_new =
     \<lparr>dir_dir = dir_dir dir_new,
      dir_options = apr_table_compress_set A
        (apr_table_overlay A (dir_options dir_current) (dir_options dir_new))\<rparr>"

section \<open>Directives\<close>

definition set_server :: "(ruby_config \<Rightarrow> ruby_config) \<Rightarrow> config_state \<Rightarrow> config_state" where
  "set_server f st = st\<lparr>cs_server := f (cs_server st)\<rparr>"

definition set_dir_option :: "apr_table_api \<Rightarrow> string \<Rightarrow> string \<Rightarrow> config_state \<Rightarrow> config_state" where
  "set_dir_option A key val st =
     st\<lparr>cs_dir := (cs_dir st)\<lparr>dir_options := apr_table_set A (dir_options (cs_dir st)) key val\<rparr>\<rparr>"

definition set_ruby_default_handler_module ::
    "apr_table_api \<Rightarrow> cmd_context \<Rightarrow> c_ptr \<Rightarrow> config_state \<Rightarrow> directive_result" where
  "set_ruby_default_handler_module A ctx arg st =
     (case arg of
        None \<Rightarrow> (None, st)
      | Some a \<Rightarrow>
          if ctx = None then (None, set_server (cfg_default_handler_module_update (\<lambda>_. Some a)) st)
          else (None, set_dir_option A ''RubyHandlerModule'' a st))"

definition set_ruby_default_handler_class ::
    "apr_table_api \<Rightarrow> cmd_context \<Rightarrow> c_ptr \<Rightarrow> config_state \<Rightarrow> directive_result" where
  "set_ruby_default_handler_class A ctx arg st =
     (case arg of
        None \<Rightarrow> (None, st)
      | Some a \<Rightarrow>
          if ctx = None then (None, set_server (cfg_default_handler_class_update (\<lambda>_. Some a)) st)
          else (None, set_dir_option A ''RubyHandlerClass'' a st))"

definition set_ruby_default_handler_method ::
    "apr_table_api \<Rightarrow> cmd_context \<Rightarrow> c_ptr \<Rightarrow> config_state \<Rightarrow> directive_result" where
  "set_ruby_default_handler_method A ctx arg st =
     (case arg of
        None \<Rightarrow> (None, st)
      | Some a \<Rightarrow>
          if ctx = None then (None, set_server (cfg_default_handler_method_update (\<lambda>_. Some a)) st)
          else (None, set_dir_option A ''RubyHandlerMethod'' a st))"

definition set_ruby_config_var ::
    "apr_table_api \<Rightarrow> cmd_context \<Rightarrow> c_ptr \<Rightarrow> string \<Rightarrow> config_state \<Rightarrow> directive_result" where
  "set_ruby_config_var A ctx arg1 arg2 st =
     (case arg1 of
        None \<Rightarrow> (None, st)
      | Some key \<Rightarrow>
          if ctx = None then
            (None, set_server (cfg_options_update (\<lambda>opts. apr_table_set A opts key arg2)) st)
          else (None, set_dir_option A key arg2 st))"

text \<open>\<open>setenv(name, value, 1)\<close> refuses an empty name and one with an equals sign; its result is ignored.\<close>

definition setenv :: "string \<Rightarrow> string \<Rightarrow> (string \<Rightarrow> string option) \<Rightarrow> string \<Rightarrow> string option" where
  "setenv name val env = (if name = [] \<or> CHR ''='' \<in> set name then env else env(name \<mapsto> val))"

definition set_ruby_env_var :: "c_ptr \<Rightarrow> c_ptr \<Rightarrow> config_state \<Rightarrow> directive_result" where
  "set_ruby_env_var arg1 arg2 st =
     (case arg1 of
        None \<Rightarrow> (None, st)
      | Some name \<Rightarrow>
          (case arg2 of
             None \<Rightarrow> (None, st)
           | Some val \<Rightarrow> (None, st\<lparr>cs_env := setenv name val (cs_env st)\<rparr>)))"

definition set_ruby_handler ::
    "apr_table_api \<Rightarrow> cmd_context \<Rightarrow> c_ptr \<Rightarrow> config_state \<Rightarrow> directive_result" where
  "set_ruby_handler A ctx arg st =
     (case arg of
        None \<Rightarrow> (None, st)
      | Some a \<Rightarrow>
          if ctx = None then (None, set_server (cfg_handler_update (\<lambda>_. Some a)) st)
          else (None, set_dir_option A ''RubyHandler'' a st))"

text \<open>Outside directories \<open>RubyAccessHandler\<close> is stored in the very field of \<open>RubyHandler\<close>.\<close>

definition set_ruby_access_handler ::
    "apr_table_api \<Rightarrow> cmd_context \<Rightarrow> c_ptr \<Rightarrow> config_state \<Rightarrow> directive_result" where
  "set_ruby_access_handler A ctx arg st =
     (case arg of
        None \<Rightarrow> (None, st)
      | Some a \<Rightarrow>
          if ctx = None then (None, set_server (cfg_handler_update (\<lambda>_. Some a)) st)
          else (None, set_dir_option A ''RubyAccessHandler'' a st))"

definition set_ruby_handler_declare :: "cmd_context \<Rightarrow> c_ptr \<Rightarrow> config_state \<Rightarrow> directive_result" where
  "set_ruby_handler_declare ctx arg st =
     (case arg of
        None \<Rightarrow> (None, st)
      | Some name \<Rightarrow>
          (case ctx of
             Some errmsg \<Rightarrow> (Some errmsg, st)
           | None \<Rightarrow>
               (case cfg_handlers (cs_server st) name of
                  None \<Rightarrow> (None, set_server (cfg_handlers_update (\<lambda>hs. hs(name \<mapsto> (\<lambda>_. None)))) st)
                | Some _ \<Rightarrow> (None, st))))"

text \<open>What \<open>%s\<close> prints for a NULL pointer in APR's formatter.\<close>

definition fmt_s :: "c_ptr \<Rightarrow> string" where
  "fmt_s p = (case p of None \<Rightarrow> ''(null)'' | Some s \<Rightarrow> s)"

definition ruby_handler_set_params ::
    "cmd_context \<Rightarrow> string \<Rightarrow> c_ptr \<Rightarrow> c_ptr \<Rightarrow> config_state \<Rightarrow> directive_result" where
  "ruby_handler_set_params ctx key handler val st =
     (case (handler, val) of
        (Some h, Some v) \<Rightarrow>
          (case ctx of
             Some errmsg \<Rightarrow> (Some errmsg, st)
           | None \<Rightarrow>
               (case cfg_handlers (cs_server st) h of
                  None \<Rightarrow> (Some (''Handler '' @ h @ '' is not registered''), st)
                | Some h_config \<Rightarrow>
                    (None, set_server (cfg_handlers_update (\<lambda>hs. hs(h \<mapsto> h_config(key \<mapsto> v)))) st)))
      | _ \<Rightarrow> (Some (''Handler '' @ fmt_s handler @ '' '' @ fmt_s val @ '' arguments not provided''), st))"

definition set_ruby_handler_config :: "cmd_context \<Rightarrow> c_ptr \<Rightarrow> string \<Rightarrow> c_ptr \<Rightarrow> config_state \<Rightarrow> directive_result" where
  "set_ruby_handler_config ctx handler key val st = ruby_handler_set_params ctx key handler val st"

definition set_ruby_handler_module :: "cmd_context \<Rightarrow> c_ptr \<Rightarrow> c_ptr \<Rightarrow> config_state \<Rightarrow> directive_result" where
  "set_ruby_handler_module ctx arg1 arg2 st = ruby_handler_set_params ctx ''RubyHandlerModule'' arg1 arg2 st"

definition set_ruby_handler_class :: "cmd_context \<Rightarrow> c_ptr \<Rightarrow> c_ptr \<Rightarrow> config_state \<Rightarrow> directive_result" where
  "set_ruby_handler_class ctx arg1 arg2 st = ruby_handler_set_params ctx ''RubyHandlerClass'' arg1 arg2 st"

definition set_ruby_handler_method :: "cmd_context \<Rightarrow> c_ptr \<Rightarrow> c_ptr \<Rightarrow> config_state \<Rightarrow> directive_result" where
  "set_ruby_handler_method ctx arg1 arg2 st = ruby_handler_set_params ctx ''RubyHandlerMethod'' arg1 arg2 st"

section \<open>The directive table\<close>

text \<open>
  One line of a configuration file, as Apache calls the table's function for it: the name, without
  regard to case, selects the entry, the number of arguments must be the entry's, and an entry with
  \<open>RSRC_CONF\<close> alone is refused inside directories.
\<close>

datatype command_func =
  Take1 "apr_table_api \<Rightarrow> cmd_context \<Rightarrow> string \<Rightarrow> config_state \<Rightarrow> directive_result"
| Take2 "apr_table_api \<Rightarrow> cmd_context \<Rightarrow> string \<Rightarrow> string \<Rightarrow> config_state \<Rightarrow> directive_result"
| Take3 "apr_table_api \<Rightarrow> cmd_context \<Rightarrow> string \<Rightarrow> string \<Rightarrow> string \<Rightarrow> config_state \<Rightarrow> directive_result"

datatype req_override = RSRC_CONF | RSRC_CONF_OR_ALL

definition mod_ruby_cmds :: "(string \<times> command_func \<times> req_override) list" where
  "mod_ruby_cmds =
     [(''RubyDefaultHandlerModule'',
        Take1 (\<lambda>A ctx a. set_ruby_default_handler_module A ctx (Some a)), RSRC_CONF_OR_ALL),
      (''RubyDefaultHandlerClass'',
        Take1 (\<lambda>A ctx a. set_ruby_default_handler_class A ctx (Some a)), RSRC_CONF_OR_ALL),
      (''RubyDefaultHandlerMethod'',
        Take1 (\<lambda>A ctx a. set_ruby_default_handler_method A ctx (Some a)), RSRC_CONF_OR_ALL),
      (''RubyHandler'', Take1 (\<lambda>A ctx a. set_ruby_handler A ctx (Some a)), RSRC_CONF_OR_ALL),
      (''RubyAccessHandler'', Take1 (\<lambda>A ctx a. set_ruby_access_handler A ctx (Some a)), RSRC_CONF_OR_ALL),
      (''RubyConfig'', Take2 (\<lambda>A ctx a b. set_ruby_config_var A ctx (Some a) b), RSRC_CONF_OR_ALL),
      (''RubyEnv'', Take2 (\<lambda>A ctx a b. set_ruby_env_var (Some a) (Some b)), RSRC_CONF_OR_ALL),
      (''RubyHandlerDeclare'', Take1 (\<lambda>A ctx a. set_ruby_handler_declare ctx (Some a)), RSRC_CONF),
      (''RubyHandlerModule'', Take2 (\<lambda>A ctx a b. set_ruby_handler_module ctx (Some a) (Some b)), RSRC_CONF),
      (''RubyHandlerClass'', Take2 (\<lambda>A ctx a b. set_ruby_handler_class ctx (Some a) (Some b)), RSRC_CONF),
      (''RubyHandlerMethod'', Take2 (\<lambda>A ctx a b. set_ruby_handler_method ctx (Some a) (Some b)), RSRC_CONF),
      (''RubyHandlerConfig'',
        Take3 (\<lambda>A ctx a b c. set_ruby_handler_config ctx (Some a) b (Some c)), RSRC_CONF)]"

definition find_command :: "string \<Rightarrow> (command_func \<times> req_override) option" where
  "find_command name = map_option snd (find (\<lambda>(n, _). same_key n name) mod_ruby_cmds)"

fun call_command ::
    "command_func \<Rightarrow> apr_table_api \<Rightarrow> cmd_context \<Rightarrow> string list \<Rightarrow> config_state \<Rightarrow> directive_result" where
  "call_command (Take1 f) A ctx [a] st = f A ctx a st"
| "call_command (Take2 f) A ctx [a, b] st = f A ctx a b st"
| "call_command (Take3 f) A ctx [a, b, c] st = f A ctx a b c st"
| "call_command _ A ctx _ st = (Some ''wrong number of arguments'', st)"

definition run_directive ::
    "apr_table_api \<Rightarrow> cmd_context \<Rightarrow> string \<Rightarrow> string list \<Rightarrow> config_state \<Rightarrow> directive_result" where
  "run_directive A ctx name args st =
     (case find_command name of
        None \<Rightarrow> (Some ''unknown directive'', st)
      | Some (f, allowed) \<Rightarrow>
          if ctx \<noteq> None \<and> allowed = RSRC_CONF then (Some ''not allowed here'', st)
          else call_command f A ctx args st)"

text \<open>A file is a sequence of lines; the first error stops the server.\<close>

fun run_config ::
    "apr_table_api \<Rightarrow> (cmd_context \<times> string \<times> string list) list \<Rightarrow> config_state \<Rightarrow> directive_result" where
  "run_config A [] st = (None, st)"
| "run_config A ((ctx, name, args) # ds) st =
     (case run_directive A ctx name args st of
        (Some e, st') \<Rightarrow> (Some e, st')
      | (None, st') \<Rightarrow> run_config A ds st')"

section \<open>Access (common.c)\<close>

text \<open>A request's view of the configuration: its server's and the merged one of its directory.\<close>

definition ruby_handler_config :: "ruby_config \<Rightarrow> string \<Rightarrow> apr_hash option" where
  "ruby_handler_config cfg name = cfg_handlers cfg name"

section \<open>Invariant and errors\<close>

text \<open>Option tables never hold two entries with one key.\<close>

definition config_ok :: "config_state \<Rightarrow> bool" where
  "config_ok st \<longleftrightarrow> distinct_keys (cfg_options (cs_server st)) \<and> distinct_keys (dir_options (cs_dir st))"

lemma create_ok:
  "config_ok \<lparr>cs_server = create_config, cs_dir = create_dir_conf dir, cs_env = env\<rparr>"
  by (simp add: config_ok_def create_config_def create_dir_conf_def distinct_keys_def)

lemma distinct_keys_set: "apr_table_laws A \<Longrightarrow> distinct_keys e \<Longrightarrow> distinct_keys (apr_table_set A e k v)"
  by (simp add: apr_table_laws_def)

lemma config_ok_dir: "apr_table_laws A \<Longrightarrow> config_ok st \<Longrightarrow> config_ok (set_dir_option A k v st)"
  by (simp add: config_ok_def set_dir_option_def distinct_keys_set)

lemma config_ok_server:
  "config_ok st \<Longrightarrow> distinct_keys (cfg_options (f (cs_server st))) \<Longrightarrow> config_ok (set_server f st)"
  by (simp add: config_ok_def set_server_def)

lemmas directive_defs =
  set_ruby_default_handler_module_def set_ruby_default_handler_class_def
  set_ruby_default_handler_method_def set_ruby_config_var_def set_ruby_env_var_def
  set_ruby_handler_def set_ruby_access_handler_def set_ruby_handler_declare_def
  set_ruby_handler_config_def set_ruby_handler_module_def set_ruby_handler_class_def
  set_ruby_handler_method_def ruby_handler_set_params_def

lemma config_ok_options: "config_ok st \<Longrightarrow> distinct_keys (cfg_options (cs_server st))"
  by (simp add: config_ok_def)

lemma config_ok_env: "config_ok st \<Longrightarrow> config_ok (st\<lparr>cs_env := env\<rparr>)"
  by (simp add: config_ok_def)

text \<open>What every entry of the table satisfies: it keeps the invariant, and an error changes nothing.\<close>

definition command_ok :: "apr_table_api \<Rightarrow> command_func \<Rightarrow> bool" where
  "command_ok A f \<longleftrightarrow> (\<forall>ctx args st. config_ok st \<longrightarrow>
     config_ok (snd (call_command f A ctx args st)) \<and>
     (fst (call_command f A ctx args st) \<noteq> None \<longrightarrow> snd (call_command f A ctx args st) = st))"

lemma command_ok_Take1:
  assumes "\<And>ctx a st. config_ok st \<Longrightarrow> config_ok (snd (g A ctx a st)) \<and> (fst (g A ctx a st) \<noteq> None \<longrightarrow> snd (g A ctx a st) = st)"
  shows "command_ok A (Take1 g)"
proof -
  have "args = [a] \<or> call_command (Take1 g) A ctx args st = (Some ''wrong number of arguments'', st)"
    if "a = hd args" for ctx args st a using that by (cases args; cases "tl args") auto
  then show ?thesis using assms unfolding command_ok_def by (metis call_command.simps(1) fst_conv snd_conv)
qed

lemma command_ok_Take2:
  assumes "\<And>ctx a b st. config_ok st \<Longrightarrow> config_ok (snd (g A ctx a b st)) \<and> (fst (g A ctx a b st) \<noteq> None \<longrightarrow> snd (g A ctx a b st) = st)"
  shows "command_ok A (Take2 g)"
proof -
  have "(\<exists>a b. args = [a, b]) \<or> call_command (Take2 g) A ctx args st = (Some ''wrong number of arguments'', st)"
    for ctx args st by (cases args; cases "tl args"; cases "tl (tl args)") auto
  then show ?thesis using assms unfolding command_ok_def by (metis call_command.simps(2) fst_conv snd_conv)
qed

lemma command_ok_Take3:
  assumes "\<And>ctx a b c st. config_ok st \<Longrightarrow> config_ok (snd (g A ctx a b c st)) \<and> (fst (g A ctx a b c st) \<noteq> None \<longrightarrow> snd (g A ctx a b c st) = st)"
  shows "command_ok A (Take3 g)"
proof -
  have "(\<exists>a b c. args = [a, b, c]) \<or> call_command (Take3 g) A ctx args st = (Some ''wrong number of arguments'', st)"
    for ctx args st by (cases args; cases "tl args"; cases "tl (tl args)"; cases "tl (tl (tl args))") auto
  then show ?thesis using assms unfolding command_ok_def by (metis call_command.simps(3) fst_conv snd_conv)
qed

lemma mod_ruby_cmds_ok:
  assumes "apr_table_laws A" "(n, f, ov) \<in> set mod_ruby_cmds"
  shows "command_ok A f"
proof -
  note intros = command_ok_Take1 command_ok_Take2 command_ok_Take3
  note keep = config_ok_dir [OF assms(1)] config_ok_server config_ok_options config_ok_env distinct_keys_set [OF assms(1)]
  show ?thesis using assms(2) unfolding mod_ruby_cmds_def
    by (auto intro!: intros simp: directive_defs keep split: option.split)
qed

lemma find_command_mem: "find_command name = Some r \<Longrightarrow> \<exists>n. (n, r) \<in> set mod_ruby_cmds"
  by (auto simp: find_command_def find_Some_iff) (metis nth_mem)

lemma run_directive_ok:
  assumes "apr_table_laws A" "config_ok st"
  shows "config_ok (snd (run_directive A ctx name args st)) \<and>
     (fst (run_directive A ctx name args st) \<noteq> None \<longrightarrow> snd (run_directive A ctx name args st) = st)"
proof (cases "find_command name")
  case None
  with assms(2) show ?thesis by (simp add: run_directive_def)
next
  case (Some r)
  then obtain n where "(n, r) \<in> set mod_ruby_cmds" using find_command_mem by blast
  then have "command_ok A (fst r)" using mod_ruby_cmds_ok [OF assms(1), of n "fst r" "snd r"] by simp
  with Some assms(2) show ?thesis by (cases r) (auto simp: run_directive_def command_ok_def)
qed

text \<open>
  C25. Whatever lines a configuration file has, in whatever contexts, the option tables of the server
  and of the directory never hold a key twice, and a line that is an error leaves the configuration
  and the environment as they were before it.
\<close>

theorem config_file_invariant:
  assumes "apr_table_laws A" "config_ok st"
  shows "config_ok (snd (run_config A ds st)) \<and>
         (fst (run_directive A ctx name args st) \<noteq> None \<longrightarrow> snd (run_directive A ctx name args st) = st)"
proof
  show "config_ok (snd (run_config A ds st))"
    using assms(2)
  proof (induction ds arbitrary: st)
    case (Cons d ds)
    obtain ctx name args where d: "d = (ctx, name, args)" by (cases d)
    have "config_ok (snd (run_directive A ctx name args st))"
      using run_directive_ok [OF assms(1) Cons.prems] by blast
    with Cons.IH show ?case
      by (auto simp: d split: prod.split option.split)
  qed simp
  show "fst (run_directive A ctx name args st) \<noteq> None \<longrightarrow> snd (run_directive A ctx name args st) = st"
    using run_directive_ok [OF assms] by blast
qed

theorem config_file_invariant_witness:
  "config_ok (snd (run_config assoc_table [(None, ''RubyConfig'', [''a'', ''b'']), (Some ''in dir'', ''rubyconfig'', [''A'', ''c''])]
     \<lparr>cs_server = create_config, cs_dir = create_dir_conf None, cs_env = (\<lambda>_. None)\<rparr>))"
  using config_file_invariant [OF assoc_table_laws create_ok] by blast

section \<open>Merging directory configurations\<close>

definition dir_lookup :: "apr_table_api \<Rightarrow> ruby_dir_config \<Rightarrow> string \<Rightarrow> string option" where
  "dir_lookup A cfg k = apr_table_get A (dir_options cfg) k"

lemma find_append: "find P (xs @ ys) = (case find P xs of None \<Rightarrow> find P ys | Some z \<Rightarrow> Some z)"
  by (induction xs) auto

lemma last_entry_append:
  "last_entry (e @ e') k = (case last_entry e' k of None \<Rightarrow> last_entry e k | Some v \<Rightarrow> Some v)"
  by (simp add: last_entry_def find_append split: option.split)

lemma merge_lookup:
  assumes "apr_table_laws A" "distinct_keys (dir_options a)" "distinct_keys (dir_options b)"
  shows "dir_lookup A (merge_dir_conf A a b) k =
     (case dir_lookup A b k of None \<Rightarrow> dir_lookup A a k | Some v \<Rightarrow> Some v)"
    and "distinct_keys (dir_options (merge_dir_conf A a b))"
  using assms(2,3) by (simp_all add: dir_lookup_def merge_dir_conf_def apr_laws [OF assms(1)] last_entry_append split: option.split)

text \<open>
  C11. Merging directory configurations: what the inner one sets, in any spelling of the key, overrides
  the outer one, everything else is inherited, the name is the inner one's, the invariant holds
  again; merging is associative, and an empty configuration is neutral on either side.
\<close>

theorem merge_dir_conf_overrides:
  assumes "apr_table_laws A" "distinct_keys (dir_options a)" "distinct_keys (dir_options b)" "distinct_keys (dir_options c)"
  shows "dir_lookup A (merge_dir_conf A a b) k =
           (case dir_lookup A b k of None \<Rightarrow> dir_lookup A a k | Some v \<Rightarrow> Some v) \<and>
         dir_dir (merge_dir_conf A a b) = dir_dir b \<and>
         distinct_keys (dir_options (merge_dir_conf A a b)) \<and>
         dir_lookup A (merge_dir_conf A (merge_dir_conf A a b) c) k =
           dir_lookup A (merge_dir_conf A a (merge_dir_conf A b c)) k \<and>
         dir_lookup A (merge_dir_conf A (create_dir_conf d) a) k = dir_lookup A a k \<and>
         dir_lookup A (merge_dir_conf A a (create_dir_conf d)) k = dir_lookup A a k"
proof -
  have "distinct_keys (dir_options (create_dir_conf d))" "dir_lookup A (create_dir_conf d) k = None"
    by (simp_all add: create_dir_conf_def dir_lookup_def distinct_keys_def apr_laws [OF assms(1)])
  with assms show ?thesis
    by (simp add: merge_lookup split: option.split) (simp add: merge_dir_conf_def)
qed

theorem merge_dir_conf_overrides_witness:
  "dir_lookup assoc_table (merge_dir_conf assoc_table \<lparr>dir_dir = None, dir_options = [(''K'', ''outer'')]\<rparr>
     \<lparr>dir_dir = None, dir_options = [(''k'', ''inner'')]\<rparr>) ''k'' = Some ''inner''"
proof -
  have "distinct_keys [(x, y)]" for x y by (simp add: distinct_keys_def)
  then show ?thesis
    using merge_dir_conf_overrides [OF assoc_table_laws, of "\<lparr>dir_dir = None, dir_options = [(''K'', ''outer'')]\<rparr>"
        "\<lparr>dir_dir = None, dir_options = [(''k'', ''inner'')]\<rparr>" "\<lparr>dir_dir = None, dir_options = [(''k'', ''inner'')]\<rparr>" "''k''" None]
    by (simp add: dir_lookup_def assoc_table_def)
qed

section \<open>Declared handlers\<close>

text \<open>The server-level lines about handlers, and what a file of them means.\<close>

datatype handler_line =
  Declare string | Set_module string string | Set_class string string | Set_method string string |
  Set_config string string string

fun line_directive :: "handler_line \<Rightarrow> string \<times> string list" where
  "line_directive (Declare h) = (''RubyHandlerDeclare'', [h])"
| "line_directive (Set_module h v) = (''RubyHandlerModule'', [h, v])"
| "line_directive (Set_class h v) = (''RubyHandlerClass'', [h, v])"
| "line_directive (Set_method h v) = (''RubyHandlerMethod'', [h, v])"
| "line_directive (Set_config h k v) = (''RubyHandlerConfig'', [h, k, v])"

fun line_param :: "handler_line \<Rightarrow> (string \<times> string \<times> string) option" where
  "line_param (Declare h) = None"
| "line_param (Set_module h v) = Some (h, ''RubyHandlerModule'', v)"
| "line_param (Set_class h v) = Some (h, ''RubyHandlerClass'', v)"
| "line_param (Set_method h v) = Some (h, ''RubyHandlerMethod'', v)"
| "line_param (Set_config h k v) = Some (h, k, v)"

text \<open>Every parameter stands behind its handler's declaration.\<close>

definition declared_first :: "handler_line list \<Rightarrow> bool" where
  "declared_first ls \<longleftrightarrow>
     (\<forall>i < length ls. \<forall>(h, _) \<in> set_option (line_param (ls ! i)). Declare h \<in> set (take i ls))"

text \<open>The last value the file gives to a handler's parameter.\<close>

definition last_param :: "handler_line list \<Rightarrow> string \<Rightarrow> string \<Rightarrow> string option" where
  "last_param ls h k = map_option (\<lambda>(_, _, v). v) (find (\<lambda>(h', k', _). h' = h \<and> k' = k) (rev (List.map_filter line_param ls)))"

lemma handler_commands:
  "find_command ''RubyHandlerDeclare'' = Some (Take1 (\<lambda>A ctx a. set_ruby_handler_declare ctx (Some a)), RSRC_CONF)"
  "find_command ''RubyHandlerModule'' = Some (Take2 (\<lambda>A ctx a b. set_ruby_handler_module ctx (Some a) (Some b)), RSRC_CONF)"
  "find_command ''RubyHandlerClass'' = Some (Take2 (\<lambda>A ctx a b. set_ruby_handler_class ctx (Some a) (Some b)), RSRC_CONF)"
  "find_command ''RubyHandlerMethod'' = Some (Take2 (\<lambda>A ctx a b. set_ruby_handler_method ctx (Some a) (Some b)), RSRC_CONF)"
  "find_command ''RubyHandlerConfig'' =
     Some (Take3 (\<lambda>A ctx a b c. set_ruby_handler_config ctx (Some a) b (Some c)), RSRC_CONF)"
  unfolding find_command_def mod_ruby_cmds_def
  by (simp_all add: same_key_def ascii_lower_def code_def char_of_def bit_0 bit_simps)

definition run_handler_lines :: "apr_table_api \<Rightarrow> handler_line list \<Rightarrow> config_state \<Rightarrow> directive_result" where
  "run_handler_lines A ls st = run_config A (map (\<lambda>l. (None, line_directive l)) ls) st"

lemma run_line_declare:
  "run_directive A None ''RubyHandlerDeclare'' [h] st =
     (None, st\<lparr>cs_server := (cs_server st)\<lparr>cfg_handlers := (cfg_handlers (cs_server st))
        (h \<mapsto> (case cfg_handlers (cs_server st) h of None \<Rightarrow> (\<lambda>_. None) | Some c \<Rightarrow> c))\<rparr>\<rparr>)"
  by (auto simp: run_directive_def handler_commands set_ruby_handler_declare_def set_server_def fun_upd_idem
      split: option.split)

lemma run_line_param:
  assumes "line_param l = Some (h, k, v)"
  shows "run_directive A None (fst (line_directive l)) (snd (line_directive l)) st = ruby_handler_set_params None k (Some h) (Some v) st"
  using assms by (cases l) (auto simp: run_directive_def handler_commands directive_defs)

lemma run_config_append:
  "run_config A (ds @ es) st =
     (case run_config A ds st of (Some e, st') \<Rightarrow> (Some e, st') | (None, st') \<Rightarrow> run_config A es st')"
  by (induction ds arbitrary: st) (auto split: prod.split option.split)

lemma declared_first_snoc:
  "declared_first (ls @ [l]) \<longleftrightarrow>
     declared_first ls \<and> (\<forall>(h, _) \<in> set_option (line_param l). Declare h \<in> set ls)"
  by (auto simp: declared_first_def nth_append All_less_Suc)

lemma last_param_snoc:
  "last_param (ls @ [l]) h k =
     (case line_param l of
        Some (h', k', v) \<Rightarrow> if h' = h \<and> k' = k then Some v else last_param ls h k
      | None \<Rightarrow> last_param ls h k)"
  by (auto simp: last_param_def map_filter_def split: option.split)

lemma last_param_undeclared: "declared_first ls \<Longrightarrow> Declare h \<notin> set ls \<Longrightarrow> last_param ls h k = None"
proof (induction ls rule: rev_induct)
  case (snoc l ls)
  then show ?case by (auto simp: declared_first_snoc last_param_snoc split: option.split)
qed (simp add: last_param_def map_filter_def)

lemma handler_lines_gen:
  assumes "cfg_handlers (cs_server st) = (\<lambda>_. None)"
  shows "(declared_first ls \<longrightarrow> fst (run_handler_lines A ls st) = None \<and>
            cfg_handlers (cs_server (snd (run_handler_lines A ls st))) =
              (\<lambda>h. if Declare h \<in> set ls then Some (last_param ls h) else None)) \<and>
         (\<not> declared_first ls \<longrightarrow>
            (\<exists>h. fst (run_handler_lines A ls st) = Some (''Handler '' @ h @ '' is not registered'')))"
proof (induction ls rule: rev_induct)
  case Nil
  then show ?case using assms by (simp add: run_handler_lines_def declared_first_def)
next
  case (snoc l ls)
  obtain e st' where run: "run_handler_lines A ls st = (e, st')" by (cases "run_handler_lines A ls st")
  have step: "run_handler_lines A (ls @ [l]) st = (case e of
      Some x \<Rightarrow> (Some x, st')
    | None \<Rightarrow> run_directive A None (fst (line_directive l)) (snd (line_directive l)) st')"
    using run by (cases "line_directive l") (auto simp: run_handler_lines_def run_config_append split: option.split prod.split)
  show ?case
  proof (cases "declared_first ls")
    case False
    with snoc run step show ?thesis by (auto simp: declared_first_snoc)
  next
    case True
    with snoc run have e: "e = None"
      and hs: "cfg_handlers (cs_server st') = (\<lambda>h. if Declare h \<in> set ls then Some (last_param ls h) else None)"
      by auto
    show ?thesis
    proof (cases "line_param l")
      case None
      then obtain h where l: "l = Declare h" by (cases l) auto
      have "last_param (ls @ [Declare h]) = last_param ls" by (simp add: fun_eq_iff last_param_snoc)
      moreover have "Declare h \<notin> set ls \<Longrightarrow> last_param ls h = (\<lambda>_. None)"
        using last_param_undeclared [OF True] by (simp add: fun_eq_iff)
      ultimately show ?thesis using True
        by (simp add: step [unfolded l e] l run_line_declare hs declared_first_snoc fun_eq_iff)
    next
      case (Some p)
      obtain h k v where p: "p = (h, k, v)" by (cases p)
      have l: "Declare h' \<noteq> l" for h' using Some by auto
      show ?thesis using True Some p run_line_param [of l h k v A st'] l
        by (auto simp: step e hs declared_first_snoc last_param_snoc ruby_handler_set_params_def
            set_server_def fun_eq_iff)
    qed
  qed
qed

text \<open>
  C23. A file of handler lines is accepted iff every parameter line stands behind the declaration of
  its handler, and then a handler is known iff it was declared, with the last value given to each of
  its parameters, however often it was declared; otherwise the file is refused with the message that
  names a handler that is not registered.
\<close>

theorem handler_declarations:
  assumes "cfg_handlers (cs_server st) = (\<lambda>_. None)"
  shows "case run_handler_lines A ls st of
           (None, st') \<Rightarrow> declared_first ls \<and>
             (\<forall>h. ruby_handler_config (cs_server st') h =
                (if Declare h \<in> set ls then Some (last_param ls h) else None))
         | (Some e, st') \<Rightarrow> \<not> declared_first ls \<and> (\<exists>h. e = ''Handler '' @ h @ '' is not registered'')"
  using handler_lines_gen [OF assms, of ls A]
  by (cases "declared_first ls"; cases "run_handler_lines A ls st") (auto simp: ruby_handler_config_def)

theorem handler_declarations_witness:
  "\<exists>h. fst (run_handler_lines assoc_table [Declare ''a'', Set_class ''b'' ''X'']
     \<lparr>cs_server = create_config, cs_dir = create_dir_conf None, cs_env = (\<lambda>_. None)\<rparr>) =
     Some (''Handler '' @ h @ '' is not registered'')"
proof -
  have "\<not> declared_first [Declare ''a'', Set_class ''b'' ''X'']"
    by (simp add: declared_first_def less_Suc_eq nth_Cons')
  then show ?thesis
    using handler_declarations [of "\<lparr>cs_server = create_config, cs_dir = create_dir_conf None, cs_env = (\<lambda>_. None)\<rparr>"
      "[Declare ''a'', Set_class ''b'' ''X'']" assoc_table]
    by (auto simp: create_config_def split: prod.splits option.splits)
qed

text \<open>Outside directories the two handler directives overwrite each other.\<close>

lemma access_handler_overwrites_handler:
  "cfg_handler (cs_server (snd (set_ruby_access_handler A None (Some b)
     (snd (set_ruby_handler A None (Some a) st))))) = Some b"
  by (simp add: set_ruby_access_handler_def set_ruby_handler_def set_server_def)

end
