(* ===== verification/Dispatch.thy ===== *)
theory Dispatch
  imports Config
begin

text \<open>
  The request phase: module.cpp and module.hpp. Configuration is merged into the request's notes, a
  handler is resolved and loaded (once for each handler identifier), its method is called, and what
  it throws is turned into Apache's return codes. Ruby and the Apache calls on the request are
  parameters, the record \<open>env\<close>: each works on the request, as Ruby code may change all of it, and
  those that run Ruby code may throw.
\<close>

section \<open>State and environment\<close>

record exn =
  ex_type :: string
  ex_what :: string
  ex_stackdump :: string

datatype thrown = Ruby_exception exn | Std_exception string

record 'w req =
  r_handler :: c_ptr
  r_status :: int
  r_notes :: entries
  r_headers_out :: entries
  r_output :: "string list"
  r_log :: "string list"
  r_world :: 'w

record ('o, 'w) env =
  env_table :: apr_table_api
  env_hash_list :: "apr_hash \<Rightarrow> entries"
  env_setup_cgi :: "'w req \<Rightarrow> 'w req"
  env_require :: "c_ptr \<Rightarrow> 'w req \<Rightarrow> (thrown + unit) \<times> 'w req"
  env_new :: "string \<Rightarrow> 'w req \<Rightarrow> (thrown + 'o) \<times> 'w req"
  env_call :: "'o \<Rightarrow> c_ptr \<Rightarrow> 'w req \<Rightarrow> (thrown + unit) \<times> 'w req"

text \<open>A handler as module.hpp has it, and the process-wide map of handler objects.\<close>

record 'o handler =
  h_module :: string
  h_klass :: string
  h_method :: string
  h_object :: "'o option"

type_synonym 'o handlers = "string \<Rightarrow> 'o option"

definition OK :: int where "OK = 0"
definition DECLINED :: int where "DECLINED = -1"
definition DONE :: int where "DONE = -2"

definition Handler :: "c_ptr \<Rightarrow> c_ptr \<Rightarrow> c_ptr \<Rightarrow> thrown + 'o handler" where
  "Handler module klass method =
     (case (module, klass, method) of
        (Some m, Some k, Some me) \<Rightarrow>
          Inr \<lparr>h_module = m, h_klass = k, h_method = me, h_object = None\<rparr>
      | _ \<Rightarrow> Inl (Std_exception ''Handler is not defined.''))"

definition handler_id :: "'o handler \<Rightarrow> string" where
  "handler_id h = h_module h @ ''::'' @ h_klass h @ ''::'' @ h_method h"

text \<open>The accessors return NULL for an empty string.\<close>

definition or_null :: "string \<Rightarrow> c_ptr" where
  "or_null s = (if length s = 0 then None else Some s)"

section \<open>Merging the configuration into the notes\<close>

definition copy_options :: "apr_table_api \<Rightarrow> entries \<Rightarrow> entries \<Rightarrow> entries" where
  "copy_options A opts notes = fold (\<lambda>(k, d) n. apr_table_set A n k d) opts notes"

definition merge_var ::
    "apr_table_api \<Rightarrow> ruby_dir_config \<Rightarrow> string \<Rightarrow> c_ptr \<Rightarrow> entries \<Rightarrow> bool \<times> entries" where
  "merge_var A dir_cfg var_name server_config t =
     (let t = (case apr_table_get A (dir_options dir_cfg) var_name of
                 Some v \<Rightarrow> apr_table_set A t var_name v
               | None \<Rightarrow> (case server_config of Some v \<Rightarrow> apr_table_set A t var_name v | None \<Rightarrow> t))
      in (apr_table_get A t var_name \<noteq> None, t))"

text \<open>The settings of the handler that a variable of the notes names, merged when it is registered.\<close>

definition merge_handler ::
    "apr_table_api \<Rightarrow> (apr_hash \<Rightarrow> entries) \<Rightarrow> ruby_config \<Rightarrow> ruby_dir_config \<Rightarrow> string \<Rightarrow> entries \<Rightarrow> entries" where
  "merge_handler A hash_list cfg dir_cfg var_name notes =
     (case merge_var A dir_cfg var_name (cfg_handler cfg) notes of
        (False, notes) \<Rightarrow> notes
      | (True, notes) \<Rightarrow>
          (case apr_table_get A notes var_name of
             None \<Rightarrow> notes
           | Some name \<Rightarrow>
               (case ruby_handler_config cfg name of
                  None \<Rightarrow> notes
                | Some h_config \<Rightarrow> copy_options A (hash_list h_config) notes)))"

definition init_notes ::
    "apr_table_api \<Rightarrow> (apr_hash \<Rightarrow> entries) \<Rightarrow> ruby_config \<Rightarrow> ruby_dir_config \<Rightarrow> entries \<Rightarrow> entries" where
  "init_notes A hash_list cfg dir_cfg notes =
     (let notes = copy_options A (cfg_options cfg) notes;
          notes = copy_options A (dir_options dir_cfg) notes;
          notes = snd (merge_var A dir_cfg ''RubyDefaultHandlerModule'' (cfg_default_handler_module cfg) notes);
          notes = snd (merge_var A dir_cfg ''RubyDefaultHandlerClass'' (cfg_default_handler_class cfg) notes);
          notes = snd (merge_var A dir_cfg ''RubyDefaultHandlerMethod'' (cfg_default_handler_method cfg) notes);
          notes = merge_handler A hash_list cfg dir_cfg ''RubyHandler'' notes
      in merge_handler A hash_list cfg dir_cfg ''RubyAccessHandler'' notes)"

definition ruby_request_init_configuration ::
    "('o, 'w) env \<Rightarrow> ruby_config \<Rightarrow> ruby_dir_config \<Rightarrow> 'w req \<Rightarrow> int \<times> 'w req" where
  "ruby_request_init_configuration E cfg dir_cfg r =
     (0, r\<lparr>r_notes := init_notes (env_table E) (env_hash_list E) cfg dir_cfg (r_notes r)\<rparr>)"

section \<open>Resolving and loading handlers\<close>

definition better_exception :: "string \<Rightarrow> string \<Rightarrow> string \<Rightarrow> thrown \<Rightarrow> thrown" where
  "better_exception module cls method e =
     (case e of
        Ruby_exception x \<Rightarrow>
          Ruby_exception \<lparr>ex_type = [],
            ex_what = ex_what x @ [CHR 0x0A] @ ''Module  : '' @ module @ [CHR 0x0A] @
              ''Class   : '' @ cls @ [CHR 0x0A] @ ''Method  : '' @ method @ [CHR 0x0A] @ ex_stackdump x,
            ex_stackdump = []\<rparr>
      | Std_exception s \<Rightarrow> Std_exception s)"

type_synonym ('o, 'w) load_result = "(thrown + 'o handler) \<times> 'o handlers \<times> 'w req"

definition ruby_request_load_handler ::
    "('o, 'w) env \<Rightarrow> c_ptr \<Rightarrow> c_ptr \<Rightarrow> c_ptr \<Rightarrow> 'o handlers \<Rightarrow> 'w req \<Rightarrow> ('o, 'w) load_result" where
  "ruby_request_load_handler E module cls method hs r =
     (case Handler module cls method of
        Inl e \<Rightarrow> (Inl e, hs, r)
      | Inr h \<Rightarrow>
          (case env_require E (or_null (h_module h)) r of
             (Inl e, r) \<Rightarrow> (Inl e, hs, r)
           | (Inr _, r) \<Rightarrow>
               (case hs (handler_id h) of
                  Some obj \<Rightarrow> (Inr (h\<lparr>h_object := Some obj\<rparr>), hs, r)
                | None \<Rightarrow>
                    (case env_new E (h_klass h) r of
                       (Inl e, r) \<Rightarrow> (Inl (better_exception (h_module h) (h_klass h) (h_method h) e), hs, r)
                     | (Inr obj, r) \<Rightarrow>
                         (Inr (h\<lparr>h_object := Some obj\<rparr>), hs(handler_id h \<mapsto> obj), r)))))"

text \<open>The default-constructed handler, which signifies that there is none.\<close>

definition no_handler :: "'o handler" where
  "no_handler = \<lparr>h_module = [], h_klass = [], h_method = [], h_object = None\<rparr>"

definition or_else :: "c_ptr \<Rightarrow> c_ptr \<Rightarrow> c_ptr" where
  "or_else p q = (case p of Some s \<Rightarrow> Some s | None \<Rightarrow> q)"

definition ruby_request_get_handler ::
    "('o, 'w) env \<Rightarrow> ruby_config \<Rightarrow> 'o handlers \<Rightarrow> 'w req \<Rightarrow> ('o, 'w) load_result" where
  "ruby_request_get_handler E cfg hs r =
     (let get = apr_table_get (env_table E) (r_notes r); set = apr_table_set (env_table E)
      in case get ''RubyHandler'' of
           Some name \<Rightarrow>
             (case ruby_handler_config cfg name of
                Some h_config \<Rightarrow>
                  ruby_request_load_handler E (h_config ''RubyHandlerModule'')
                    (h_config ''RubyHandlerClass'') (h_config ''RubyHandlerMethod'') hs r
              | None \<Rightarrow> (Inr no_handler, hs, r))
         | None \<Rightarrow>
             (let module = or_else (get ''RubyDefaultHandlerModule'') (cfg_default_handler_module cfg);
                  cls = or_else (get ''RubyDefaultHandlerClass'') (cfg_default_handler_class cfg);
                  method = or_else (get ''RubyDefaultHandlerMethod'') (cfg_default_handler_method cfg)
              in case (module, cls, method) of
                   (Some m, Some c, Some me) \<Rightarrow>
                     ruby_request_load_handler E module cls method hs
                       (r\<lparr>r_notes := set (set (set (r_notes r) ''RubyHandlerModule'' m)
                            ''RubyHandlerClass'' c) ''RubyHandlerMethod'' me\<rparr>)
                 | _ \<Rightarrow> (Inl (Std_exception ''Default Handler is not defined.''), hs, r)))"

definition ruby_request_get_access_handler ::
    "('o, 'w) env \<Rightarrow> ruby_config \<Rightarrow> 'o handlers \<Rightarrow> 'w req \<Rightarrow> ('o, 'w) load_result" where
  "ruby_request_get_access_handler E cfg hs r =
     (case apr_table_get (env_table E) (r_notes r) ''RubyAccessHandler'' of
        None \<Rightarrow> (Inr no_handler, hs, r)
      | Some name \<Rightarrow>
          (case ruby_handler_config cfg name of
             None \<Rightarrow> (Inr no_handler, hs, r)
           | Some h_config \<Rightarrow>
               ruby_request_load_handler E (h_config ''RubyHandlerModule'')
                 (h_config ''RubyHandlerClass'') (h_config ''RubyHandlerMethod'') hs r))"

section \<open>The handlers\<close>

definition rputs :: "string \<Rightarrow> 'w req \<Rightarrow> 'w req" where
  "rputs s r = r\<lparr>r_output := r_output r @ [s]\<rparr>"

definition log_error :: "string \<Rightarrow> 'w req \<Rightarrow> 'w req" where
  "log_error s r = r\<lparr>r_log := r_log r @ [s]\<rparr>"

definition ruby_log_error :: "string \<Rightarrow> 'w req \<Rightarrow> int \<times> 'w req" where
  "ruby_log_error msg r =
     (let strm = ''ModRuby: '' @ msg in (0, log_error strm (rputs strm r)))"

definition declines :: "string \<Rightarrow> 'w req \<Rightarrow> bool" where
  "declines name r \<longleftrightarrow> (case r_handler r of None \<Rightarrow> False | Some s \<Rightarrow> s \<noteq> name)"

definition status_or_ok :: "int \<Rightarrow> 'w req \<Rightarrow> int" where
  "status_or_ok rc r = (if r_status r \<noteq> rc then r_status r else OK)"

text \<open>
  The two catch clauses, the same in all handlers but for the code they return and a header that the
  generic handler sets for the two exceptions that do not indicate an error.
\<close>

definition catch_clauses :: "int \<Rightarrow> ('w req \<Rightarrow> 'w req) \<Rightarrow> thrown \<Rightarrow> 'w req \<Rightarrow> int \<times> 'w req" where
  "catch_clauses rc_caught on_control e r =
     (case e of
        Ruby_exception x \<Rightarrow>
          if ex_type x = ''ModRuby::Redirect'' then (rc_caught, on_control r)
          else if ex_type x = ''ModRuby::RequestTermination'' then (rc_caught, on_control r)
          else (let strm = ''ModRuby FATAL ERROR: Ruby Exception: '' @ ex_what x @ [CHR 0x0A] @ ex_stackdump x
                in (rc_caught, log_error strm (rputs strm r)))
      | Std_exception s \<Rightarrow> (rc_caught, log_error s (rputs (''mod_ruby Error: '' @ s) r)))"

definition ruby_request_handler ::
    "('o, 'w) env \<Rightarrow> ruby_config \<Rightarrow> ruby_dir_config \<Rightarrow> 'o handlers \<Rightarrow> 'w req \<Rightarrow> int \<times> 'o handlers \<times> 'w req" where
  "ruby_request_handler E cfg dir_cfg hs r =
     (if declines ''ruby-handler'' r then (DECLINED, hs, r)
      else
        let r = env_setup_cgi E r; rc = r_status r
        in case ruby_request_init_configuration E cfg dir_cfg r of
             (conf, r) \<Rightarrow>
               if conf \<noteq> 0 then (OK, hs, r)
               else case ruby_request_get_handler E cfg hs r of
                      (Inl e, hs, r) \<Rightarrow> (case catch_clauses OK id e r of (res, r) \<Rightarrow> (res, hs, r))
                    | (Inr h, hs, r) \<Rightarrow>
                        (case h_object h of
                           None \<Rightarrow> (OK, hs, log_error ''Failed to load handler'' (rputs ''Failed to load handler'' r))
                         | Some obj \<Rightarrow>
                             (case env_call E obj (or_null (h_method h)) r of
                                (Inl e, r) \<Rightarrow> (case catch_clauses OK id e r of (res, r) \<Rightarrow> (res, hs, r))
                              | (Inr _, r) \<Rightarrow> (status_or_ok rc r, hs, r))))"

text \<open>The global handler object is NULL when initialisation failed; calling it then is a crash.\<close>

definition ruby_generic_handler ::
    "('o, 'w) env \<Rightarrow> 'o option \<Rightarrow> string \<Rightarrow> string \<Rightarrow> 'w req \<Rightarrow> (int \<times> 'w req) option" where
  "ruby_generic_handler E ruby_handler handler_name method_name r =
     (if declines handler_name r then Some (DECLINED, r)
      else
        let r = env_setup_cgi E r; rc = r_status r
        in case ruby_handler of
             None \<Rightarrow> None
           | Some obj \<Rightarrow>
               (case env_call E obj (Some method_name) r of
                  (Inl e, r) \<Rightarrow>
                    Some (catch_clauses OK
                      (\<lambda>r. r\<lparr>r_headers_out := apr_table_set (env_table E) (r_headers_out r) ''TestResult'' ''PASS''\<rparr>) e r)
                | (Inr _, r) \<Rightarrow> Some (status_or_ok rc r, r)))"

definition ruby_request_rhtml_handler :: "('o, 'w) env \<Rightarrow> 'o option \<Rightarrow> 'w req \<Rightarrow> (int \<times> 'w req) option" where
  "ruby_request_rhtml_handler E rh r = ruby_generic_handler E rh ''ruby-rhtml-handler'' ''rhtml'' r"

definition ruby_request_script_handler :: "('o, 'w) env \<Rightarrow> 'o option \<Rightarrow> 'w req \<Rightarrow> (int \<times> 'w req) option" where
  "ruby_request_script_handler E rh r = ruby_generic_handler E rh ''ruby-script-handler'' ''script'' r"

definition ruby_request_access_handler ::
    "('o, 'w) env \<Rightarrow> ruby_config \<Rightarrow> ruby_dir_config \<Rightarrow> 'o handlers \<Rightarrow> 'w req \<Rightarrow> int \<times> 'o handlers \<times> 'w req" where
  "ruby_request_access_handler E cfg dir_cfg hs r =
     (let rc = r_status r
      in case ruby_request_init_configuration E cfg dir_cfg r of
           (conf, r) \<Rightarrow>
             if conf \<noteq> 0 then (DONE, hs, r)
             else case ruby_request_get_access_handler E cfg hs r of
                    (Inl e, hs, r) \<Rightarrow> (case catch_clauses DONE id e r of (res, r) \<Rightarrow> (res, hs, r))
                  | (Inr h, hs, r) \<Rightarrow>
                      (case h_object h of
                         None \<Rightarrow> (DECLINED, hs, r)
                       | Some obj \<Rightarrow>
                           (case env_call E obj (or_null (h_method h)) r of
                              (Inl e, r) \<Rightarrow> (case catch_clauses DONE id e r of (res, r) \<Rightarrow> (res, hs, r))
                            | (Inr _, r) \<Rightarrow> (status_or_ok rc r, hs, r))))"

text \<open>Apache runs the content handlers in the order of their registration until one does not decline.\<close>

definition content_phase ::
    "('o, 'w) env \<Rightarrow> 'o option \<Rightarrow> ruby_config \<Rightarrow> ruby_dir_config \<Rightarrow> 'o handlers \<Rightarrow> 'w req \<Rightarrow> (int \<times> 'o handlers \<times> 'w req) option" where
  "content_phase E rh cfg dir_cfg hs r =
     (case ruby_request_handler E cfg dir_cfg hs r of
        (res, hs, r) \<Rightarrow>
          if res \<noteq> DECLINED then Some (res, hs, r)
          else case ruby_request_rhtml_handler E rh r of
                 None \<Rightarrow> None
               | Some (res, r) \<Rightarrow>
                   if res \<noteq> DECLINED then Some (res, hs, r)
                   else map_option (\<lambda>(res, r). (res, hs, r)) (ruby_request_script_handler E rh r))"

end
