(* ===== verification/Dispatch_Spec.thy ===== *)
theory Dispatch_Spec
  imports Dispatch
begin

text \<open>
  The promises of the request phase: what a request finds in its notes, which handler runs and that
  its object is created once, how results and exceptions become return codes, that the access check
  fails closed, and that exactly one content handler takes a request.
\<close>

section \<open>Precedence of options\<close>

fun first_of :: "'a option list \<Rightarrow> 'a option" where
  "first_of [] = None"
| "first_of (x # xs) = (case x of Some v \<Rightarrow> Some v | None \<Rightarrow> first_of xs)"

lemma last_entry_Nil [simp]: "last_entry [] k = None"
  by (simp add: last_entry_def)

lemma last_entry_cong: "same_key k k' \<Longrightarrow> last_entry e k = last_entry e k'"
  by (simp add: last_entry_def same_key_def)

lemma copy_options_get:
  assumes "apr_table_laws A"
  shows "apr_table_get A (copy_options A opts notes) k = first_of [last_entry opts k, apr_table_get A notes k]"
proof (induction opts rule: rev_induct)
  case Nil
  show ?case by (simp add: copy_options_def split: option.split)
next
  case (snoc x opts)
  then show ?case
    by (cases x) (auto simp: copy_options_def apr_laws [OF assms] last_entry_append last_entry_def split: option.split)
qed

text \<open>A request's configuration, with option tables that hold no key twice.\<close>

definition configured :: "apr_table_api \<Rightarrow> ruby_config \<Rightarrow> ruby_dir_config \<Rightarrow> bool" where
  "configured A cfg dir_cfg \<longleftrightarrow>
     apr_table_laws A \<and> distinct_keys (cfg_options cfg) \<and> distinct_keys (dir_options dir_cfg)"

lemma merge_var_get:
  assumes "apr_table_laws A"
  shows "apr_table_get A (snd (merge_var A d var sv t)) k =
     (if same_key var k then first_of [dir_lookup A d var, sv, apr_table_get A t k] else apr_table_get A t k)"
  by (auto simp: merge_var_def Let_def dir_lookup_def apr_laws [OF assms] split: option.split)

lemma merge_var_found:
  "fst (merge_var A d var sv t) \<longleftrightarrow> apr_table_get A (snd (merge_var A d var sv t)) var \<noteq> None"
  by (simp add: merge_var_def Let_def)

definition handler_settings :: "(apr_hash \<Rightarrow> entries) \<Rightarrow> ruby_config \<Rightarrow> c_ptr \<Rightarrow> entries" where
  "handler_settings hash_list cfg name =
     (case name of
        None \<Rightarrow> []
      | Some h \<Rightarrow> (case ruby_handler_config cfg h of None \<Rightarrow> [] | Some c \<Rightarrow> hash_list c))"

lemma copy_options_Nil: "copy_options A [] t = t"
  by (simp add: copy_options_def)

lemma merge_handler_eq:
  "merge_handler A hl cfg d var t =
     (let t' = snd (merge_var A d var (cfg_handler cfg) t)
      in copy_options A (handler_settings hl cfg (apr_table_get A t' var)) t')"
proof -
  obtain b t' where m: "merge_var A d var (cfg_handler cfg) t = (b, t')"
    by (cases "merge_var A d var (cfg_handler cfg) t")
  then have "b \<longleftrightarrow> apr_table_get A t' var \<noteq> None" using merge_var_found [of A d var "cfg_handler cfg" t] by simp
  then show ?thesis
    by (auto simp: merge_handler_def m handler_settings_def copy_options_Nil split: option.split bool.split)
qed

lemma merge_handler_get:
  assumes "apr_table_laws A"
  shows "apr_table_get A (merge_handler A hl cfg d var t) k =
     first_of [last_entry (handler_settings hl cfg (first_of [dir_lookup A d var, cfg_handler cfg, apr_table_get A t var])) k,
       if same_key var k then first_of [dir_lookup A d var, cfg_handler cfg, apr_table_get A t k]
       else apr_table_get A t k]"
  by (simp add: merge_handler_eq Let_def copy_options_get [OF assms] merge_var_get [OF assms])

lemma first_of_nest: "first_of [a, first_of xs] = first_of (a # xs)"
  by (simp split: option.split)

lemma names_differ:
  "\<not> same_key ''RubyDefaultHandlerModule'' ''RubyHandler''"
  "\<not> same_key ''RubyDefaultHandlerClass'' ''RubyHandler''"
  "\<not> same_key ''RubyDefaultHandlerMethod'' ''RubyHandler''"
  "\<not> same_key ''RubyDefaultHandlerModule'' ''RubyAccessHandler''"
  "\<not> same_key ''RubyDefaultHandlerClass'' ''RubyAccessHandler''"
  "\<not> same_key ''RubyDefaultHandlerMethod'' ''RubyAccessHandler''"
  "\<not> same_key ''RubyHandler'' ''RubyAccessHandler''"
  by code_simp+

definition special_names :: "string list" where
  "special_names = [''RubyDefaultHandlerModule'', ''RubyDefaultHandlerClass'', ''RubyDefaultHandlerMethod'',
     ''RubyHandler'', ''RubyAccessHandler'']"

text \<open>The notes before the two handler variables are looked at.\<close>

definition base_notes :: "apr_table_api \<Rightarrow> ruby_config \<Rightarrow> ruby_dir_config \<Rightarrow> entries \<Rightarrow> string \<Rightarrow> string option" where
  "base_notes A cfg d notes k =
     first_of [dir_lookup A d k, apr_table_get A (cfg_options cfg) k, apr_table_get A notes k]"

definition content_handler_name :: "apr_table_api \<Rightarrow> ruby_config \<Rightarrow> ruby_dir_config \<Rightarrow> entries \<Rightarrow> c_ptr" where
  "content_handler_name A cfg d notes =
     first_of [dir_lookup A d ''RubyHandler'', cfg_handler cfg, base_notes A cfg d notes ''RubyHandler'']"

definition access_handler_name ::
    "apr_table_api \<Rightarrow> (apr_hash \<Rightarrow> entries) \<Rightarrow> ruby_config \<Rightarrow> ruby_dir_config \<Rightarrow> entries \<Rightarrow> c_ptr" where
  "access_handler_name A hl cfg d notes =
     first_of [dir_lookup A d ''RubyAccessHandler'', cfg_handler cfg,
       last_entry (handler_settings hl cfg (content_handler_name A cfg d notes)) ''RubyAccessHandler'',
       base_notes A cfg d notes ''RubyAccessHandler'']"

lemma init_notes_get:
  assumes "configured A cfg d"
  shows "apr_table_get A (init_notes A hl cfg d notes) ''RubyAccessHandler'' =
      first_of [last_entry (handler_settings hl cfg (access_handler_name A hl cfg d notes)) ''RubyAccessHandler'',
        access_handler_name A hl cfg d notes]"
    and "\<forall>n \<in> set special_names. \<not> same_key n k \<Longrightarrow> apr_table_get A (init_notes A hl cfg d notes) k =
      first_of [last_entry (handler_settings hl cfg (access_handler_name A hl cfg d notes)) k,
        last_entry (handler_settings hl cfg (content_handler_name A cfg d notes)) k,
        base_notes A cfg d notes k]"
proof -
  have laws: "apr_table_laws A" and ok: "distinct_keys (cfg_options cfg)" "distinct_keys (dir_options d)"
    using assms by (simp_all add: configured_def)
  have base: "apr_table_get A (copy_options A (dir_options d) (copy_options A (cfg_options cfg) notes)) k =
      base_notes A cfg d notes k" for k
    by (simp add: copy_options_get [OF laws] base_notes_def dir_lookup_def
        apr_laws(7) [OF laws ok(1)] apr_laws(7) [OF laws ok(2)] cong: option.case_cong split: option.split)
  let ?t = "snd (merge_var A d ''RubyDefaultHandlerMethod'' (cfg_default_handler_method cfg)
     (snd (merge_var A d ''RubyDefaultHandlerClass'' (cfg_default_handler_class cfg)
     (snd (merge_var A d ''RubyDefaultHandlerModule'' (cfg_default_handler_module cfg)
     (copy_options A (dir_options d) (copy_options A (cfg_options cfg) notes)))))))"
  have t: "apr_table_get A ?t ''RubyHandler'' = base_notes A cfg d notes ''RubyHandler''"
    "apr_table_get A ?t ''RubyAccessHandler'' = base_notes A cfg d notes ''RubyAccessHandler''"
    "\<forall>n \<in> set special_names. \<not> same_key n k \<Longrightarrow> apr_table_get A ?t k = base_notes A cfg d notes k" for k
    by (simp_all only: merge_var_get [OF laws] names_differ base if_False) (simp add: special_names_def)
  define u where "u = merge_handler A hl cfg d ''RubyHandler'' ?t"
  have init: "init_notes A hl cfg d notes = merge_handler A hl cfg d ''RubyAccessHandler'' u"
    by (simp add: init_notes_def Let_def u_def)
  have name: "first_of [dir_lookup A d ''RubyHandler'', cfg_handler cfg, apr_table_get A ?t ''RubyHandler''] =
      content_handler_name A cfg d notes" by (simp only: t content_handler_name_def)
  have h: "apr_table_get A u k =
      first_of [last_entry (handler_settings hl cfg (content_handler_name A cfg d notes)) k,
        if same_key ''RubyHandler'' k then first_of [dir_lookup A d ''RubyHandler'', cfg_handler cfg, apr_table_get A ?t k]
        else apr_table_get A ?t k]" for k
    by (simp only: u_def merge_handler_get [OF laws] name)
  have aname: "first_of [dir_lookup A d ''RubyAccessHandler'', cfg_handler cfg,
      apr_table_get A u ''RubyAccessHandler''] =
      access_handler_name A hl cfg d notes"
    by (simp add: h names_differ t access_handler_name_def split: option.split)
  show "apr_table_get A (init_notes A hl cfg d notes) ''RubyAccessHandler'' =
      first_of [last_entry (handler_settings hl cfg (access_handler_name A hl cfg d notes)) ''RubyAccessHandler'',
        access_handler_name A hl cfg d notes]"
    by (simp only: init merge_handler_get [OF laws] aname same_key_refl if_True)
  assume k: "\<forall>n \<in> set special_names. \<not> same_key n k"
  then have "\<not> same_key ''RubyHandler'' k" "\<not> same_key ''RubyAccessHandler'' k" by (simp_all add: special_names_def)
  then have "apr_table_get A (init_notes A hl cfg d notes) k =
      first_of [last_entry (handler_settings hl cfg (access_handler_name A hl cfg d notes)) k,
        first_of [last_entry (handler_settings hl cfg (content_handler_name A cfg d notes)) k,
          base_notes A cfg d notes k]]"
    by (simp only: init merge_handler_get [OF laws] aname if_False) (simp only: h t(3) [OF k] if_False)
  then show "apr_table_get A (init_notes A hl cfg d notes) k =
      first_of [last_entry (handler_settings hl cfg (access_handler_name A hl cfg d notes)) k,
        last_entry (handler_settings hl cfg (content_handler_name A cfg d notes)) k,
        base_notes A cfg d notes k]"
    by (simp only: first_of_nest)
qed

text \<open>What the notes hold under a user's key after both handlers have been looked at.\<close>

lemma init_notes_precedence:
  assumes "configured A cfg d" and "\<forall>n \<in> set special_names. \<not> same_key n k"
  shows "apr_table_get A (init_notes A hl cfg d ne) k =
       first_of
         [last_entry (handler_settings hl cfg (access_handler_name A hl cfg d ne)) k,
          last_entry (handler_settings hl cfg (content_handler_name A cfg d ne)) k,
          dir_lookup A d k, apr_table_get A (cfg_options cfg) k, apr_table_get A ne k]"
proof -
  have "first_of [a, b, first_of [c, d, e]] = first_of [a, b, c, d, e]" for a b c d e :: "string option"
    by (simp split: option.split)
  with init_notes_get(2) [OF assms] show ?thesis by (simp add: base_notes_def)
qed

section \<open>A concrete environment\<close>

text \<open>Ruby and Apache for the instances below: everything succeeds, objects are numbers.\<close>

definition demo_env :: "(nat, unit) env" where
  "demo_env = \<lparr>env_table = assoc_table, env_hash_list = (\<lambda>_. []), env_setup_cgi = id,
     env_require = \<lambda>_ r. (Inr (), r), env_new = \<lambda>c r. (Inr (length c), r), env_call = \<lambda>_ _ r. (Inr (), r)\<rparr>"

definition demo_cfg :: ruby_config where
  "demo_cfg = create_config\<lparr>cfg_options := [(''k'', ''server'')]\<rparr>"

definition demo_dir :: ruby_dir_config where
  "demo_dir = \<lparr>dir_dir = None, dir_options = [(''K'', ''dir'')]\<rparr>"

definition demo_req :: "unit req" where
  "demo_req = \<lparr>r_handler = Some ''other'', r_status = 200, r_notes = [], r_headers_out = [], r_output = [],
     r_log = [], r_world = ()\<rparr>"

lemma demo_configured: "configured assoc_table demo_cfg demo_dir"
  by (simp add: configured_def assoc_table_laws demo_cfg_def demo_dir_def create_config_def distinct_keys_def)

text \<open>
  With \<open>RubyHandler h\<close> at server level and no \<open>RubyAccessHandler\<close> in the directory, the access phase
  resolves to \<open>h\<close> too, although no access handler was ever configured.
\<close>

lemma server_handler_guards_access:
  assumes "configured A cfg d" "cfg_handler cfg = Some h" "dir_lookup A d ''RubyAccessHandler'' = None"
    and "\<forall>c k. ruby_handler_config cfg h = Some c \<longrightarrow> last_entry (hl c) ''RubyAccessHandler'' = None"
  shows "apr_table_get A (init_notes A hl cfg d notes) ''RubyAccessHandler'' = Some h"
proof -
  have "access_handler_name A hl cfg d notes = Some h" using assms(2,3) by (simp add: access_handler_name_def)
  then show ?thesis using assms(4) init_notes_get(1) [OF assms(1)]
    by (simp add: handler_settings_def split: option.split)
qed

section \<open>Loading a handler\<close>

text \<open>
  Loading creates at most one object for an identifier: a load that succeeds leaves the object
  under its identifier and touches no other, a later one finds it and creates nothing.
\<close>

lemma load_handler_cases:
  assumes "ruby_request_load_handler E m c me hs r = (res, hs', r')"
  shows "(\<exists>e. res = Inl e \<and> hs' = hs) \<or>
     (\<exists>h obj m' c' me'. res = Inr h \<and> m = Some m' \<and> c = Some c' \<and> me = Some me' \<and> h_object h = Some obj \<and>
        handler_id h = m' @ ''::'' @ c' @ ''::'' @ me' \<and> or_null (h_method h) = or_null me' \<and>
        hs' = hs(handler_id h \<mapsto> obj) \<and> (hs (handler_id h) = None \<or> hs (handler_id h) = Some obj))"
proof (cases "Handler m c me :: thrown + 'a handler")
  case (Inl e)
  then have "res = Inl e" "hs' = hs" using assms by (auto simp: ruby_request_load_handler_def)
  then show ?thesis by blast
next
  case (Inr h)
  then obtain m' c' me' where p: "m = Some m'" "c = Some c'" "me = Some me'"
    "h = \<lparr>h_module = m', h_klass = c', h_method = me', h_object = None\<rparr>"
    by (auto simp: Handler_def split: option.splits)
  obtain q r1 where req: "env_require E (or_null m') r = (q, r1)" by (cases "env_require E (or_null m') r")
  obtain o1 r2 where new: "env_new E c' r1 = (o1, r2)" by (cases "env_new E c' r1")
  show ?thesis using assms Inr p req new
    by (cases q; cases "hs (handler_id h)"; cases o1)
      (auto simp: ruby_request_load_handler_def handler_id_def fun_upd_idem)
qed

text \<open>
  C7. A successful load of module, class and method leaves the handler's object registered under the
  three names joined by \<open>::\<close> and changes no other registration; from then on, as long as the module
  can be required, loading the same names returns that very object and creates none, whatever the
  class constructor would do. A NULL name fails with "Handler is not defined." before Ruby is touched.
\<close>

theorem handler_loaded_once:
  assumes first: "ruby_request_load_handler E (Some m) (Some c) (Some me) hs r = (Inr h, hs', r')"
    and req: "env_require E2 (or_null m) r2 = (Inr (), r3)"
    and later: "hs2 (handler_id h) = hs' (handler_id h)"
  shows "\<exists>obj. h_object h = Some obj \<and> hs' (m @ ''::'' @ c @ ''::'' @ me) = Some obj \<and>
     (\<forall>i. i \<noteq> m @ ''::'' @ c @ ''::'' @ me \<longrightarrow> hs' i = hs i) \<and>
     (\<forall>i obj'. hs i = Some obj' \<longrightarrow> hs' i = Some obj') \<and>
     (\<exists>h2. ruby_request_load_handler E2 (Some m) (Some c) (Some me) hs2 r2 = (Inr h2, hs2, r3) \<and>
        h_object h2 = Some obj) \<and>
     ruby_request_load_handler E2 None (Some c) (Some me) hs2 r2 =
       (Inl (Std_exception ''Handler is not defined.''), hs2, r2)"
proof -
  have hid: "handler_id h = m @ ''::'' @ c @ ''::'' @ me" using load_handler_cases [OF first] by auto
  obtain obj where obj: "h_object h = Some obj" "hs' = hs(handler_id h \<mapsto> obj)"
      "hs (handler_id h) = None \<or> hs (handler_id h) = Some obj"
    using load_handler_cases [OF first] by auto
  have "hs2 (m @ ''::'' @ c @ ''::'' @ me) = Some obj" using later obj(2) hid by simp
  then have "\<exists>h2. ruby_request_load_handler E2 (Some m) (Some c) (Some me) hs2 r2 = (Inr h2, hs2, r3) \<and>
      h_object h2 = Some obj"
    using req by (simp add: ruby_request_load_handler_def Handler_def handler_id_def)
  moreover have "ruby_request_load_handler E2 None (Some c) (Some me) hs2 r2 =
      (Inl (Std_exception ''Handler is not defined.''), hs2, r2)"
    by (simp add: ruby_request_load_handler_def Handler_def)
  ultimately show ?thesis using obj hid by auto
qed

theorem handler_loaded_once_witness:
  "\<exists>h h2. ruby_request_load_handler demo_env (Some ''m'') (Some ''C'') (Some ''run'') (\<lambda>_. None) demo_req =
       (Inr h, [''m::C::run'' \<mapsto> 1], demo_req) \<and>
     ruby_request_load_handler demo_env (Some ''m'') (Some ''C'') (Some ''run'') [''m::C::run'' \<mapsto> 1] demo_req =
       (Inr h2, [''m::C::run'' \<mapsto> 1], demo_req) \<and> h_object h2 = Some 1"
proof -
  obtain h where h: "ruby_request_load_handler demo_env (Some ''m'') (Some ''C'') (Some ''run'') (\<lambda>_. None) demo_req =
      (Inr h, [''m::C::run'' \<mapsto> 1], demo_req)" "h_object h = Some 1"
    by (simp add: ruby_request_load_handler_def Handler_def handler_id_def demo_env_def)
  have "env_require demo_env (or_null ''m'') demo_req = (Inr (), demo_req)" by (simp add: demo_env_def)
  from handler_loaded_once [OF h(1) this, of "[''m::C::run'' \<mapsto> 1]"] h show ?thesis by auto
qed

text \<open>Joining by \<open>::\<close> is not injective: distinct handlers can share an object.\<close>

lemma handler_id_clash:
  "handler_id \<lparr>h_module = ''a'', h_klass = ''B::C'', h_method = ''m'', h_object = None\<rparr> =
   handler_id \<lparr>h_module = ''a::B'', h_klass = ''C'', h_method = ''m'', h_object = None\<rparr>"
  by (simp add: handler_id_def)

section \<open>Which handler runs\<close>

text \<open>
  The content handler: a name in the notes selects the registered handler with that name and its
  three settings, an unregistered name yields no handler; without a name the default handler's three
  parts come from the notes, else from the server, they are recorded in the notes before loading, and
  one that is missing fails with "Default Handler is not defined." The access handler has no default.
\<close>

lemma handler_resolution:
  "ruby_request_get_handler E cfg hs r =
     (case apr_table_get (env_table E) (r_notes r) ''RubyHandler'' of
        Some name \<Rightarrow>
          (case cfg_handlers cfg name of
             None \<Rightarrow> (Inr no_handler, hs, r)
           | Some conf \<Rightarrow> ruby_request_load_handler E (conf ''RubyHandlerModule'') (conf ''RubyHandlerClass'')
               (conf ''RubyHandlerMethod'') hs r)
      | None \<Rightarrow>
          (case (first_of [apr_table_get (env_table E) (r_notes r) ''RubyDefaultHandlerModule'', cfg_default_handler_module cfg],
                 first_of [apr_table_get (env_table E) (r_notes r) ''RubyDefaultHandlerClass'', cfg_default_handler_class cfg],
                 first_of [apr_table_get (env_table E) (r_notes r) ''RubyDefaultHandlerMethod'', cfg_default_handler_method cfg]) of
             (Some m, Some c, Some me) \<Rightarrow>
               ruby_request_load_handler E (Some m) (Some c) (Some me) hs
                 (r\<lparr>r_notes := apr_table_set (env_table E) (apr_table_set (env_table E) (apr_table_set (env_table E)
                    (r_notes r) ''RubyHandlerModule'' m) ''RubyHandlerClass'' c) ''RubyHandlerMethod'' me\<rparr>)
           | _ \<Rightarrow> (Inl (Std_exception ''Default Handler is not defined.''), hs, r))) \<and>
   ruby_request_get_access_handler E cfg hs r =
     (case Option.bind (apr_table_get (env_table E) (r_notes r) ''RubyAccessHandler'') (cfg_handlers cfg) of
        None \<Rightarrow> (Inr no_handler, hs, r)
      | Some conf \<Rightarrow> ruby_request_load_handler E (conf ''RubyHandlerModule'') (conf ''RubyHandlerClass'')
          (conf ''RubyHandlerMethod'') hs r)"
proof -
  have "first_of [p, q] = or_else p q" for p q :: c_ptr by (simp add: or_else_def split: option.split)
  then show ?thesis
    by (auto simp: ruby_request_get_handler_def ruby_request_get_access_handler_def ruby_handler_config_def Let_def
        split: option.split)
qed

section \<open>Results and exceptions\<close>

text \<open>Two exceptions are control flow; the others are reported once to the client and once to the log.\<close>

definition control_exception :: "thrown \<Rightarrow> bool" where
  "control_exception e =
     (case e of
        Ruby_exception x \<Rightarrow> ex_type x \<in> {''ModRuby::Redirect'', ''ModRuby::RequestTermination''}
      | Std_exception _ \<Rightarrow> False)"

definition reported :: "'w req \<Rightarrow> 'w req \<Rightarrow> bool" where
  "reported r r' \<longleftrightarrow>
     (\<exists>msg line. r' = r\<lparr>r_output := r_output r @ [msg], r_log := r_log r @ [line]\<rparr>)"

lemma catch_clauses_eq:
  "catch_clauses rc f e r = (rc, if control_exception e then f r else snd (catch_clauses rc f e r))"
  "\<not> control_exception e \<Longrightarrow> reported r (snd (catch_clauses rc f e r))"
  by (cases e; auto simp: catch_clauses_def control_exception_def reported_def rputs_def log_error_def Let_def)+

lemma catch_clauses_id:
  "fst (catch_clauses rc id e r) = rc"
  "if control_exception e then snd (catch_clauses rc id e r) = r else reported r (snd (catch_clauses rc id e r))"
  using catch_clauses_eq [where rc = rc and f = id and e = e and r = r] by (metis fst_conv, metis id_apply snd_conv)



section \<open>A process serving requests\<close>

text \<open>
  The map of handler objects changes only through requests, access checks and content handlers, in
  any order and with any configuration, Ruby code and request.
\<close>

inductive serves :: "('o, 'w) env \<Rightarrow> 'o handlers \<Rightarrow> 'o handlers \<Rightarrow> bool" for E where
  content: "ruby_request_handler E cfg d hs r = (res, hs', r') \<Longrightarrow> serves E hs hs'"
| access: "ruby_request_access_handler E cfg d hs r = (res, hs', r') \<Longrightarrow> serves E hs hs'"

inductive_cases serves_cases: "serves E hs hs'"

inductive served :: "('o, 'w) env \<Rightarrow> 'o handlers \<Rightarrow> 'o handlers \<Rightarrow> bool" for E where
  none: "served E hs hs"
| more: "served E hs hs1 \<Longrightarrow> serves E hs1 hs2 \<Longrightarrow> served E hs hs2"

text \<open>What loading can do to the map: nothing, or one registration under a fresh identifier.\<close>

definition proper_id :: "string \<Rightarrow> bool" where
  "proper_id i \<longleftrightarrow> (\<exists>m c me. i = m @ ''::'' @ c @ ''::'' @ me)"

definition extends :: "'o handlers \<Rightarrow> 'o handlers \<Rightarrow> bool" where
  "extends hs hs' \<longleftrightarrow> hs' = hs \<or> (\<exists>i obj. proper_id i \<and> hs i = None \<and> hs' = hs(i \<mapsto> obj))"

lemma extends_refl [simp]: "extends hs hs"
  by (simp add: extends_def)

lemma load_extends: "extends hs (fst (snd (ruby_request_load_handler E m c me hs r)))"
proof -
  obtain q hs' r' where l: "ruby_request_load_handler E m c me hs r = (q, hs', r')" by (metis prod.exhaust)
  from load_handler_cases [OF l] have "extends hs hs'"
  proof (elim disjE exE conjE)
    fix h obj m' c' me'
    assume "handler_id h = m' @ ''::'' @ c' @ ''::'' @ me'" and hs': "hs' = hs(handler_id h \<mapsto> obj)"
      and free: "hs (handler_id h) = None"
    then have "proper_id (handler_id h)" unfolding proper_id_def by blast
    with hs' free show ?thesis by (auto simp: extends_def)
  qed (simp_all add: fun_upd_idem)
  then show ?thesis by (simp add: l)
qed

lemma get_extends:
  "extends hs (fst (snd (ruby_request_get_handler E cfg hs r)))"
  "extends hs (fst (snd (ruby_request_get_access_handler E cfg hs r)))"
  by (auto simp: ruby_request_get_handler_def ruby_request_get_access_handler_def Let_def load_extends
      split: option.split)

lemma handler_map_unchanged:
  "\<exists>hs1. fst (snd (ruby_request_handler E cfg d hs r)) = hs1 \<and> extends hs hs1"
  "\<exists>hs1. fst (snd (ruby_request_access_handler E cfg d hs r)) = hs1 \<and> extends hs hs1"
proof -
  let ?r1 = "snd (ruby_request_init_configuration E cfg d (env_setup_cgi E r))"
  let ?r2 = "snd (ruby_request_init_configuration E cfg d r)"
  obtain q1 h1 s1 where 1: "ruby_request_get_handler E cfg hs ?r1 = (q1, h1, s1)" by (metis prod.exhaust)
  obtain q2 h2 s2 where 2: "ruby_request_get_access_handler E cfg hs ?r2 = (q2, h2, s2)" by (metis prod.exhaust)
  have e: "extends hs h1" "extends hs h2"
    using get_extends(1) [of hs E cfg ?r1] get_extends(2) [of hs E cfg ?r2] 1 2 by simp_all
  show "\<exists>hs1. fst (snd (ruby_request_handler E cfg d hs r)) = hs1 \<and> extends hs hs1"
    using e(1) 1
    by (auto simp: ruby_request_handler_def Let_def ruby_request_init_configuration_def
        split: sum.split option.split prod.split)
  show "\<exists>hs1. fst (snd (ruby_request_access_handler E cfg d hs r)) = hs1 \<and> extends hs hs1"
    using e(2) 2
    by (auto simp: ruby_request_access_handler_def Let_def ruby_request_init_configuration_def
        split: sum.split option.split prod.split)
qed

lemma serves_extends: "serves E hs hs' \<Longrightarrow> extends hs hs'"
  by (erule serves_cases) (metis fst_conv handler_map_unchanged snd_conv)+

lemma served_registered: "served E hs hs' \<Longrightarrow> hs i = Some obj \<Longrightarrow> hs' i = Some obj"
proof (induction rule: served.induct)
  case (more hs hs1 hs2)
  then have "hs1 i = Some obj" by simp
  with serves_extends [OF more.hyps(2)] show ?case by (auto simp: extends_def)
qed simp

lemma served_names:
  "served E hs hs' \<Longrightarrow> hs = (\<lambda>_. None) \<Longrightarrow> hs' i = Some obj \<Longrightarrow> proper_id i"
proof (induction arbitrary: obj rule: served.induct)
  case (more hs hs1 hs2)
  show ?case
  proof (cases "hs1 i")
    case None
    then have "\<exists>j obj. proper_id j \<and> hs2 = hs1(j \<mapsto> obj)"
      using serves_extends [OF more.hyps(2)] more.prems(2) by (auto simp: extends_def)
    then show ?thesis using None more.prems(2) by (auto split: if_splits)
  next
    case (Some obj1)
    then show ?thesis using more.IH more.prems(1) by blast
  qed
qed simp

text \<open>
  C26. However many requests a process has served since it started, with whatever configurations and
  Ruby code, a handler object once registered stays the one its identifier finds, and only
  identifiers of the form module::class::method are registered.
\<close>

theorem handler_objects_persist:
  assumes "served E (\<lambda>_. None) hs" and "served E hs hs'" and "hs i = Some obj"
  shows "hs' i = Some obj \<and> (\<exists>m c me. i = m @ ''::'' @ c @ ''::'' @ me)"
  using served_registered [OF assms(2,3)] served_names [OF assms(1) refl assms(3)]
  unfolding proper_id_def by blast

theorem handler_objects_persist_witness:
  "\<exists>hs. served (demo_env\<lparr>env_table := assoc_table\<lparr>apr_table_get := (\<lambda>_ _. None)\<rparr>\<rparr>) (\<lambda>_. None) hs \<and>
     hs ''m::C::run'' = Some 1 \<and> (\<exists>m c me. ''m::C::run'' = m @ ''::'' @ c @ ''::'' @ me)"
proof -
  let ?E = "demo_env\<lparr>env_table := assoc_table\<lparr>apr_table_get := (\<lambda>_ _. None)\<rparr>\<rparr>"
  let ?cfg = "demo_cfg\<lparr>cfg_default_handler_module := Some ''m'', cfg_default_handler_class := Some ''C'',
    cfg_default_handler_method := Some ''run''\<rparr>"
  obtain res hs r where run: "ruby_request_handler ?E ?cfg demo_dir (\<lambda>_. None) (demo_req\<lparr>r_handler := None\<rparr>) = (res, hs, r)"
    by (metis prod.exhaust)
  then have "hs = [''m::C::run'' \<mapsto> 1]"
    by (simp add: ruby_request_handler_def declines_def demo_env_def ruby_request_init_configuration_def
        ruby_request_get_handler_def or_else_def ruby_request_load_handler_def Handler_def handler_id_def Let_def)
  with served.more [OF served.none serves.content [OF run]] have "served ?E (\<lambda>_. None) [''m::C::run'' \<mapsto> 1]" by simp
  from this handler_objects_persist [OF this served.none, of "''m::C::run''" 1] show ?thesis by auto
qed

section \<open>The content phase\<close>

text \<open>
  C20. A request whose handler name is none of the module's three is declined by all of them and left
  as it was; one of the three names is served by its own handler alone, whose answer, unless it
  declines, is the answer of the phase; a request without a name goes to the generic Ruby handler.
\<close>

theorem content_phase_dispatch:
  assumes "r_handler r = name" and "ruby_request_handler E cfg d hs r = (res, hs1, r1)"
    and "ruby_request_rhtml_handler E rh r = Some (res2, r2)" and "ruby_request_script_handler E rh r = Some (res3, r3)"
  shows "(name \<notin> {None, Some ''ruby-handler'', Some ''ruby-rhtml-handler'', Some ''ruby-script-handler''} \<longrightarrow>
            content_phase E rh cfg d hs r = Some (DECLINED, hs, r)) \<and>
         (name \<in> {None, Some ''ruby-handler''} \<longrightarrow> res \<noteq> DECLINED \<longrightarrow>
            content_phase E rh cfg d hs r = Some (res, hs1, r1)) \<and>
         (name = Some ''ruby-rhtml-handler'' \<longrightarrow> res2 \<noteq> DECLINED \<longrightarrow>
            content_phase E rh cfg d hs r = Some (res2, hs, r2)) \<and>
         (name = Some ''ruby-script-handler'' \<longrightarrow> content_phase E rh cfg d hs r = Some (res3, hs, r3))"
proof (intro conjI impI)
  have ruby: "ruby_request_handler E cfg d hs r = (DECLINED, hs, r)"
    if "declines ''ruby-handler'' r" using that by (simp add: ruby_request_handler_def)
  have gen: "ruby_generic_handler E rh n m r = Some (DECLINED, r)" if "declines n r" for n m
    using that by (simp add: ruby_generic_handler_def)
  note phase = content_phase_def ruby_request_rhtml_handler_def ruby_request_script_handler_def
  show "content_phase E rh cfg d hs r = Some (DECLINED, hs, r)"
    if "name \<notin> {None, Some ''ruby-handler'', Some ''ruby-rhtml-handler'', Some ''ruby-script-handler''}"
  proof -
    have "declines ''ruby-handler'' r" "declines ''ruby-rhtml-handler'' r" "declines ''ruby-script-handler'' r"
      using that assms(1) by (auto simp: declines_def split: option.split)
    then show ?thesis by (simp add: phase ruby gen)
  qed
  show "content_phase E rh cfg d hs r = Some (res, hs1, r1)"
    if "res \<noteq> DECLINED" using that assms(2) by (simp add: content_phase_def)
  show "content_phase E rh cfg d hs r = Some (res2, hs, r2)"
    if "name = Some ''ruby-rhtml-handler''" "res2 \<noteq> DECLINED"
  proof -
    have "declines ''ruby-handler'' r" using that(1) assms(1) by (simp add: declines_def)
    then show ?thesis using that(2) assms(3) by (simp add: content_phase_def ruby)
  qed
  show "content_phase E rh cfg d hs r = Some (res3, hs, r3)" if "name = Some ''ruby-script-handler''"
  proof -
    have "declines ''ruby-handler'' r" "declines ''ruby-rhtml-handler'' r" using that assms(1) by (simp_all add: declines_def)
    then show ?thesis using assms(4) by (simp add: phase ruby gen)
  qed
qed

theorem content_phase_dispatch_witness:
  "content_phase demo_env (Some 0) demo_cfg demo_dir (\<lambda>_. None) demo_req = Some (DECLINED, (\<lambda>_. None), demo_req)"
proof -
  have n: "r_handler demo_req = Some ''other''" by (simp add: demo_req_def)
  obtain res hs1 r1 where 1: "ruby_request_handler demo_env demo_cfg demo_dir (\<lambda>_. None) demo_req = (res, hs1, r1)"
    by (metis prod.exhaust)
  have 2: "ruby_request_rhtml_handler demo_env (Some 0) demo_req = Some (DECLINED, demo_req)"
    "ruby_request_script_handler demo_env (Some 0) demo_req = Some (DECLINED, demo_req)"
    by (simp_all add: ruby_request_rhtml_handler_def ruby_request_script_handler_def ruby_generic_handler_def declines_def n)
  from content_phase_dispatch [OF n 1 2, THEN conjunct1] show ?thesis by simp
qed

end
