(* ===== verification/Options_In_Place.thy ===== *)
theory Options_In_Place
  imports Dispatch_Spec
begin

text \<open>
  The configuration of a request on the tables themselves. Here options and notes are handles of tables in
  the heap, and the loops run the iterator objects of apr_table.cpp, as \<open>ruby_request_init_configuration\<close>
  (module.cpp) does. \<open>Dispatch\<close> describes the same on the tables' contents; the refinement below relates them.
\<close>

section \<open>Iterator objects\<close>

text \<open>\<open>apr_table_elts\<close> is a cast: the header of a table is its handle.\<close>

record table_iterator =
  ti_h :: handle
  ti_i :: int

definition table_from :: "handle \<Rightarrow> handle" where
  "table_from t = t"

definition table_assign_handle :: "handle \<Rightarrow> handle \<Rightarrow> handle" where
  "table_assign_handle this t = t"

definition table_subscript :: "apr_table_api \<Rightarrow> table_heap \<Rightarrow> handle \<Rightarrow> string \<Rightarrow> c_ptr option" where
  "table_subscript A H t key = map_option (\<lambda>e. apr_table_get A e key) (table_elts H t)"

definition iterator_assign_header :: "handle \<Rightarrow> table_iterator \<Rightarrow> table_iterator" where
  "iterator_assign_header h this = this\<lparr>ti_h := h, ti_i := -1\<rparr>"

definition iterator_of :: "handle \<Rightarrow> table_iterator" where
  "iterator_of t = iterator_assign_header t \<lparr>ti_h = None, ti_i = 0\<rparr>"

definition iterator_rebind :: "handle \<Rightarrow> table_iterator \<Rightarrow> table_iterator" where
  "iterator_rebind t this = iterator_assign_header t this"

definition iterator_assign :: "table_iterator \<Rightarrow> table_iterator \<Rightarrow> table_iterator" where
  "iterator_assign this i = (if this \<noteq> i then this\<lparr>ti_h := ti_h i, ti_i := ti_i i\<rparr> else this)"

definition iterator_index :: "table_iterator \<Rightarrow> int" where
  "iterator_index this = ti_i this"

definition iterator_next :: "table_heap \<Rightarrow> table_iterator \<Rightarrow> (bool \<times> table_iterator) option" where
  "iterator_next H this =
     map_option (\<lambda>e. case it_next (length e) (ti_i this) of (ok, i) \<Rightarrow> (ok, this\<lparr>ti_i := i\<rparr>)) (table_elts H (ti_h this))"

definition iterator_key :: "table_heap \<Rightarrow> table_iterator \<Rightarrow> c_ptr option" where
  "iterator_key H this =
     (if ti_i this \<noteq> -1 then Option.bind (table_elts H (ti_h this)) (\<lambda>e. it_key e (ti_i this)) else Some None)"

definition iterator_data :: "table_heap \<Rightarrow> table_iterator \<Rightarrow> c_ptr option" where
  "iterator_data H this =
     (if ti_i this \<noteq> -1 then Option.bind (table_elts H (ti_h this)) (\<lambda>e. it_data e (ti_i this)) else Some None)"

section \<open>The configuration of a request\<close>

text \<open>\<open>while (ti.next()) notes.set(ti.key(), ti.data())\<close>; a table takes no NULL key and no NULL value.\<close>

partial_function (option) copy_loop ::
    "apr_table_api \<Rightarrow> handle \<Rightarrow> table_iterator \<Rightarrow> table_heap \<Rightarrow> (table_iterator \<times> table_heap) option" where
  "copy_loop A nh ti H =
     (case iterator_next H ti of
        None \<Rightarrow> None
      | Some (ok, ti) \<Rightarrow>
          if \<not> ok then Some (ti, H)
          else (case iterator_key H ti of
                  Some (Some k) \<Rightarrow>
                    (case iterator_data H ti of
                       Some (Some d) \<Rightarrow>
                         (case table_set A H nh k d of None \<Rightarrow> None | Some H \<Rightarrow> copy_loop A nh ti H)
                     | _ \<Rightarrow> None)
                | _ \<Rightarrow> None))"

definition copy_options_in :: "apr_table_api \<Rightarrow> handle \<Rightarrow> handle \<Rightarrow> handle \<Rightarrow> table_heap \<Rightarrow> table_heap option" where
  "copy_options_in A server_options dir_opts nh H =
     Option.bind (copy_loop A nh (iterator_of server_options) H) (\<lambda>(ti, H).
       map_option snd (copy_loop A nh (iterator_assign_header dir_opts ti) H))"

definition merge_var_in ::
    "apr_table_api \<Rightarrow> handle \<Rightarrow> handle \<Rightarrow> string \<Rightarrow> c_ptr \<Rightarrow> table_heap \<Rightarrow> (bool \<times> table_heap) option" where
  "merge_var_in A dir_opts t var_name server_config H =
     Option.bind (table_get A H dir_opts var_name) (\<lambda>found.
     Option.bind
       (case found of
          Some v \<Rightarrow> table_set A H t var_name v
        | None \<Rightarrow> (case server_config of Some v \<Rightarrow> table_set A H t var_name v | None \<Rightarrow> Some H)) (\<lambda>H.
     map_option (\<lambda>v. (v \<noteq> None, H)) (table_get A H t var_name)))"

text \<open>The loop over a handler's settings, in the order in which the hash gives them.\<close>

fun copy_settings_in :: "apr_table_api \<Rightarrow> handle \<Rightarrow> entries \<Rightarrow> table_heap \<Rightarrow> table_heap option" where
  "copy_settings_in A nh [] H = Some H"
| "copy_settings_in A nh ((key, data) # hs) H =
     Option.bind (table_set A H nh key data) (copy_settings_in A nh hs)"

definition merge_handler_in ::
    "apr_table_api \<Rightarrow> (apr_hash \<Rightarrow> entries) \<Rightarrow> ruby_config \<Rightarrow> handle \<Rightarrow> handle \<Rightarrow> string \<Rightarrow> table_heap \<Rightarrow> table_heap option" where
  "merge_handler_in A hash_list cfg dir_opts nh var_name H =
     Option.bind (merge_var_in A dir_opts nh var_name (cfg_handler cfg) H) (\<lambda>(ok, H).
       if \<not> ok then Some H
       else Option.bind (table_get A H nh var_name) (\<lambda>name.
         case name of
           None \<Rightarrow> None
         | Some h \<Rightarrow>
             (case ruby_handler_config cfg h of
                None \<Rightarrow> Some H
              | Some h_config \<Rightarrow> copy_settings_in A nh (hash_list h_config) H)))"

definition init_configuration_in ::
    "apr_table_api \<Rightarrow> (apr_hash \<Rightarrow> entries) \<Rightarrow> ruby_config \<Rightarrow> handle \<Rightarrow> handle \<Rightarrow> handle \<Rightarrow> table_heap \<Rightarrow>
     (int \<times> table_heap) option" where
  "init_configuration_in A hash_list cfg server_options dir_opts nh H =
     Option.bind (copy_options_in A server_options dir_opts nh H) (\<lambda>H.
     Option.bind (merge_var_in A dir_opts nh ''RubyDefaultHandlerModule'' (cfg_default_handler_module cfg) H) (\<lambda>(_, H).
     Option.bind (merge_var_in A dir_opts nh ''RubyDefaultHandlerClass'' (cfg_default_handler_class cfg) H) (\<lambda>(_, H).
     Option.bind (merge_var_in A dir_opts nh ''RubyDefaultHandlerMethod'' (cfg_default_handler_method cfg) H) (\<lambda>(_, H).
     Option.bind (merge_handler_in A hash_list cfg dir_opts nh ''RubyHandler'' H) (\<lambda>H.
     map_option (Pair 0) (merge_handler_in A hash_list cfg dir_opts nh ''RubyAccessHandler'' H))))))"

section \<open>Refinement\<close>

text \<open>A heap in which one table's contents are replaced.\<close>

definition put_entries :: "handle \<Rightarrow> entries \<Rightarrow> table_heap \<Rightarrow> table_heap" where
  "put_entries t e H = (case t of None \<Rightarrow> H | Some p \<Rightarrow> H\<lparr>th_tables := (th_tables H)(p \<mapsto> e)\<rparr>)"

lemma put_entries_elts [simp]:
  "t \<noteq> None \<Longrightarrow> table_elts (put_entries t e H) t' = (if t' = t then Some e else table_elts H t')"
  by (cases t; cases t') (auto simp: put_entries_def table_elts_def)

lemma put_entries_twice [simp]: "put_entries t e' (put_entries t e H) = put_entries t e' H"
  by (cases t) (simp_all add: put_entries_def)

lemma put_entries_same: "table_elts H t = Some e \<Longrightarrow> put_entries t e H = H"
  by (cases t) (simp_all add: put_entries_def table_elts_def fun_upd_idem)

lemma table_set_put: "table_elts H t = Some e \<Longrightarrow> table_set A H t k v = Some (put_entries t (apr_table_set A e k v) H)"
  by (cases t) (simp_all add: table_set_def table_update_def table_elts_def put_entries_def)

text \<open>The tables of one request: notes of their own, and options that nothing here writes.\<close>

definition request_tables ::
    "table_heap \<Rightarrow> handle \<Rightarrow> handle \<Rightarrow> handle \<Rightarrow> entries \<Rightarrow> entries \<Rightarrow> entries \<Rightarrow> bool" where
  "request_tables H so dh nh se de ne \<longleftrightarrow>
     table_elts H so = Some se \<and> table_elts H dh = Some de \<and> table_elts H nh = Some ne \<and> nh \<noteq> so \<and> nh \<noteq> dh"

lemma table_set_heap: "nh \<noteq> None \<Longrightarrow> table_set A (put_entries nh n H) nh k v = Some (put_entries nh (apr_table_set A n k v) H)"
  by (simp add: table_set_put)

lemma copy_loop_heap:
  assumes "table_elts H h = Some e" "h \<noteq> nh" "nh \<noteq> None" "m \<le> length e"
  shows "copy_loop A nh \<lparr>ti_h = h, ti_i = int m - 1\<rparr> (put_entries nh n H) =
     Some (\<lparr>ti_h = h, ti_i = int (length e) - 1\<rparr>, put_entries nh (copy_options A (drop m e) n) H)"
  using assms(4)
proof (induction "length e - m" arbitrary: m n)
  case 0
  then show ?case using assms(1-3)
    by (subst copy_loop.simps) (simp add: iterator_next_def it_next_def copy_options_def)
next
  case (Suc l)
  then have m: "m < length e" "e \<noteq> []" by auto
  obtain k v where x: "e ! m = (k, v)" by fastforce
  then have "drop m e = (k, v) # drop (Suc m) e" using m by (simp add: Cons_nth_drop_Suc [symmetric])
  moreover have "copy_loop A nh \<lparr>ti_h = h, ti_i = int (Suc m) - 1\<rparr> (put_entries nh (apr_table_set A n k v) H) =
      Some (\<lparr>ti_h = h, ti_i = int (length e) - 1\<rparr>, put_entries nh (copy_options A (drop (Suc m) e) (apr_table_set A n k v)) H)"
    using Suc.hyps m(1) by (intro Suc.hyps(1)) simp_all
  ultimately show ?case using assms(1-3) m x
    by (subst copy_loop.simps)
      (simp add: iterator_next_def it_next_def iterator_key_def iterator_data_def it_key_def it_data_def it_entry_def
        rd_def table_set_heap copy_options_def)
qed

lemma copy_table_heap:
  assumes "table_elts H h = Some e" "h \<noteq> nh" "nh \<noteq> None"
  shows "\<exists>ti'. copy_loop A nh (iterator_assign_header h ti) (put_entries nh n H) = Some (ti', put_entries nh (copy_options A e n) H)"
  using copy_loop_heap [OF assms, of 0 A n] by (cases ti) (simp add: iterator_assign_header_def)

lemma copy_options_heap:
  assumes "request_tables H so dh nh se de ne"
  shows "copy_options_in A so dh nh (put_entries nh n H) = Some (put_entries nh (copy_options A de (copy_options A se n)) H)"
proof -
  have t: "table_elts H so = Some se" "table_elts H dh = Some de" "so \<noteq> nh" "dh \<noteq> nh" "nh \<noteq> None"
    using assms by (cases nh; auto simp: request_tables_def table_elts_def)+
  obtain ti where "copy_loop A nh (iterator_of so) (put_entries nh n H) = Some (ti, put_entries nh (copy_options A se n) H)"
    unfolding iterator_of_def using copy_table_heap [OF t(1,3,5)] by blast
  moreover obtain ti' where "copy_loop A nh (iterator_assign_header dh ti) (put_entries nh (copy_options A se n) H) =
      Some (ti', put_entries nh (copy_options A de (copy_options A se n)) H)"
    using copy_table_heap [OF t(2,4,5)] by blast
  ultimately show ?thesis by (simp add: copy_options_in_def)
qed

lemma merge_var_heap:
  assumes "table_elts H dh = Some (dir_options d)" "dh \<noteq> nh" "nh \<noteq> None"
  shows "merge_var_in A dh nh var sv (put_entries nh n H) =
    Some (apsnd (\<lambda>n. put_entries nh n H) (merge_var A d var sv n))"
  using assms by (auto simp: merge_var_in_def merge_var_def table_get_def table_set_heap Let_def split: option.split)

lemma copy_settings_heap:
  "nh \<noteq> None \<Longrightarrow> copy_settings_in A nh hs (put_entries nh n H) = Some (put_entries nh (copy_options A hs n) H)"
proof (induction hs arbitrary: n)
  case (Cons x hs)
  then show ?case by (cases x) (simp add: table_set_heap copy_options_def)
qed (simp add: copy_options_def)

lemma merge_handler_heap:
  assumes "table_elts H dh = Some (dir_options d)" "dh \<noteq> nh" "nh \<noteq> None"
  shows "merge_handler_in A hl cfg dh nh var (put_entries nh n H) = Some (put_entries nh (merge_handler A hl cfg d var n) H)"
proof -
  obtain b n' where m: "merge_var A d var (cfg_handler cfg) n = (b, n')" by fastforce
  have "b \<longleftrightarrow> apr_table_get A n' var \<noteq> None" using merge_var_found [of A d var "cfg_handler cfg" n] m by simp
  then show ?thesis using assms(3)
    by (auto simp: merge_handler_in_def merge_handler_def merge_var_heap [OF assms] m table_get_def copy_settings_heap
        split: option.split)
qed

lemma init_configuration_heap:
  assumes "request_tables H so dh nh (cfg_options cfg) (dir_options d) ne"
  shows "init_configuration_in A hl cfg so dh nh H = Some (0, put_entries nh (init_notes A hl cfg d ne) H)"
proof -
  have t: "table_elts H dh = Some (dir_options d)" "dh \<noteq> nh" "nh \<noteq> None"
    using assms by (cases nh; auto simp: request_tables_def table_elts_def)+
  have "H = put_entries nh ne H" using assms by (simp add: put_entries_same request_tables_def)
  then have "copy_options_in A so dh nh H =
      Some (put_entries nh (copy_options A (dir_options d) (copy_options A (cfg_options cfg) ne)) H)"
    using copy_options_heap [OF assms, of A ne] by simp
  then show ?thesis
    by (simp add: init_configuration_in_def merge_var_heap [OF t] merge_handler_heap [OF t] init_notes_def Let_def case_prod_beta)
qed

section \<open>Precedence\<close>

text \<open>
  C13. \<open>ruby_request_init_configuration\<close> runs its loops and lookups on the tables themselves and returns 0.
  It changes no table but the request's notes, which hold what \<open>init_notes\<close> computes from the contents of the
  three tables. Under a user's key they have, in this order, the setting of the request's access handler, that
  of its content handler, the directory's option, the server's option, and what the notes held before. The
  handler names are the directory's, else the server's, else those found in the options.
\<close>

theorem option_precedence:
  assumes "configured A cfg d" "request_tables H so dh nh (cfg_options cfg) (dir_options d) ne"
    and "\<forall>n \<in> set special_names. \<not> same_key n k"
  shows "\<exists>H'. init_configuration_in A hl cfg so dh nh H = Some (0, H') \<and>
     table_elts H' nh = Some (init_notes A hl cfg d ne) \<and> (\<forall>t. t \<noteq> nh \<longrightarrow> table_elts H' t = table_elts H t) \<and>
     table_get A H' nh k = Some (first_of
       [last_entry (handler_settings hl cfg (access_handler_name A hl cfg d ne)) k,
        last_entry (handler_settings hl cfg (content_handler_name A cfg d ne)) k,
        dir_lookup A d k, apr_table_get A (cfg_options cfg) k, apr_table_get A ne k])"
proof -
  have "nh \<noteq> None" using assms(2) by (cases nh) (auto simp: request_tables_def table_elts_def)
  then show ?thesis using init_configuration_heap [OF assms(2), of A hl] init_notes_precedence [OF assms(1,3)]
    by (simp add: table_get_def)
qed

definition demo_heap :: table_heap where
  "demo_heap = \<lparr>th_tables = [0 \<mapsto> cfg_options demo_cfg, 1 \<mapsto> dir_options demo_dir, 2 \<mapsto> []], th_next = 3\<rparr>"

theorem option_precedence_witness:
  "\<exists>H'. init_configuration_in assoc_table (\<lambda>_. []) demo_cfg (Some 0) (Some 1) (Some 2) demo_heap = Some (0, H') \<and>
     table_elts H' (Some 0) = Some [(''k'', ''server'')] \<and> table_get assoc_table H' (Some 2) ''k'' = Some (Some ''dir'')"
proof -
  have "request_tables demo_heap (Some 0) (Some 1) (Some 2) (cfg_options demo_cfg) (dir_options demo_dir) []"
    by (simp add: request_tables_def demo_heap_def table_elts_def)
  moreover have "\<forall>n \<in> set special_names. \<not> same_key n ''k''" by code_simp
  ultimately obtain H' where H': "init_configuration_in assoc_table (\<lambda>_. []) demo_cfg (Some 0) (Some 1) (Some 2) demo_heap = Some (0, H')"
    "table_elts H' (Some 0) = table_elts demo_heap (Some 0)"
    "table_get assoc_table H' (Some 2) ''k'' = Some (first_of
       [last_entry (handler_settings (\<lambda>_. []) demo_cfg (access_handler_name assoc_table (\<lambda>_. []) demo_cfg demo_dir [])) ''k'',
        last_entry (handler_settings (\<lambda>_. []) demo_cfg (content_handler_name assoc_table demo_cfg demo_dir [])) ''k'',
        dir_lookup assoc_table demo_dir ''k'', apr_table_get assoc_table (cfg_options demo_cfg) ''k'', apr_table_get assoc_table [] ''k''])"
    using option_precedence [OF demo_configured, of demo_heap "Some 0" "Some 1" "Some 2" "[]" "''k''" "\<lambda>_. []"] by auto
  moreover have "handler_settings (\<lambda>_. []) cfg n = []" for cfg n by (simp add: handler_settings_def split: option.split)
  moreover have "dir_lookup assoc_table demo_dir ''k'' = Some ''dir''" by code_simp
  ultimately show ?thesis by (simp add: demo_heap_def demo_cfg_def table_elts_def)
qed

end
