(* ===== verification/Request.thy ===== *)
theory Request
  imports Apr_Table Url_Codec
begin

text \<open>
  The request object (request.h, request.cpp): query strings and form data, reading the body from
  the client. Apache's client input is a parameter, a record of its
  three functions with the behaviour the code relies on in \<open>client_laws\<close>. \<^const>\<open>None\<close> as a result
  is an access out of bounds, or a loop that never ends.
\<close>

section \<open>State\<close>

text \<open>
  \<open>ap_get_client_block\<close> returns its result and the bytes it stored; the requested policy is always
  \<open>REQUEST_CHUNKED_DECHUNK\<close>.
\<close>

record 'c client_api =
  setup_client_block :: "'c \<Rightarrow> int \<times> 'c"
  should_client_block :: "'c \<Rightarrow> int \<times> 'c"
  get_client_block :: "'c \<Rightarrow> nat \<Rightarrow> int \<times> string \<times> 'c"

text \<open>The fields of \<open>request_rec\<close> used here, then the members of \<open>Request\<close>; \<open>rq_tables\<close> is the pool's heap of tables.\<close>

record 'c request =
  rq_args :: c_ptr
  rq_method :: string
  rq_bytes_sent :: int
  rq_headers_in :: handle
  rq_client :: 'c
  rq_tables :: table_heap
  rq_form_data :: handle
  rq_queries :: handle
  rq_error :: string
  rq_content :: string
  rq_has_read_content :: bool
  rq_has_setup_client_read :: bool

text \<open>The constructor; \<open>_error\<close> and \<open>_content\<close> start empty.\<close>

definition Request :: "c_ptr \<Rightarrow> string \<Rightarrow> int \<Rightarrow> handle \<Rightarrow> 'c \<Rightarrow> table_heap \<Rightarrow> 'c request" where
  "Request args meth sent hdrs c H =
     \<lparr>rq_args = args, rq_method = meth, rq_bytes_sent = sent, rq_headers_in = hdrs, rq_client = c,
      rq_tables = H, rq_form_data = None, rq_queries = None, rq_error = [], rq_content = [],
      rq_has_read_content = False, rq_has_setup_client_read = False\<rparr>"

text \<open>
  Apache's documentation, for a connection without errors and \<open>rest\<close> the body not read yet: a call
  gives between one byte and as many as were asked for, and zero at the end of the body.
\<close>

definition client_laws :: "'c client_api \<Rightarrow> ('c \<Rightarrow> string) \<Rightarrow> bool" where
  "client_laws K rest \<longleftrightarrow>
     (\<forall>c. rest (snd (setup_client_block K c)) = rest c) \<and>
     (\<forall>c. rest (snd (should_client_block K c)) = rest c) \<and>
     (\<forall>c n len buf c'. 0 < n \<longrightarrow> get_client_block K c n = (len, buf, c') \<longrightarrow>
        (if rest c = [] then len = 0 \<and> rest c' = []
         else 0 < len \<and> len \<le> int n \<and> nat len \<le> length (rest c) \<and>
           buf = take (nat len) (rest c) \<and> rest c' = drop (nat len) (rest c)))"

text \<open>A client that gives at most \<open>m\<close> bytes a call, showing that the laws can hold.\<close>

definition chunk_client :: "nat \<Rightarrow> string client_api" where
  "chunk_client m =
     \<lparr>setup_client_block = (\<lambda>c. (0, c)), should_client_block = (\<lambda>c. (1, c)),
      get_client_block = (\<lambda>c n. let k = min (length c) (min n (Suc m)) in (int k, take k c, drop k c))\<rparr>"

lemma chunk_client_laws: "client_laws (chunk_client m) id"
  by (auto simp: client_laws_def chunk_client_def Let_def)

section \<open>Query strings\<close>

text \<open>One pair: skipped without an equals sign, or when the first one is its last character.\<close>

definition parse_pair :: "apr_table_api \<Rightarrow> handle \<Rightarrow> string \<Rightarrow> table_heap \<Rightarrow> table_heap option" where
  "parse_pair A t p H =
     (case find_at p ''='' 0 of
        None \<Rightarrow> Some H
      | Some found \<Rightarrow>
          if found = length p - 1 then Some H
          else
            Option.bind (url_decode True (Some (take found p))) (\<lambda>k.
            Option.bind (url_decode True (Some (take (length p - 1) (drop (found + 1) p)))) (\<lambda>v.
            table_merge A H t (c_str k) (c_str v))))"

fun parse_pairs :: "apr_table_api \<Rightarrow> handle \<Rightarrow> string list \<Rightarrow> table_heap \<Rightarrow> table_heap option" where
  "parse_pairs A t [] H = Some H"
| "parse_pairs A t (p # ps) H = Option.bind (parse_pair A t p H) (parse_pairs A t ps)"

definition parse_query_string :: "apr_table_api \<Rightarrow> string \<Rightarrow> handle \<Rightarrow> table_heap \<Rightarrow> (bool \<times> table_heap) option" where
  "parse_query_string A inp t H =
     map_option (Pair True) (parse_pairs A t (split (c_str inp) (CHR ''&'') []) H)"

definition queries :: "apr_table_api \<Rightarrow> 'c request \<Rightarrow> (handle \<times> 'c request) option" where
  "queries A s =
     (if rq_queries s \<noteq> None then Some (rq_queries s, s)
      else
        let (t, H) = table_make (rq_tables s) in
        (case rq_args s of
           None \<Rightarrow> Some (t, s\<lparr>rq_tables := H, rq_queries := t\<rparr>)
         | Some args \<Rightarrow>
             Option.bind (parse_query_string A args t H) (\<lambda>(_, H').
             Some (t, s\<lparr>rq_tables := H', rq_queries := t\<rparr>))))"

text \<open>The specification: the pair a piece of the query string stands for, if any.\<close>

definition pair_of :: "string \<Rightarrow> (string \<times> string) option" where
  "pair_of p =
     (case dropWhile (\<lambda>c. c \<noteq> CHR ''='') p of
        _ # v # vs \<Rightarrow> Some (c_str (pct_decode True (takeWhile (\<lambda>c. c \<noteq> CHR ''='') p)), c_str (pct_decode True (v # vs)))
      | _ \<Rightarrow> None)"

definition query_pairs :: "string \<Rightarrow> (string \<times> string) list" where
  "query_pairs s = List.map_filter pair_of (getlines (CHR ''&'') s)"

definition merge_all :: "apr_table_api \<Rightarrow> (string \<times> string) list \<Rightarrow> entries \<Rightarrow> entries" where
  "merge_all A ps e = fold (\<lambda>(k, v) e. apr_table_merge A e k v) ps e"

lemma find_char:
  "find_at p [c] 0 = (if c \<in> set p then Some (length (takeWhile (\<lambda>d. d \<noteq> c) p)) else None)"
proof (cases "c \<in> set p")
  case True
  then obtain x y where p: "p = x @ c # y" "c \<notin> set x" by (metis split_list_first)
  have "find (\<lambda>i. take 1 (drop i p) = [c]) [0..<Suc (length p - 1)] = Some (length x)"
    using p by (auto simp: find_Some_iff nth_append hd_drop_conv_nth take_Suc_conv_app_nth intro!: exI [of _ "length x"])
  moreover have "takeWhile (\<lambda>d. d \<noteq> c) p = x" using p by (simp add: takeWhile_append)
  ultimately show ?thesis using True p(1) by (simp add: find_at_def)
next
  case False
  then have "find (\<lambda>i. take 1 (drop i p) = [c]) is = None" for "is"
    by (auto simp: find_None_iff) (metis in_set_dropD in_set_takeD list.set_intros(1))
  with False show ?thesis by (simp add: find_at_def)
qed

lemma table_update_id:
  "table_elts H t = Some e \<Longrightarrow> f e = e \<Longrightarrow> table_update f H t = Some H"
  by (cases H) (auto simp: table_elts_def table_update_def bind_eq_Some_conv fun_upd_idem)

lemma parse_pair_eq:
  assumes "table_elts H t = Some e" and "NUL \<notin> set p"
  shows "parse_pair A t p H =
    table_update (\<lambda>e. case pair_of p of None \<Rightarrow> e | Some (k, v) \<Rightarrow> apr_table_merge A e k v) H t"
proof (cases "CHR ''='' \<in> set p")
  case True
  then obtain x y where p: "p = x @ CHR ''='' # y" "CHR ''='' \<notin> set x" by (metis split_list_first)
  then have tw: "takeWhile (\<lambda>c. c \<noteq> CHR ''='') p = x" "dropWhile (\<lambda>c. c \<noteq> CHR ''='') p = CHR ''='' # y"
    by (simp_all add: takeWhile_append dropWhile_append)
  show ?thesis
  proof (cases y)
    case Nil
    with p tw show ?thesis
      by (simp add: parse_pair_def find_char pair_of_def table_update_id [OF assms(1)])
  next
    case (Cons v vs)
    then have "take (length p - 1) (drop (length x + 1) p) = y" using p(1) by simp
    with p tw Cons assms(2) show ?thesis
      by (simp add: parse_pair_def find_char pair_of_def url_decode_eq table_merge_def)
  qed
next
  case False
  then have "dropWhile (\<lambda>c. c \<noteq> CHR ''='') p = []" by (auto simp: dropWhile_eq_Nil_conv)
  then have "pair_of p = None" by (simp only: pair_of_def list.case)
  with False show ?thesis
    by (simp add: parse_pair_def find_char table_update_id [OF assms(1)])
qed

lemma merge_all_simps [simp]:
  "merge_all A [] e = e"
  "merge_all A (p # ps) e = merge_all A ps (apr_table_merge A e (fst p) (snd p))"
  by (simp_all add: merge_all_def split_beta)

lemma table_update_Some:
  "table_elts H t = Some e \<Longrightarrow> \<exists>p. t = Some p \<and> table_update f H t = Some (H\<lparr>th_tables := (th_tables H)(p \<mapsto> f e)\<rparr>)"
  by (auto simp: table_elts_def table_update_def bind_eq_Some_conv)

lemma parse_pairs_eq:
  assumes "table_elts H t = Some e" and "\<forall>p \<in> set ps. NUL \<notin> set p"
  shows "parse_pairs A t ps H = table_update (merge_all A (List.map_filter pair_of ps)) H t"
  using assms
proof (induction ps arbitrary: H e)
  case Nil
  then show ?case by (simp add: map_filter_simps table_update_id)
next
  case (Cons p ps)
  define f where "f e = (case pair_of p of None \<Rightarrow> e | Some (k, v) \<Rightarrow> apr_table_merge A e k v)" for e
  obtain a where a: "t = Some a" "th_tables H a = Some e"
    using Cons.prems(1) by (auto simp: table_elts_def bind_eq_Some_conv)
  let ?H = "H\<lparr>th_tables := (th_tables H)(a \<mapsto> f e)\<rparr>"
  have "parse_pair A t p H = Some ?H"
    using parse_pair_eq [OF Cons.prems(1)] Cons.prems(2) a by (simp add: f_def [abs_def] table_update_def)
  moreover have "parse_pairs A t ps ?H = table_update (merge_all A (List.map_filter pair_of ps)) ?H t"
    by (rule Cons.IH [of _ "f e"]) (use a Cons.prems in \<open>auto simp: table_elts_def\<close>)
  ultimately show ?case using a
    by (auto simp: table_update_def f_def map_filter_simps split: option.splits)
qed

lemma parse_query_string_eq:
  assumes "table_elts H t = Some e"
  shows "parse_query_string A inp t H =
    map_option (Pair True) (table_update (merge_all A (query_pairs (c_str inp))) H t)"
proof -
  have "\<forall>p \<in> set (getlines (CHR ''&'') (c_str inp)). NUL \<notin> set p"
    using getlines_chars c_str_no_NUL by fast
  from parse_pairs_eq [OF assms this] show ?thesis
    by (simp add: parse_query_string_def split_def query_pairs_def)
qed

text \<open>The values given for a key, in order.\<close>

definition values_of :: "(string \<times> string) list \<Rightarrow> string \<Rightarrow> string list" where
  "values_of ps k = map snd (filter (\<lambda>(k', v). same_key k' k) ps)"

lemma merge_all_get:
  assumes "apr_table_laws A"
  shows "apr_table_get A (merge_all A ps e) k =
    (case apr_table_get A e k of
       None \<Rightarrow> if values_of ps k = [] then None else Some (intercalate '', '' (values_of ps k))
     | Some w \<Rightarrow> Some (intercalate '', '' (w # values_of ps k)))"
proof (induction ps arbitrary: e)
  case Nil
  then show ?case by (auto simp: values_of_def split: option.split)
next
  case (Cons p ps)
  obtain k' v where p: "p = (k', v)" by (cases p)
  have inter: "intercalate '', '' ((w @ CHR '','' # CHR '' '' # v) # xs) = w @ '', '' @ intercalate '', '' (v # xs)" for w v xs
    by (cases xs) simp_all
  show ?case
  proof (cases "same_key k' k")
    case True
    with apr_laws(8) [OF assms True, of e] show ?thesis
      by (auto simp: p Cons.IH apr_laws(9) [OF assms] values_of_def inter split: option.split)
  next
    case False
    then have "values_of ((k', v) # ps) k = values_of ps k" by (simp add: values_of_def)
    with False show ?thesis
      unfolding p by (simp add: Cons.IH apr_laws(9) [OF assms] cong: option.case_cong)
  qed
qed

text \<open>A query string as \<open>url_encode\<close> and the separators make it.\<close>

fun encode_pair :: "string \<times> string \<Rightarrow> string option" where
  "encode_pair (k, v) =
     Option.bind (url_encode k) (\<lambda>ek. Option.bind (url_encode v) (\<lambda>ev. Some (ek @ ''='' @ ev)))"

lemma enc_no_sep:
  assumes "two_digit s" "c = CHR ''='' \<or> c = CHR ''&''"
  shows "c \<notin> set (enc s)"
proof -
  have "c \<notin> set (enc_char d)" if "16 \<le> code d" "code d < 128" for d
  proof -
    have "fmt_ok (code d)" using fmt_ok_all that by (rule list_all_upt)
    then have d: "fmt_2X d = [hex_digit (code d div 16), hex_digit (code d mod 16)]"
      "hex_val (hex_digit (code d div 16)) \<noteq> None" "hex_val (hex_digit (code d mod 16)) \<noteq> None"
      by (simp_all add: fmt_ok_def code_def)
    have "hex_val c = None" using assms(2) by (auto simp: hex_val_def code_def)
    with d have "c \<notin> set (fmt_2X d)" by auto
    moreover have "\<not> unreserved c" using assms(2) by (auto simp: unreserved_def isalnum_def Let_def code_def)
    ultimately show ?thesis using assms(2) by (auto simp: enc_char_def)
  qed
  with assms(1) show ?thesis by (induction s) (auto simp: two_digit_def)
qed

lemma encode_pair_Some:
  assumes "encode_pair (k, v) = Some p" "two_digit k" "two_digit v"
  shows "pair_of p = Some (k, v) \<and> p \<noteq> [] \<and> CHR ''&'' \<notin> set p \<and> NUL \<notin> set p"
proof -
  from assms have p: "p = enc k @ ''='' @ enc v" and "v \<noteq> []"
    by (auto simp: url_encode_eq two_digit_ascii bind_eq_Some_conv split: if_splits)
  then obtain w ws where v: "enc v = w # ws"
    by (cases v) (auto simp: enc_char_def intro: that split: if_splits)
  from p enc_no_sep [OF assms(2), of "CHR ''=''"]
  have tw: "takeWhile (\<lambda>c. c \<noteq> CHR ''='') p = enc k" "dropWhile (\<lambda>c. c \<noteq> CHR ''='') p = CHR ''='' # enc v"
    by (auto simp: takeWhile_append dropWhile_append)
  have dec: "c_str (pct_decode True (enc s)) = s" if "two_digit s" for s
    using pct_decode_enc [OF that, of "[]"] ascii_no_NUL [OF two_digit_ascii [OF that]] by simp
  have "pair_of p = Some (k, v)" using dec [OF assms(2)] dec [OF assms(3)] by (simp add: pair_of_def tw v)
  then show ?thesis
    using p enc_no_sep [OF assms(2), of "CHR ''&''"] enc_no_sep [OF assms(3), of "CHR ''&''"]
      enc_NUL [OF two_digit_ascii [OF assms(2)]] enc_NUL [OF two_digit_ascii [OF assms(3)]]
    by (auto simp: NUL_def)
qed

lemma query_pairs_encoded:
  assumes "map encode_pair ps = map Some parts" "\<forall>(k, v) \<in> set ps. two_digit k \<and> two_digit v"
  shows "query_pairs (c_str (intercalate ''&'' parts)) = ps"
proof -
  have parts: "\<forall>p \<in> set parts. p \<noteq> [] \<and> CHR ''&'' \<notin> set p \<and> NUL \<notin> set p" and "map pair_of parts = map Some ps"
    using assms
  proof (induction ps arbitrary: parts)
    case (Cons kv ps)
    { case 1 with Cons.IH encode_pair_Some show ?case by (cases parts; cases kv) fastforce+ }
    { case 2 with Cons.IH encode_pair_Some show ?case by (cases parts; cases kv) fastforce+ }
  qed auto
  then have "List.map_filter pair_of parts = ps"
    by (induction parts arbitrary: ps) (auto simp: map_filter_simps map_eq_Cons_conv)
  moreover have "NUL \<notin> set (intercalate ''&'' parts)"
    using parts by (induction "''&''" parts rule: intercalate.induct) (auto simp: NUL_def)
  ultimately show ?thesis using getlines_intercalate [of parts "CHR ''&''"] parts
    by (simp add: query_pairs_def)
qed

text \<open>
  C21. Parsing a query string never reads out of bounds and merges, in order, one entry for each piece
  between ampersands that has a first equals sign with something after it, both sides percent-decoded
  (up to a NUL); other pieces, an empty value among them, are dropped, and no other table changes. A key
  given more than once ends with its values joined by a comma and a blank.
\<close>

theorem parse_query_string_correct:
  assumes "apr_table_laws A" and "table_elts H t = Some e"
  shows "\<exists>p H'. t = Some p \<and> parse_query_string A inp t H = Some (True, H') \<and>
    table_elts H' t = Some (merge_all A (query_pairs (c_str inp)) e) \<and>
    (\<forall>q. q \<noteq> p \<longrightarrow> table_elts H' (Some q) = table_elts H (Some q)) \<and>
    (apr_table_get A e k = None \<longrightarrow>
      table_get A H' t k =
        Some (let vs = values_of (query_pairs (c_str inp)) k in
              if vs = [] then None else Some (intercalate '', '' vs)))"
proof -
  from assms(2) obtain p where "t = Some p" "table_update (merge_all A (query_pairs (c_str inp))) H t =
      Some (H\<lparr>th_tables := (th_tables H)(p \<mapsto> merge_all A (query_pairs (c_str inp)) e)\<rparr>)"
    using table_update_Some by blast
  with assms(2) show ?thesis
    by (simp add: parse_query_string_eq table_elts_def table_get_def merge_all_get [OF assms(1)] Let_def)
qed

theorem parse_query_string_correct_witness:
  "\<exists>H'. parse_query_string assoc_table ''a=1&b&c=&a=2'' (Some 0) \<lparr>th_tables = [0 \<mapsto> []], th_next = 1\<rparr> = Some (True, H') \<and>
     table_get assoc_table H' (Some 0) ''a'' = Some (Some ''1, 2'')"
proof -
  let ?H = "\<lparr>th_tables = [0 \<mapsto> []], th_next = 1\<rparr>" and ?s = "''a=1&b&c=&a=2''"
  have "c_str ?s = ?s" by (rule c_str_id) (simp add: NUL_def)
  moreover have "getlines (CHR ''&'') ?s = [''a=1'', ''b'', ''c='', ''a=2'']"
    using getlines_intercalate [of "[''a=1'', ''b'', ''c='', ''a=2'']" "CHR ''&''"] by simp
  moreover have "pair_of ''a=1'' = Some (''a'', ''1'')" "pair_of ''a=2'' = Some (''a'', ''2'')"
    "pair_of ''b'' = None" "pair_of ''c='' = None"
    by (simp_all add: pair_of_def pct_decode_plain c_str_def NUL_def)
  ultimately have q: "query_pairs (c_str ?s) = [(''a'', ''1''), (''a'', ''2'')]"
    by (simp add: query_pairs_def map_filter_simps)
  have "table_elts ?H (Some 0) = Some []" by (simp add: table_elts_def)
  from parse_query_string_correct [OF assoc_table_laws this, of ?s "''a''"] show ?thesis
    by (auto simp: q values_of_def Let_def apr_laws(1) [OF assoc_table_laws])
qed

lemma parse_new_table:
  assumes "table_make H = (t, H1)"
  shows "\<exists>H'. parse_query_string A inp t H1 = Some (True, H') \<and>
    table_elts H' t = Some (merge_all A (query_pairs (c_str inp)) []) \<and>
    (\<forall>q. q \<noteq> t \<longrightarrow> table_elts H' q = table_elts H q)"
  using assms
  by (auto simp: table_make_def table_elts_def parse_query_string_eq table_update_def split: Option.bind_split)


section \<open>Reading the body\<close>

definition setup_client_read :: "'c client_api \<Rightarrow> 'c request \<Rightarrow> bool \<times> 'c request" where
  "setup_client_read K s =
     (if rq_has_setup_client_read s then (True, s)
      else
        let s = s\<lparr>rq_has_setup_client_read := True\<rparr>;
            (rc, c) = setup_client_block K (rq_client s)
        in if rc \<noteq> 0 then
             (False, s\<lparr>rq_client := c, rq_error := ''Request::form_data(): setup_client_block failed.''\<rparr>)
           else let (b, c) = should_client_block K c in
             if b = 0 then
               (False, s\<lparr>rq_client := c, rq_error := ''Request::form_data(): should_client_block failed.''\<rparr>)
             else (True, s\<lparr>rq_client := c\<rparr>))"

text \<open>
  The loop of \<open>content\<close>: a buffer of 4096 bytes, one of them for the NUL. With a callback each block is
  passed on, together with the user data \<open>u\<close>; without one it is appended to \<open>_content\<close>.
\<close>

partial_function (option) content_loop ::
    "'c client_api \<Rightarrow> (string \<Rightarrow> 'u \<Rightarrow> 'u) option \<Rightarrow> 'c \<Rightarrow> 'u \<Rightarrow> string \<Rightarrow> ('c \<times> 'u \<times> string) option" where
  "content_loop K fn c u acc =
     (let (len, buff, c') = get_client_block K c 4095 in
      if len \<le> 0 then Some (c', u, acc)
      else if 4096 \<le> len then None
      else (case fn of
              Some f \<Rightarrow> content_loop K fn c' (f (take (nat len) buff) u) acc
            | None \<Rightarrow> content_loop K fn c' u (acc @ take (nat len) buff)))"

text \<open>
  \<open>has_read_content\<close> is looked at but nothing follows from it. A body over \<open>max_content_length\<close> is
  detected by the number of bytes sent, and only sets the error text.
\<close>

definition content ::
    "'c client_api \<Rightarrow> int \<Rightarrow> (string \<Rightarrow> 'u \<Rightarrow> 'u) option \<Rightarrow> 'u \<Rightarrow> 'c request \<Rightarrow> (string \<times> 'u \<times> 'c request) option" where
  "content K max_content_length fn u s =
     (let s = (if max_content_length \<noteq> -1 \<and> rq_bytes_sent s > max_content_length
               then s\<lparr>rq_error := ''Request::form_data(): exceded bytes_sent: '' @ show_int max_content_length\<rparr>
               else s);
          s = snd (setup_client_read K s)
      in Option.bind (content_loop K fn (rq_client s) u (rq_content s)) (\<lambda>(c, u, acc).
         Some (acc, u, s\<lparr>rq_client := c, rq_content := acc, rq_has_read_content := True\<rparr>)))"

text \<open>
  The loop of \<open>read_line\<close>: one byte at a time. \<open>content += buff\<close> stops at a NUL, and the character
  before the last is looked at through an index that wraps around for a text of length one.
\<close>

partial_function (option) read_line_loop ::
    "'c client_api \<Rightarrow> 'c \<Rightarrow> string \<Rightarrow> (string \<times> 'c \<times> bool) option" where
  "read_line_loop K c acc =
     (let (len, buff, c') = get_client_block K c 1 in
      if len \<le> 0 then Some (acc, c', True)
      else if 1 < len then None
      else
        let acc = acc @ c_str (take 1 buff) in
        if take 1 buff = [CHR 0x0A] then
          (if length acc < 2 then None
           else if acc ! (length acc - 2) = CHR 0x0D then Some (acc, c', False)
           else read_line_loop K c' acc)
        else read_line_loop K c' acc)"

definition read_line :: "'c client_api \<Rightarrow> 'c request \<Rightarrow> (string \<times> 'c request) option" where
  "read_line K s =
     (if rq_has_read_content s then Some ([], s)
      else
        let s = snd (setup_client_read K s) in
        Option.bind (read_line_loop K (rq_client s) []) (\<lambda>(line, c, at_end).
        Some (line, s\<lparr>rq_client := c, rq_has_read_content := at_end\<rparr>)))"

text \<open>\<open>Request::read\<close> returns Apache's result and the bytes stored in the caller's buffer.\<close>

definition request_read :: "'c client_api \<Rightarrow> nat \<Rightarrow> 'c request \<Rightarrow> int \<times> string \<times> 'c request" where
  "request_read K len s =
     (if rq_has_read_content s then (-1, [], s)
      else
        let s = snd (setup_client_read K s);
            (n, buff, c) = get_client_block K (rq_client s) len
        in (n, buff, s\<lparr>rq_client := c, rq_has_read_content := (n \<le> 0)\<rparr>))"

section \<open>The body, delivered\<close>

lemma get_block:
  assumes "client_laws K rest" "0 < n" "get_client_block K c n = (len, buf, c')"
  shows "if rest c = [] then len = 0 \<and> rest c' = []
    else \<exists>x xs. rest c = (x # xs) @ rest c' \<and> len = int (length (x # xs)) \<and> length (x # xs) \<le> n \<and>
      take (nat len) buf = x # xs"
proof (cases "rest c = []")
  case False
  with assms have l: "0 < len" "len \<le> int n" "nat len \<le> length (rest c)" "buf = take (nat len) (rest c)"
    "rest c' = drop (nat len) (rest c)"
    by (auto simp: client_laws_def split: if_splits)
  with False obtain x xs where x: "take (nat len) (rest c) = x # xs" by (cases "take (nat len) (rest c)") auto
  moreover have "length (x # xs) = nat len" using l(3) x by (metis length_take min.absorb2)
  moreover have "rest c = (x # xs) @ rest c'" using x l(5) by (metis append_take_drop_id)
  ultimately have "rest c = (x # xs) @ rest c' \<and> len = int (length (x # xs)) \<and> length (x # xs) \<le> n \<and>
      take (nat len) buf = x # xs"
    using l(1,2,4) by (simp only: take_take) simp
  then show ?thesis using False by auto
next
  case True
  with assms show ?thesis by (auto simp: client_laws_def)
qed

lemma setup_rest:
  "client_laws K rest \<Longrightarrow> rest (rq_client (snd (setup_client_read K s))) = rest (rq_client s)"
  by (auto simp: setup_client_read_def client_laws_def Let_def split: prod.split) (metis snd_conv)+

lemma setup_keeps:
  "rq_content (snd (setup_client_read K s)) = rq_content s"
  "rq_tables (snd (setup_client_read K s)) = rq_tables s"
  "rq_headers_in (snd (setup_client_read K s)) = rq_headers_in s"
  "rq_form_data (snd (setup_client_read K s)) = rq_form_data s"
  "rq_queries (snd (setup_client_read K s)) = rq_queries s"
  "rq_has_read_content (snd (setup_client_read K s)) = rq_has_read_content s"
  "rq_has_setup_client_read (snd (setup_client_read K s))"
  by (simp_all add: setup_client_read_def Let_def split: prod.split)

lemma content_loop_reads:
  assumes laws: "client_laws K rest"
  shows "\<exists>c' chunks. rest c = concat chunks \<and> (\<forall>x \<in> set chunks. x \<noteq> [] \<and> length x \<le> 4095) \<and> rest c' = [] \<and>
    content_loop K fn c u acc =
      Some (c', case fn of None \<Rightarrow> u | Some f \<Rightarrow> fold f chunks u,
            case fn of None \<Rightarrow> acc @ concat chunks | Some f \<Rightarrow> acc)"
proof (induction "length (rest c)" arbitrary: c u acc rule: less_induct)
  case less
  obtain len buf c' where g: "get_client_block K c 4095 = (len, buf, c')" by (cases "get_client_block K c 4095")
  show ?case
  proof (cases "rest c = []")
    case True
    with get_block [OF laws _ g] have "len = 0" "rest c' = []" by auto
    with g True show ?thesis
      by (intro exI [of _ c'] exI [of _ "[]"]) (simp add: content_loop.simps split: option.split)
  next
    case False
    with get_block [OF laws _ g] obtain x xs where x: "rest c = (x # xs) @ rest c'" "len = int (length (x # xs))"
      "length (x # xs) \<le> 4095" "take (nat len) buf = x # xs" by auto
    define u' acc' where "u' = (case fn of None \<Rightarrow> u | Some f \<Rightarrow> f (x # xs) u)"
      and "acc' = (case fn of None \<Rightarrow> acc @ x # xs | Some f \<Rightarrow> acc)"
    have "content_loop K fn c u acc = content_loop K fn c' u' acc'"
      using g x by (subst content_loop.simps) (auto simp: u'_def acc'_def split: option.split)
    moreover obtain c'' chunks where IH: "rest c' = concat chunks" "\<forall>x \<in> set chunks. x \<noteq> [] \<and> length x \<le> 4095"
      "rest c'' = []" "content_loop K fn c' u' acc' =
        Some (c'', case fn of None \<Rightarrow> u' | Some f \<Rightarrow> fold f chunks u',
            case fn of None \<Rightarrow> acc' @ concat chunks | Some f \<Rightarrow> acc')"
      using less [of c' u' acc'] x(1) by auto
    ultimately show ?thesis using x(1,3)
      by (intro exI [of _ c''] exI [of _ "(x # xs) # chunks"])
        (auto simp: u'_def acc'_def split: option.split)
  qed
qed

lemma content_result:
  assumes "client_laws K rest"
  shows "\<exists>s' chunks. content K m fn u s =
      Some (case fn of None \<Rightarrow> rq_content s @ rest (rq_client s) | Some f \<Rightarrow> rq_content s,
            case fn of None \<Rightarrow> u | Some f \<Rightarrow> fold f chunks u, s') \<and>
    concat chunks = rest (rq_client s) \<and> (\<forall>x \<in> set chunks. x \<noteq> [] \<and> length x \<le> 4095) \<and>
    rq_content s' = (case fn of None \<Rightarrow> rq_content s @ rest (rq_client s) | Some f \<Rightarrow> rq_content s) \<and>
    rest (rq_client s') = [] \<and> rq_has_read_content s' \<and>
    rq_tables s' = rq_tables s \<and> rq_headers_in s' = rq_headers_in s"
proof -
  define s1 where "s1 = (if m \<noteq> -1 \<and> rq_bytes_sent s > m
             then s\<lparr>rq_error := ''Request::form_data(): exceded bytes_sent: '' @ show_int m\<rparr> else s)"
  define s2 where "s2 = snd (setup_client_read K s1)"
  have s2: "rq_content s2 = rq_content s" "rest (rq_client s2) = rest (rq_client s)"
    "rq_tables s2 = rq_tables s" "rq_headers_in s2 = rq_headers_in s"
    by (simp_all add: s2_def setup_keeps setup_rest [OF assms]) (simp_all add: s1_def)
  define acc' where "acc' = (case fn of None \<Rightarrow> rq_content s @ rest (rq_client s) | Some f \<Rightarrow> rq_content s)"
  obtain c' chunks where c: "concat chunks = rest (rq_client s)" "\<forall>x \<in> set chunks. x \<noteq> [] \<and> length x \<le> 4095"
    "rest c' = []" and loop: "content_loop K fn (rq_client s2) u (rq_content s2) =
      Some (c', case fn of None \<Rightarrow> u | Some f \<Rightarrow> fold f chunks u, acc')"
    using content_loop_reads [OF assms, of "rq_client s2" fn u "rq_content s2"] unfolding acc'_def s2 by metis
  have "content K m fn u s = Option.bind (content_loop K fn (rq_client s2) u (rq_content s2)) (\<lambda>(c, u, acc).
       Some (acc, u, s2\<lparr>rq_client := c, rq_content := acc, rq_has_read_content := True\<rparr>))"
    by (simp only: content_def Let_def s1_def s2_def)
  then have "content K m fn u s = Some (acc', case fn of None \<Rightarrow> u | Some f \<Rightarrow> fold f chunks u,
      s2\<lparr>rq_client := c', rq_content := acc', rq_has_read_content := True\<rparr>)"
    by (simp only: loop Option.bind.simps prod.case)
  with c s2 show ?thesis unfolding acc'_def [symmetric]
    by (intro exI [of _ "s2\<lparr>rq_client := c', rq_content := acc', rq_has_read_content := True\<rparr>"] exI [of _ chunks])
      simp
qed

text \<open>
  C22. Reading the body ends and delivers all of it in order: without a callback what was left of it is
  appended to \<open>_content\<close>, with one the callback gets it in non-empty blocks of at most 4095 bytes (so the
  NUL written behind each stays in the buffer) and \<open>_content\<close> keeps its value. Nothing is left, so that
  reading again, which the flag does not prevent, adds nothing.
\<close>

theorem content_reads_body:
  assumes "client_laws K rest"
  shows "(\<exists>s'. content K m None u s = Some (rq_content s @ rest (rq_client s), u, s') \<and>
      rq_content s' = rq_content s @ rest (rq_client s) \<and> rest (rq_client s') = [] \<and> rq_has_read_content s' \<and>
      (\<exists>s''. content K m None u s' = Some (rq_content s', u, s'') \<and> rq_content s'' = rq_content s')) \<and>
    (\<exists>chunks s'. content K m (Some f) u s = Some (rq_content s, fold f chunks u, s') \<and>
      concat chunks = rest (rq_client s) \<and> (\<forall>x \<in> set chunks. x \<noteq> [] \<and> length x \<le> 4095) \<and>
      rq_content s' = rq_content s \<and> rest (rq_client s') = [])"
proof (rule conjI)
  show "\<exists>chunks s'. content K m (Some f) u s = Some (rq_content s, fold f chunks u, s') \<and>
      concat chunks = rest (rq_client s) \<and> (\<forall>x \<in> set chunks. x \<noteq> [] \<and> length x \<le> 4095) \<and>
      rq_content s' = rq_content s \<and> rest (rq_client s') = []"
    using content_result [OF assms, of m "Some f" u s] by auto
  obtain s' where "content K m None u s = Some (rq_content s @ rest (rq_client s), u, s')"
      "rq_content s' = rq_content s @ rest (rq_client s)" "rest (rq_client s') = []" "rq_has_read_content s'"
    using content_result [OF assms, of m None u s] by auto
  moreover from this obtain s'' where "content K m None u s' = Some (rq_content s', u, s'')" "rq_content s'' = rq_content s'"
    using content_result [OF assms, of m None u s'] by auto
  ultimately show "\<exists>s'. content K m None u s = Some (rq_content s @ rest (rq_client s), u, s') \<and>
      rq_content s' = rq_content s @ rest (rq_client s) \<and> rest (rq_client s') = [] \<and> rq_has_read_content s' \<and>
      (\<exists>s''. content K m None u s' = Some (rq_content s', u, s'') \<and> rq_content s'' = rq_content s')"
    by auto
qed

theorem content_reads_body_witness:
  "\<exists>s'. content (chunk_client 1) (-1) None () (Request None ''POST'' 0 None ''a=1&b=2'' \<lparr>th_tables = Map.empty, th_next = 0\<rparr>) =
     Some (''a=1&b=2'', (), s')"
  using content_reads_body [OF chunk_client_laws [of 1], of "-1" "()"
      "Request None ''POST'' 0 None ''a=1&b=2'' \<lparr>th_tables = Map.empty, th_next = 0\<rparr>" "\<lambda>_ u. u"]
  by (auto simp: Request_def)

section \<open>Reading a line\<close>

lemma get_byte:
  assumes "client_laws K rest"
  shows "rest c = x # r \<Longrightarrow> \<exists>buf c'. get_client_block K c 1 = (1, buf, c') \<and> take 1 buf = [x] \<and> rest c' = r"
    and "rest c = [] \<Longrightarrow> \<exists>buf c'. get_client_block K c 1 = (0, buf, c') \<and> rest c' = []"
proof -
  obtain len buf c' where g: "get_client_block K c 1 = (len, buf, c')" by (cases "get_client_block K c 1")
  note b = get_block [OF assms _ g]
  { assume "rest c = x # r" with b g show "\<exists>buf c'. get_client_block K c 1 = (1, buf, c') \<and> take 1 buf = [x] \<and> rest c' = r" by auto }
  { assume "rest c = []" with b g show "\<exists>buf c'. get_client_block K c 1 = (0, buf, c') \<and> rest c' = []" by auto }
qed

text \<open>A text the loop reads over: no NUL, and no newline that ends a line or comes first.\<close>

definition inside_line :: "string \<Rightarrow> string \<Rightarrow> bool" where
  "inside_line acc x \<longleftrightarrow> NUL \<notin> set x \<and>
     (\<forall>p q. x = p @ CHR 0x0A # q \<longrightarrow> acc @ p \<noteq> [] \<and> last (acc @ p) \<noteq> CHR 0x0D)"

lemma inside_line_Cons:
  "inside_line acc (a # x) \<Longrightarrow>
     a \<noteq> NUL \<and> inside_line (acc @ [a]) x \<and> (a = CHR 0x0A \<longrightarrow> acc \<noteq> [] \<and> last acc \<noteq> CHR 0x0D)"
proof -
  assume x: "inside_line acc (a # x)"
  then have all: "a # x = p @ CHR 0x0A # q \<longrightarrow> acc @ p \<noteq> [] \<and> last (acc @ p) \<noteq> CHR 0x0D" for p q
    unfolding inside_line_def by blast
  have "inside_line (acc @ [a]) x" using x all [of "a # p" for p] by (simp add: inside_line_def)
  moreover have "a = CHR 0x0A \<longrightarrow> acc \<noteq> [] \<and> last acc \<noteq> CHR 0x0D" using all [of "[]" x] by simp
  ultimately show ?thesis using x by (auto simp: inside_line_def)
qed

lemma read_line_over:
  assumes laws: "client_laws K rest" and "rest c = x @ r" "inside_line acc x"
  shows "\<exists>c'. rest c' = r \<and> read_line_loop K c acc = read_line_loop K c' (acc @ x)"
  using assms(2,3)
proof (induction x arbitrary: c acc)
  case (Cons a x)
  note a = inside_line_Cons [OF Cons.prems(2)]
  obtain buf c' where g: "get_client_block K c 1 = (1, buf, c')" "take 1 buf = [a]" "rest c' = x @ r"
    using get_byte(1) [OF laws, of c a] Cons.prems(1) by auto
  have "c_str [a] = [a]" using a by (intro c_str_id) auto
  with a have "read_line_loop K c acc = read_line_loop K c' (acc @ [a])"
    by (subst read_line_loop.simps) (auto simp: g(1,2) Let_def nth_append last_conv_nth simp del: One_nat_def)
  with Cons.IH [OF g(3), of "acc @ [a]"] a show ?case by auto
qed auto

lemma read_line_opens:
  assumes "client_laws K rest" "\<not> rq_has_read_content s"
  obtains s1 where "rest (rq_client s1) = rest (rq_client s)"
    "read_line K s = Option.bind (read_line_loop K (rq_client s1) []) (\<lambda>(line, c, at_end).
        Some (line, s1\<lparr>rq_client := c, rq_has_read_content := at_end\<rparr>))"
proof (rule that)
  show "rest (rq_client (snd (setup_client_read K s))) = rest (rq_client s)" by (rule setup_rest [OF assms(1)])
qed (use assms(2) in \<open>simp add: read_line_def Let_def\<close>)

lemma read_line_crlf:
  assumes laws: "client_laws K rest" and "\<not> rq_has_read_content s"
    and "rest (rq_client s) = line @ [CHR 0x0D, CHR 0x0A] @ tail" "inside_line [] (line @ [CHR 0x0D])"
  shows "\<exists>s'. read_line K s = Some (line @ [CHR 0x0D, CHR 0x0A], s') \<and> rest (rq_client s') = tail \<and>
        \<not> rq_has_read_content s'"
proof -
  obtain s1 where s1: "rest (rq_client s1) = rest (rq_client s)"
    and read: "read_line K s = Option.bind (read_line_loop K (rq_client s1) []) (\<lambda>(line, c, at_end).
        Some (line, s1\<lparr>rq_client := c, rq_has_read_content := at_end\<rparr>))"
    by (rule read_line_opens [OF assms(1,2)])
  have NUL: "c_str [CHR 0x0A] = [CHR 0x0A]" by (simp add: NUL_def)
  obtain c where c: "rest c = CHR 0x0A # tail"
    "read_line_loop K (rq_client s1) [] = read_line_loop K c (line @ [CHR 0x0D])"
    using read_line_over [OF laws, of "rq_client s1" "line @ [CHR 0x0D]" "CHR 0x0A # tail" "[]"] s1 assms(3,4) by auto
  obtain buf c' where g: "get_client_block K c 1 = (1, buf, c')" "take 1 buf = [CHR 0x0A]" "rest c' = tail"
    using get_byte(1) [OF laws c(1)] by auto
  from g NUL have "read_line_loop K c (line @ [CHR 0x0D]) = Some (line @ [CHR 0x0D, CHR 0x0A], c', False)"
    by (subst read_line_loop.simps) (simp add: Let_def nth_append del: One_nat_def)
  with g c(2) read show ?thesis by simp
qed

text \<open>
  C36. \<open>read_line\<close> returns the text up to and including the first carriage return and newline, leaving
  what follows; without one it returns all that is left, notes the end, and from then on returns the
  empty string. A body that starts with a newline makes it look in front of the text.
\<close>

theorem read_line_correct:
  assumes laws: "client_laws K rest" and "\<not> rq_has_read_content s"
  shows "(rest (rq_client s) = line @ [CHR 0x0D, CHR 0x0A] @ tail \<and> inside_line [] (line @ [CHR 0x0D]) \<longrightarrow>
      (\<exists>s'. read_line K s = Some (line @ [CHR 0x0D, CHR 0x0A], s') \<and> rest (rq_client s') = tail \<and>
        \<not> rq_has_read_content s')) \<and>
    (rest (rq_client s) = line \<and> inside_line [] line \<longrightarrow>
      (\<exists>s'. read_line K s = Some (line, s') \<and> rest (rq_client s') = [] \<and> read_line K s' = Some ([], s'))) \<and>
    (rest (rq_client s) = CHR 0x0A # tail \<longrightarrow> read_line K s = None)"
proof (intro conjI impI; (elim conjE)?)
  obtain s1 where s1: "rest (rq_client s1) = rest (rq_client s)"
    and read: "read_line K s = Option.bind (read_line_loop K (rq_client s1) []) (\<lambda>(line, c, at_end).
        Some (line, s1\<lparr>rq_client := c, rq_has_read_content := at_end\<rparr>))"
    by (rule read_line_opens [OF assms])
  have NUL: "c_str [CHR 0x0A] = [CHR 0x0A]" by (simp add: NUL_def)
  show "\<exists>s'. read_line K s = Some (line @ [CHR 0x0D, CHR 0x0A], s') \<and> rest (rq_client s') = tail \<and>
        \<not> rq_has_read_content s'"
    if "rest (rq_client s) = line @ [CHR 0x0D, CHR 0x0A] @ tail" "inside_line [] (line @ [CHR 0x0D])"
    using read_line_crlf [OF assms that] .
  { assume "rest (rq_client s) = line" "inside_line [] line"
    then obtain c where c: "rest c = []" "read_line_loop K (rq_client s1) [] = read_line_loop K c line"
      using read_line_over [OF laws, of "rq_client s1" line "[]" "[]"] s1 by auto
    obtain buf c' where g: "get_client_block K c 1 = (0, buf, c')" "rest c' = []"
      using get_byte(2) [OF laws c(1)] by auto
    then have "read_line_loop K c line = Some (line, c', True)" by (subst read_line_loop.simps) (simp del: One_nat_def)
    with g c(2) read show "\<exists>s'. read_line K s = Some (line, s') \<and> rest (rq_client s') = [] \<and> read_line K s' = Some ([], s')"
      by (simp add: read_line_def) }
  { assume "rest (rq_client s) = CHR 0x0A # tail"
    with s1 obtain buf c' where g: "get_client_block K (rq_client s1) 1 = (1, buf, c')" "take 1 buf = [CHR 0x0A]"
      using get_byte(1) [OF laws, of "rq_client s1"] by auto
    then have "read_line_loop K (rq_client s1) [] = None" using NUL by (subst read_line_loop.simps) (simp add: Let_def del: One_nat_def)
    with read show "read_line K s = None" by simp }
qed

theorem read_line_correct_witness:
  "\<exists>s'. read_line (chunk_client 7) (Request None ''POST'' 0 None ''ab\<newline>'' \<lparr>th_tables = Map.empty, th_next = 0\<rparr>) =
       Some (''ab\<newline>'', s') \<and> read_line (chunk_client 7) s' = Some ([], s')"
  using read_line_correct [OF chunk_client_laws [of 7],
      of "Request None ''POST'' 0 None ''ab\<newline>'' \<lparr>th_tables = Map.empty, th_next = 0\<rparr>" "''ab\<newline>''"]
  by (auto simp: Request_def inside_line_def Cons_eq_append_conv NUL_def)

section \<open>Form data\<close>

text \<open>A Content-Type that is missing is a NULL given to \<open>std::string\<close>: \<^const>\<open>None\<close>.\<close>

definition has_form_data :: "apr_table_api \<Rightarrow> 'c request \<Rightarrow> bool option" where
  "has_form_data A s =
     (if c_str (rq_method s) \<noteq> ''POST'' then Some False
      else Option.bind (table_get A (rq_tables s) (rq_headers_in s) ''Content-Type'') (\<lambda>value.
           map_option (\<lambda>x. find_at x ''application/x-www-form-urlencoded'' 0 \<noteq> None) value))"

definition form_data :: "apr_table_api \<Rightarrow> 'c client_api \<Rightarrow> int \<Rightarrow> 'c request \<Rightarrow> (handle \<times> 'c request) option" where
  "form_data A K max_content_length s =
     (if rq_form_data s \<noteq> None then Some (rq_form_data s, s)
      else Option.bind (table_get A (rq_tables s) (rq_headers_in s) ''Content-Type'') (\<lambda>value.
        case value of
          None \<Rightarrow> Some (None, s)
        | Some content_type \<Rightarrow>
            if find_at content_type ''application/x-www-form-urlencoded'' 0 = None then
              let s = s\<lparr>rq_error := ''Request::form_data(): unsupported content type''\<rparr>;
                  (t, H) = table_make (rq_tables s)
              in Option.bind (table_merge A H t ''content-type'' (c_str content_type)) (\<lambda>H.
                 Some (t, s\<lparr>rq_tables := H, rq_form_data := t\<rparr>))
            else
              let (t, H) = table_make (rq_tables s) in
              Option.bind (content K max_content_length None () (s\<lparr>rq_tables := H\<rparr>)) (\<lambda>(_, _, s).
              let s = s\<lparr>rq_content := rq_content s @ [NUL]\<rparr> in
              Option.bind (parse_query_string A (rq_content s) t (rq_tables s)) (\<lambda>(_, H).
              Some (t, s\<lparr>rq_tables := H, rq_form_data := t\<rparr>)))))"

lemma table_make_elts:
  "table_make H = (t, H1) \<Longrightarrow> table_elts H1 t = Some [] \<and> (\<forall>q. q \<noteq> t \<longrightarrow> table_elts H1 q = table_elts H q) \<and> t \<noteq> None"
  by (auto simp: table_make_def table_elts_def split: Option.bind_split)

text \<open>The table the form with the pairs \<open>ps\<close> decodes to: for every key its values, in order.\<close>

definition holds_pairs :: "apr_table_api \<Rightarrow> (string \<times> string) list \<Rightarrow> table_heap \<Rightarrow> handle \<Rightarrow> bool" where
  "holds_pairs A ps H t \<longleftrightarrow> t \<noteq> None \<and>
     (\<forall>k. table_get A H t k =
        Some (let vs = values_of ps k in if vs = [] then None else Some (intercalate '', '' vs)))"

lemma parse_holds_pairs:
  assumes "apr_table_laws A" "table_make H = (t, H1)"
  shows "\<exists>H'. parse_query_string A inp t H1 = Some (True, H') \<and> holds_pairs A (query_pairs (c_str inp)) H' t \<and>
    (\<forall>q. q \<noteq> t \<longrightarrow> table_elts H' q = table_elts H q)"
  using parse_new_table [OF assms(2), of A inp] table_make_elts [OF assms(2)]
  by (auto simp: holds_pairs_def table_get_def merge_all_get [OF assms(1)] apr_laws(1) [OF assms(1)] Let_def)

text \<open>
  C31. Query strings round-trip: for a query string put together from encoded pairs (text of codes 16 to
  127, each with a character that is not escaped), \<open>queries\<close> returns a new table that has under every key
  exactly the values given for it, in order; other tables are as before, and asking again gives the same
  table and changes nothing.
\<close>

theorem queries_roundtrip:
  assumes laws: "apr_table_laws A" and "rq_queries s = None" and "rq_args s = Some (intercalate ''&'' parts)"
    and ps: "map encode_pair ps = map Some parts" "\<forall>(k, v) \<in> set ps. two_digit k \<and> two_digit v"
  shows "\<exists>t s'. queries A s = Some (t, s') \<and> holds_pairs A ps (rq_tables s') t \<and>
    (\<forall>q. q \<noteq> t \<longrightarrow> table_elts (rq_tables s') q = table_elts (rq_tables s) q) \<and> queries A s' = Some (t, s')"
proof -
  obtain t H1 where t: "table_make (rq_tables s) = (t, H1)" by (cases "table_make (rq_tables s)")
  obtain H' where "parse_query_string A (intercalate ''&'' parts) t H1 = Some (True, H')" "holds_pairs A ps H' t"
    "\<forall>q. q \<noteq> t \<longrightarrow> table_elts H' q = table_elts (rq_tables s) q"
    using parse_holds_pairs [OF laws t] query_pairs_encoded [OF ps] by metis
  with assms(2,3) t show ?thesis by (auto simp: queries_def holds_pairs_def)
qed

lemma example_pairs:
  "map encode_pair [(''a'', ''1''), (''b c'', ''2=3'')] = map Some [''a=1'', ''b+c=2%3D3'']"
  "\<forall>(k, v) \<in> set [(''a'', ''1''), (''b c'', ''2=3'')]. two_digit k \<and> two_digit v"
proof -
  show two: "\<forall>(k, v) \<in> set [(''a'', ''1''), (''b c'', ''2=3'')]. two_digit k \<and> two_digit v"
    by (simp add: two_digit_def code_def)
  then have "ascii ''a''" "ascii ''1''" "ascii ''b c''" "ascii ''2=3''" by (auto intro: two_digit_ascii)
  then show "map encode_pair [(''a'', ''1''), (''b c'', ''2=3'')] = map Some [''a=1'', ''b+c=2%3D3'']"
    by (simp add: url_encode_eq escaped_def unreserved_def isalnum_def enc_char_def Let_def fmt_2X_def
        hex_digits.simps hex_digit_def byte_of_def code_def)
qed

theorem queries_roundtrip_witness:
  "\<exists>t s'. queries assoc_table (Request (Some ''a=1&b+c=2%3D3'') ''GET'' 0 None () \<lparr>th_tables = Map.empty, th_next = 0\<rparr>) = Some (t, s') \<and>
     holds_pairs assoc_table [(''a'', ''1''), (''b c'', ''2=3'')] (rq_tables s') t"
  using queries_roundtrip [OF assoc_table_laws _ _ example_pairs,
      of "Request (Some ''a=1&b+c=2%3D3'') ''GET'' 0 None () \<lparr>th_tables = Map.empty, th_next = 0\<rparr>"]
  by (auto simp: Request_def)

lemma form_data_form:
  assumes laws: "apr_table_laws A" and K: "client_laws K rest" and new: "rq_form_data s = None"
    and ct: "table_get A (rq_tables s) (rq_headers_in s) ''Content-Type'' = Some (Some c)"
    and c: "find_at c ''application/x-www-form-urlencoded'' 0 \<noteq> None" "rq_content s = []"
      "rest (rq_client s) = intercalate ''&'' parts" and ps: "map encode_pair ps = map Some parts"
      "\<forall>(k, v) \<in> set ps. two_digit k \<and> two_digit v"
  shows "\<exists>t s'. form_data A K m s = Some (t, s') \<and> holds_pairs A ps (rq_tables s') t \<and> rest (rq_client s') = [] \<and>
     rq_content s' = intercalate ''&'' parts @ [NUL] \<and> form_data A K m s' = Some (t, s')"
proof -
  obtain t H1 where t: "table_make (rq_tables s) = (t, H1)" by (cases "table_make (rq_tables s)")
  then have t0: "t \<noteq> None" "table_elts H1 t = Some []" using table_make_elts by blast+
  obtain s1 where s1: "content K m None () (s\<lparr>rq_tables := H1\<rparr>) = Some (intercalate ''&'' parts, (), s1)"
    "rq_content s1 = intercalate ''&'' parts" "rest (rq_client s1) = []" "rq_tables s1 = H1"
    using content_result [OF K, of m None "()" "s\<lparr>rq_tables := H1\<rparr>"] c by auto
  obtain H' where "parse_query_string A (intercalate ''&'' parts @ [NUL]) t H1 = Some (True, H')" "holds_pairs A ps H' t"
    using parse_holds_pairs [OF laws t] query_pairs_encoded [OF ps] by (metis c_str_prefix)
  with s1 t t0 c ct new show ?thesis by (auto simp: form_data_def)
qed

text \<open>
  C17. \<open>form_data\<close> reads the whole body of a form and returns a table with exactly the pairs encoded in it
  (of characters 16 to 127, the ones the encoder writes as two digits or copies),
  kept for the next call. Without a Content-Type it returns NULL and reads nothing; with one that is not a
  form's, a new table holding that type, with the error text set and the body still unread.
\<close>

theorem form_data_correct:
  assumes laws: "apr_table_laws A" and K: "client_laws K rest" and new: "rq_form_data s = None"
    and ct: "table_get A (rq_tables s) (rq_headers_in s) ''Content-Type'' = Some value"
  shows "(\<forall>c ps parts. value = Some c \<and> find_at c ''application/x-www-form-urlencoded'' 0 \<noteq> None \<and>
      rq_content s = [] \<and> rest (rq_client s) = intercalate ''&'' parts \<and>
      map encode_pair ps = map Some parts \<and> (\<forall>(k, v) \<in> set ps. two_digit k \<and> two_digit v) \<longrightarrow>
      (\<exists>t s'. form_data A K m s = Some (t, s') \<and> holds_pairs A ps (rq_tables s') t \<and> rest (rq_client s') = [] \<and>
         rq_content s' = intercalate ''&'' parts @ [NUL] \<and> form_data A K m s' = Some (t, s'))) \<and>
    (value = None \<longrightarrow> form_data A K m s = Some (None, s)) \<and>
    (\<forall>c. value = Some c \<and> find_at c ''application/x-www-form-urlencoded'' 0 = None \<longrightarrow>
      (\<exists>t s'. form_data A K m s = Some (t, s') \<and> table_get A (rq_tables s') t ''Content-Type'' = Some (Some (c_str c)) \<and>
         rq_client s' = rq_client s \<and> rq_error s' = ''Request::form_data(): unsupported content type'' \<and>
         form_data A K m s' = Some (t, s')))"
proof -
  obtain t H1 where t: "table_make (rq_tables s) = (t, H1)" by (cases "table_make (rq_tables s)")
  then have t0: "t \<noteq> None" "table_elts H1 t = Some []" using table_make_elts by blast+
  have "form_data A K m s = Some (None, s)" if "value = None"
    using that ct new by (simp add: form_data_def)
  moreover have "\<exists>t s'. form_data A K m s = Some (t, s') \<and> holds_pairs A ps (rq_tables s') t \<and> rest (rq_client s') = [] \<and>
         rq_content s' = intercalate ''&'' parts @ [NUL] \<and> form_data A K m s' = Some (t, s')"
    if c: "value = Some c" "find_at c ''application/x-www-form-urlencoded'' 0 \<noteq> None" "rq_content s = []"
      "rest (rq_client s) = intercalate ''&'' parts" and ps: "map encode_pair ps = map Some parts"
      "\<forall>(k, v) \<in> set ps. two_digit k \<and> two_digit v" for c ps parts
    using form_data_form [OF laws K new _ c(2-4) ps] ct c(1) by auto
  moreover have "\<exists>t s'. form_data A K m s = Some (t, s') \<and> table_get A (rq_tables s') t ''Content-Type'' = Some (Some (c_str c)) \<and>
         rq_client s' = rq_client s \<and> rq_error s' = ''Request::form_data(): unsupported content type'' \<and>
         form_data A K m s' = Some (t, s')"
    if c: "value = Some c" "find_at c ''application/x-www-form-urlencoded'' 0 = None" for c
  proof -
    obtain H' where H': "table_merge A H1 t ''content-type'' (c_str c) = Some H'"
      "table_elts H' t = Some (apr_table_merge A [] ''content-type'' (c_str c))"
      using table_update_Some [OF t0(2), of "\<lambda>e. apr_table_merge A e ''content-type'' (c_str c)"]
      by (auto simp: table_merge_def table_elts_def)
    have key: "same_key ''content-type'' ''Content-Type''" by code_simp
    then have "table_get A H' t ''Content-Type'' = Some (Some (c_str c))"
      using H'(2) by (simp add: table_get_def apr_laws(1,9) [OF laws])
    with H'(1) t t0 c ct new show ?thesis by (auto simp: form_data_def)
  qed
  ultimately show ?thesis by blast
qed

theorem form_data_correct_witness:
  "\<exists>t s'. form_data assoc_table (chunk_client 3) (-1)
      (Request None ''POST'' 0 (Some 0) ''a=1&b+c=2%3D3''
        \<lparr>th_tables = [0 \<mapsto> [(''Content-Type'', ''application/x-www-form-urlencoded'')]], th_next = 1\<rparr>) = Some (t, s') \<and>
     holds_pairs assoc_table [(''a'', ''1''), (''b c'', ''2=3'')] (rq_tables s') t"
proof -
  let ?s = "Request None ''POST'' 0 (Some 0) ''a=1&b+c=2%3D3''
        \<lparr>th_tables = [0 \<mapsto> [(''Content-Type'', ''application/x-www-form-urlencoded'')]], th_next = 1\<rparr>"
  have ct: "table_get assoc_table (rq_tables ?s) (rq_headers_in ?s) ''Content-Type'' = Some (Some ''application/x-www-form-urlencoded'')"
    by (simp add: Request_def table_get_def table_elts_def assoc_table_def)
  have new: "rq_form_data ?s = None" by (simp add: Request_def)
  have found: "find_at ''application/x-www-form-urlencoded'' ''application/x-www-form-urlencoded'' 0 \<noteq> None"
    by (simp add: find_at_def)
  have body: "rq_content ?s = []" "id (rq_client ?s) = intercalate ''&'' [''a=1'', ''b+c=2%3D3'']"
    by (simp_all add: Request_def)
  note main = form_data_correct [OF assoc_table_laws chunk_client_laws new ct, of 3 "-1", THEN conjunct1,
      THEN spec, THEN spec [of _ "[(''a'', ''1''), (''b c'', ''2=3'')]"], THEN spec [of _ "[''a=1'', ''b+c=2%3D3'']"],
      THEN mp, OF conjI [OF refl conjI [OF found conjI [OF body(1) conjI [OF body(2) conjI [OF example_pairs]]]]]]
  from main show ?thesis by (elim exE conjE) (intro exI conjI)
qed

end
