(* ===== verification/Apr_Files.thy ===== *)
theory Apr_Files
  imports Ruby_Value "HOL-Library.Signed_Division"
begin

text \<open>
  Files and directories (apr.cpp, apr.h). The file system and APR's functions on it are a parameter, a
  record of operations on a state \<open>'f\<close> with directory streams \<open>'d\<close>; the model adds the program's own
  globals: the last status, the reference count of the library and the pools and streams still open.
\<close>

section \<open>APR's file functions\<close>

text \<open>A directory entry: its name, which may be NULL, and its file type.\<close>

type_synonym dirent = "c_ptr \<times> int"

record ('f, 'd) file_api =
  apr_dir_open :: "'f \<Rightarrow> string \<Rightarrow> int \<times> 'd"
  apr_dir_read :: "'f \<Rightarrow> 'd \<Rightarrow> int \<times> dirent \<times> 'd"
  apr_dir_close :: "'f \<Rightarrow> 'd \<Rightarrow> int"
  apr_dir_remove :: "'f \<Rightarrow> string \<Rightarrow> int \<times> 'f"
  apr_file_remove :: "'f \<Rightarrow> string \<Rightarrow> int \<times> 'f"
  apr_file_copy :: "'f \<Rightarrow> string \<Rightarrow> string \<Rightarrow> int \<times> 'f"
  apr_file_rename :: "'f \<Rightarrow> string \<Rightarrow> string \<Rightarrow> int \<times> 'f"
  apr_file_perms_set :: "'f \<Rightarrow> string \<Rightarrow> int \<Rightarrow> int \<times> 'f"
  apr_dir_make_recursive :: "'f \<Rightarrow> string \<Rightarrow> int \<Rightarrow> int \<times> 'f"
  apr_filepath_get :: "'f \<Rightarrow> int \<times> c_ptr"
  apr_filepath_root :: "'f \<Rightarrow> string \<Rightarrow> int \<times> c_ptr"
  apr_filepath_merge :: "'f \<Rightarrow> string \<Rightarrow> string \<Rightarrow> int \<times> c_ptr"

definition APR_SUCCESS :: int where "APR_SUCCESS = 0"

text \<open>APR's file types, and the status codes the code compares with.\<close>

definition APR_REG :: int where "APR_REG = 1"
definition APR_DIR :: int where "APR_DIR = 2"
definition ENOENT :: int where "ENOENT = 2"
definition EEXIST :: int where "EEXIST = 17"
definition APR_ERELATIVE :: int where "APR_ERELATIVE = 20025"

lemmas apr_codes = APR_SUCCESS_def APR_REG_def APR_DIR_def ENOENT_def EEXIST_def APR_ERELATIVE_def

record 'f apr_state =
  as_fs :: 'f
  as_status :: int
  as_subpools :: nat
  as_streams :: nat

section \<open>The library's life time\<close>

text \<open>
  \<open>refcount\<close> is an unsigned int; \<open>destroy\<close> leaves the pool's address behind. The flags are whether APR is
  initialized, and whether the global pool exists.
\<close>

record apr_library =
  al_refcount :: u32
  al_initialized :: bool
  al_pool_alive :: bool

definition apr_init :: "apr_library \<Rightarrow> apr_library" where
  "apr_init L =
     (let L' = L\<lparr>al_refcount := al_refcount L + 1\<rparr> in
      if al_refcount L = 0 then L'\<lparr>al_initialized := True, al_pool_alive := True\<rparr> else L')"

definition apr_destroy :: "apr_library \<Rightarrow> apr_library" where
  "apr_destroy L =
     (let L' = L\<lparr>al_refcount := al_refcount L - 1\<rparr> in
      if al_refcount L' = 0 then L'\<lparr>al_pool_alive := False\<rparr> else L')"

section \<open>Simple operations\<close>

definition chmod :: "('f, 'd) file_api \<Rightarrow> string \<Rightarrow> int \<Rightarrow> 'f apr_state \<Rightarrow> int \<times> 'f apr_state" where
  "chmod F path perms s = (let (rc, fs) = apr_file_perms_set F (as_fs s) path perms in (rc, s\<lparr>as_fs := fs\<rparr>))"

text \<open>\<open>cp\<close> returns true or false, not a status.\<close>

definition cp :: "('f, 'd) file_api \<Rightarrow> string \<Rightarrow> string \<Rightarrow> 'f apr_state \<Rightarrow> int \<times> 'f apr_state" where
  "cp F src dst s =
     (let (rc, fs) = apr_file_copy F (as_fs s) src dst in
      (if rc = APR_SUCCESS then 1 else 0, s\<lparr>as_fs := fs, as_status := rc\<rparr>))"

definition mv :: "('f, 'd) file_api \<Rightarrow> string \<Rightarrow> string \<Rightarrow> 'f apr_state \<Rightarrow> int \<times> 'f apr_state" where
  "mv F src dst s = (let (rc, fs) = apr_file_rename F (as_fs s) src dst in (rc, s\<lparr>as_fs := fs\<rparr>))"

definition rm :: "('f, 'd) file_api \<Rightarrow> string \<Rightarrow> 'f apr_state \<Rightarrow> int \<times> 'f apr_state" where
  "rm F path s = (let (rc, fs) = apr_file_remove F (as_fs s) path in (rc, s\<lparr>as_fs := fs\<rparr>))"

text \<open>The default permissions are those of the user, \<open>APR_UREAD | APR_UWRITE | APR_UEXECUTE\<close>.\<close>

definition mkdir :: "('f, 'd) file_api \<Rightarrow> string \<Rightarrow> int \<Rightarrow> 'f apr_state \<Rightarrow> int \<times> 'f apr_state" where
  "mkdir F path perms s =
     (let perms = (if perms = -1 then 0x700 else perms);
          (rc, fs) = apr_dir_make_recursive F (as_fs s) path perms;
          s = s\<lparr>as_fs := fs, as_status := rc\<rparr>
      in (if rc = APR_SUCCESS \<or> rc = EEXIST then APR_SUCCESS else rc, s))"

text \<open>Paths. A result string is made from a pointer nothing checked: \<^const>\<open>None\<close> when APR left it NULL.\<close>

definition cwd :: "('f, 'd) file_api \<Rightarrow> 'f apr_state \<Rightarrow> string option" where
  "cwd F s = snd (apr_filepath_get F (as_fs s))"

definition path_is_relative :: "('f, 'd) file_api \<Rightarrow> string \<Rightarrow> 'f apr_state \<Rightarrow> bool" where
  "path_is_relative F path s \<longleftrightarrow> fst (apr_filepath_root F (as_fs s) path) = APR_ERELATIVE"

definition path_merge :: "('f, 'd) file_api \<Rightarrow> string \<Rightarrow> string \<Rightarrow> 'f apr_state \<Rightarrow> string option" where
  "path_merge F root_path add_path s =
     (let add_path = (case add_path of c # cs \<Rightarrow> if c = CHR ''/'' then cs else add_path | [] \<Rightarrow> [])
      in snd (apr_filepath_merge F (as_fs s) root_path add_path))"

text \<open>\<open>rootpath\<close> starts as the empty string, which stays when APR does not set it.\<close>

definition path_root :: "('f, 'd) file_api \<Rightarrow> string \<Rightarrow> 'f apr_state \<Rightarrow> string" where
  "path_root F path s = (case snd (apr_filepath_root F (as_fs s) path) of None \<Rightarrow> [] | Some r \<Rightarrow> r)"

section \<open>rmdir\<close>

text \<open>
  The control points of \<open>rmdir\<close>: entering it with a path, and the head of the loop that reads the
  directory. \<open>apr_status\<close> is a global, which a recursive call overwrites. The path of an entry is read
  through a pointer into a string already destroyed: \<open>freed\<close> is what that memory still holds.
\<close>

datatype 'd rmdir_point = Enter string | Reading string 'd

definition dot_or_dotdot :: "dirent \<Rightarrow> bool option" where
  "dot_or_dotdot e =
     (if snd e \<noteq> APR_DIR then Some False
      else map_option (\<lambda>name. c_str name = ''.'' \<or> c_str name = ''..'') (fst e))"

definition entry_path :: "(string \<Rightarrow> string) \<Rightarrow> string \<Rightarrow> c_ptr \<Rightarrow> string" where
  "entry_path freed path entry =
     (case entry of
        None \<Rightarrow> path
      | Some name \<Rightarrow> if c_str name \<noteq> [] \<and> hd (c_str name) = CHR ''/'' then c_str name
                   else freed (path @ ''/'' @ c_str name))"

definition set_status :: "int \<Rightarrow> 'f apr_state \<Rightarrow> 'f apr_state" where
  "set_status rc s = s\<lparr>as_status := rc\<rparr>"

definition apr_pool_destroy :: "'f apr_state \<Rightarrow> 'f apr_state" where
  "apr_pool_destroy s = s\<lparr>as_subpools := as_subpools s - 1\<rparr>"

text \<open>After the loop: the directory is closed and removed if reading it ended with "no entry".\<close>

definition rmdir_finish :: "('f, 'd) file_api \<Rightarrow> string \<Rightarrow> 'd \<Rightarrow> 'f apr_state \<Rightarrow> int \<times> 'f apr_state" where
  "rmdir_finish F path d s =
     (let s = apr_pool_destroy s in
      if as_status s \<noteq> ENOENT then (as_status s, s)
      else
        let rc = apr_dir_close F (as_fs s) d; s = set_status rc s in
        if rc \<noteq> 0 then (rc, s)
        else
          let (rc, fs) = apr_dir_remove F (as_fs s) path;
              s = set_status rc (s\<lparr>as_fs := fs, as_streams := as_streams s - 1\<rparr>)
          in if rc \<noteq> 0 then (rc, s) else (APR_SUCCESS, s))"

partial_function (option) rmdir_run ::
    "('f, 'd) file_api \<Rightarrow> (string \<Rightarrow> string) \<Rightarrow> 'd rmdir_point \<Rightarrow> 'f apr_state \<Rightarrow> (int \<times> 'f apr_state) option" where
  "rmdir_run F freed pt s =
     (case pt of
        Enter path \<Rightarrow>
          (let path = (if path = [] then ''.'' else path);
               (rc, d) = apr_dir_open F (as_fs s) path;
               s = set_status rc s
           in if rc \<noteq> 0 then Some (rc, s)
              else rmdir_run F freed (Reading path d)
                     (s\<lparr>as_subpools := as_subpools s + 1, as_streams := as_streams s + 1\<rparr>))
      | Reading path d \<Rightarrow>
          (let (rc, e, d) = apr_dir_read F (as_fs s) d; s = set_status rc s in
           if rc \<noteq> APR_SUCCESS then Some (rmdir_finish F path d s)
           else (case dot_or_dotdot e of
               None \<Rightarrow> None
             | Some skip \<Rightarrow>
                 if skip then rmdir_run F freed (Reading path d) s
                 else
                   let fullpath = entry_path freed path (fst e) in
                   if snd e = APR_DIR then
                     Option.bind (rmdir_run F freed (Enter fullpath) s) (\<lambda>(r, s).
                       if r = 0 then Some (as_status s, s) else rmdir_run F freed (Reading path d) s)
                   else
                     let (rc, fs) = apr_file_remove F (as_fs s) fullpath;
                         s = set_status rc (s\<lparr>as_fs := fs\<rparr>)
                     in if rc \<noteq> 0 then Some (rc, apr_pool_destroy s)
                        else rmdir_run F freed (Reading path d) s)))"

definition rmdir :: "('f, 'd) file_api \<Rightarrow> (string \<Rightarrow> string) \<Rightarrow> string \<Rightarrow> 'f apr_state \<Rightarrow> (int \<times> 'f apr_state) option" where
  "rmdir F freed path s = rmdir_run F freed (Enter path) s"

section \<open>File information\<close>

text \<open>
  \<open>apr_finfo_t\<close>: the mask of the fields that are set, and the fields. \<open>apr_stat\<close> is handed a structure
  of zeros to fill in.
\<close>

record finfo =
  fi_valid :: u32
  fi_filetype :: int
  fi_user :: int
  fi_group :: int
  fi_device :: int
  fi_inode :: int
  fi_nlink :: int
  fi_size :: int
  fi_protection :: int
  fi_csize :: int
  fi_atime :: int
  fi_ctime :: int
  fi_mtime :: int
  fi_name :: c_ptr
  fi_fname :: c_ptr

definition zero_finfo :: finfo where
  "zero_finfo =
     \<lparr>fi_valid = 0, fi_filetype = 0, fi_user = 0, fi_group = 0, fi_device = 0, fi_inode = 0, fi_nlink = 0,
      fi_size = 0, fi_protection = 0, fi_csize = 0, fi_atime = 0, fi_ctime = 0, fi_mtime = 0,
      fi_name = None, fi_fname = None\<rparr>"

definition APR_FINFO_LINK :: u32 where "APR_FINFO_LINK = 0x00000001"
definition APR_FINFO_MTIME :: u32 where "APR_FINFO_MTIME = 0x00000010"
definition APR_FINFO_CTIME :: u32 where "APR_FINFO_CTIME = 0x00000020"
definition APR_FINFO_ATIME :: u32 where "APR_FINFO_ATIME = 0x00000040"
definition APR_FINFO_SIZE :: u32 where "APR_FINFO_SIZE = 0x00000100"
definition APR_FINFO_DEV :: u32 where "APR_FINFO_DEV = 0x00001000"
definition APR_FINFO_INODE :: u32 where "APR_FINFO_INODE = 0x00002000"
definition APR_FINFO_NLINK :: u32 where "APR_FINFO_NLINK = 0x00004000"
definition APR_FINFO_TYPE :: u32 where "APR_FINFO_TYPE = 0x00008000"
definition APR_FINFO_USER :: u32 where "APR_FINFO_USER = 0x00010000"
definition APR_FINFO_GROUP :: u32 where "APR_FINFO_GROUP = 0x00020000"
definition APR_FINFO_UPROT :: u32 where "APR_FINFO_UPROT = 0x00100000"
definition APR_FINFO_NAME :: u32 where "APR_FINFO_NAME = 0x02000000"
definition APR_FINFO_MIN :: u32 where "APR_FINFO_MIN = 0x00008170"
definition APR_FINFO_IDENT :: u32 where "APR_FINFO_IDENT = 0x00003000"
definition APR_INCOMPLETE :: int where "APR_INCOMPLETE = 70008"

record file_info =
  fo_valid :: bool
  fo_stat :: finfo

type_synonym stat_api = "string \<Rightarrow> u32 \<Rightarrow> finfo \<Rightarrow> int \<times> finfo"

definition stat_file :: "stat_api \<Rightarrow> string \<Rightarrow> u32 \<Rightarrow> file_info" where
  "stat_file apr_stat filename want_flags =
     (let (ret, st) = apr_stat filename (want_flags OR APR_FINFO_MIN OR APR_FINFO_LINK OR APR_FINFO_IDENT) zero_finfo
      in \<lparr>fo_valid = \<not> (ret \<noteq> APR_SUCCESS \<and> ret \<noteq> APR_INCOMPLETE), fo_stat = st\<rparr>)"

definition file_info_of :: "finfo \<Rightarrow> file_info" where
  "file_info_of s = \<lparr>fo_valid = True, fo_stat = s\<rparr>"

text \<open>\<open>valid(flag)\<close>, and the name, which is NULL unless its flag is set.\<close>

definition has_field :: "file_info \<Rightarrow> u32 \<Rightarrow> bool" where
  "has_field f flag \<longleftrightarrow> fi_valid (fo_stat f) AND flag \<noteq> 0"

definition file_info_name :: "file_info \<Rightarrow> c_ptr" where
  "file_info_name f = (if has_field f APR_FINFO_NAME then fi_name (fo_stat f) else None)"

section \<open>What rmdir removes\<close>

text \<open>A stream that gives the entries \<open>es\<close>, those the directory had when it was opened, and then ends.\<close>

fun lists :: "('f, 'd) file_api \<Rightarrow> 'd \<Rightarrow> dirent list \<Rightarrow> bool" where
  "lists F d [] \<longleftrightarrow> (\<exists>e d'. \<forall>fs. apr_dir_read F fs d = (ENOENT, e, d') \<and> apr_dir_close F fs d' = 0)"
| "lists F d (e # es) \<longleftrightarrow> (\<exists>d'. (\<forall>fs. apr_dir_read F fs d = (APR_SUCCESS, e, d')) \<and> lists F d' es)"

text \<open>Entries without a subdirectory, and the removal of the files among them.\<close>

definition flat_entry :: "dirent \<Rightarrow> bool" where
  "flat_entry e \<longleftrightarrow> dot_or_dotdot e = Some True \<or> snd e \<noteq> APR_DIR"

fun removes :: "('f, 'd) file_api \<Rightarrow> (string \<Rightarrow> string) \<Rightarrow> string \<Rightarrow> dirent list \<Rightarrow> 'f \<Rightarrow> 'f option" where
  "removes F freed path [] fs = Some fs"
| "removes F freed path (e # es) fs =
     (if dot_or_dotdot e = Some True then removes F freed path es fs
      else (case apr_file_remove F fs (entry_path freed path (fst e)) of
              (rc, fs) \<Rightarrow> if rc = 0 then removes F freed path es fs else None))"

lemma rmdir_reads_flat:
  assumes "lists F d (es @ rest)" "list_all flat_entry es" "removes F freed path es (as_fs s) = Some fs"
  shows "\<exists>d' st. lists F d' rest \<and>
    rmdir_run F freed (Reading path d) s = rmdir_run F freed (Reading path d') (s\<lparr>as_fs := fs, as_status := st\<rparr>)"
  using assms
proof (induction es arbitrary: d s)
  case Nil
  then show ?case by (intro exI [of _ d] exI [of _ "as_status s"]) (cases s; simp)
next
  case (Cons e es)
  from Cons.prems(1) obtain d1 where d1: "\<forall>fs. apr_dir_read F fs d = (APR_SUCCESS, e, d1)" "lists F d1 (es @ rest)"
    by auto
  show ?case
  proof (cases "dot_or_dotdot e = Some True")
    case True
    with d1(1) have "rmdir_run F freed (Reading path d) s = rmdir_run F freed (Reading path d1) (set_status APR_SUCCESS s)"
      by (subst rmdir_run.simps) simp
    with Cons.IH [OF d1(2), of "set_status APR_SUCCESS s"] Cons.prems True show ?thesis
      by (simp add: set_status_def)
  next
    case False
    with Cons.prems(2) have e: "snd e \<noteq> APR_DIR" "dot_or_dotdot e = Some False"
      by (auto simp: flat_entry_def dot_or_dotdot_def)
    obtain fs1 where fs1: "apr_file_remove F (as_fs s) (entry_path freed path (fst e)) = (0, fs1)"
      "removes F freed path es fs1 = Some fs"
      using Cons.prems(3) False by (auto split: prod.splits if_splits)
    from d1(1) e fs1(1) have "rmdir_run F freed (Reading path d) s =
        rmdir_run F freed (Reading path d1) (s\<lparr>as_fs := fs1, as_status := 0\<rparr>)"
      by (subst rmdir_run.simps) (simp add: set_status_def)
    with Cons.IH [OF d1(2), of "s\<lparr>as_fs := fs1, as_status := 0\<rparr>"] Cons.prems(2) fs1(2) show ?thesis by simp
  qed
qed

text \<open>A directory that can be opened, lists its entries and has only files, all of which can be removed.\<close>

definition flat_dir :: "('f, 'd) file_api \<Rightarrow> (string \<Rightarrow> string) \<Rightarrow> string \<Rightarrow> 'f \<Rightarrow> 'f \<Rightarrow> bool" where
  "flat_dir F freed path fs fs' \<longleftrightarrow> path \<noteq> [] \<and>
     (\<exists>d es fs1. apr_dir_open F fs path = (0, d) \<and> lists F d es \<and> list_all flat_entry es \<and>
        removes F freed path es fs = Some fs1 \<and> apr_dir_remove F fs1 path = (0, fs'))"

lemma rmdir_flat:
  assumes "flat_dir F freed path (as_fs s) fs'"
  shows "rmdir F freed path s = Some (APR_SUCCESS, s\<lparr>as_fs := fs', as_status := APR_SUCCESS\<rparr>)"
proof -
  from assms obtain d es fs1 where d: "path \<noteq> []" "apr_dir_open F (as_fs s) path = (0, d)" "lists F d (es @ [])"
    "list_all flat_entry es" "removes F freed path es (as_fs s) = Some fs1" "apr_dir_remove F fs1 path = (0, fs')"
    by (auto simp: flat_dir_def)
  define s1 where "s1 = (set_status 0 s)\<lparr>as_subpools := as_subpools s + 1, as_streams := as_streams s + 1\<rparr>"
  have "removes F freed path es (as_fs s1) = Some fs1" using d(5) by (simp add: s1_def set_status_def)
  from rmdir_reads_flat [OF d(3,4) this] obtain d' st where d': "lists F d' []"
    "rmdir_run F freed (Reading path d) s1 = rmdir_run F freed (Reading path d') (s1\<lparr>as_fs := fs1, as_status := st\<rparr>)"
    by blast
  then obtain e d'' where e: "apr_dir_read F fs d' = (ENOENT, e, d'')" "apr_dir_close F fs d'' = 0" for fs
    unfolding lists.simps by blast
  have "rmdir F freed path s = rmdir_run F freed (Reading path d) s1"
    using d(1,2) by (simp add: rmdir_def rmdir_run.simps [of F freed "Enter path"] set_status_def s1_def)
  also have "\<dots> = Some (rmdir_finish F path d'' (s1\<lparr>as_fs := fs1, as_status := ENOENT\<rparr>))"
    unfolding d'(2) by (subst rmdir_run.simps) (simp add: e apr_codes set_status_def)
  finally show ?thesis using e d(6)
    by (simp add: rmdir_finish_def set_status_def apr_pool_destroy_def apr_codes s1_def)
qed

text \<open>
  C38. \<open>rmdir\<close> removes a directory of files: every entry but the two dots, then the directory, with the
  pool and the stream released. Where the directory has a
  subdirectory, it stops there: the recursive call returns 0 for success, which is taken for false, so
  \<open>rmdir\<close> reports success with the later entries and the directory itself still there, and leaks a pool
  and a stream.
\<close>

theorem rmdir_only_flat:
  "(flat_dir F freed path (as_fs s) fs' \<longrightarrow>
      rmdir F freed path s = Some (APR_SUCCESS, s\<lparr>as_fs := fs', as_status := APR_SUCCESS\<rparr>)) \<and>
    (path \<noteq> [] \<and> apr_dir_open F (as_fs s) path = (0, d) \<and> lists F d (files @ (Some sub, APR_DIR) # later) \<and>
     list_all flat_entry files \<and> removes F freed path files (as_fs s) = Some fs1 \<and>
     dot_or_dotdot (Some sub, APR_DIR) = Some False \<and>
     flat_dir F freed (entry_path freed path (Some sub)) fs1 fs2 \<longrightarrow>
       rmdir F freed path s = Some (APR_SUCCESS,
         s\<lparr>as_fs := fs2, as_status := APR_SUCCESS, as_subpools := as_subpools s + 1, as_streams := as_streams s + 1\<rparr>))"
proof (intro conjI impI; (elim conjE)?)
  show "rmdir F freed path s = Some (APR_SUCCESS, s\<lparr>as_fs := fs', as_status := APR_SUCCESS\<rparr>)"
    if "flat_dir F freed path (as_fs s) fs'"
    using that by (rule rmdir_flat)
next
  assume d: "path \<noteq> []" "apr_dir_open F (as_fs s) path = (0, d)" "lists F d (files @ (Some sub, APR_DIR) # later)"
    "list_all flat_entry files" "removes F freed path files (as_fs s) = Some fs1"
    "dot_or_dotdot (Some sub, APR_DIR) = Some False" "flat_dir F freed (entry_path freed path (Some sub)) fs1 fs2"
  define s1 where "s1 = (set_status 0 s)\<lparr>as_subpools := as_subpools s + 1, as_streams := as_streams s + 1\<rparr>"
  have "removes F freed path files (as_fs s1) = Some fs1" using d(5) by (simp add: s1_def set_status_def)
  from rmdir_reads_flat [OF d(3,4) this] obtain d' st where d': "lists F d' ((Some sub, APR_DIR) # later)"
    "rmdir_run F freed (Reading path d) s1 = rmdir_run F freed (Reading path d') (s1\<lparr>as_fs := fs1, as_status := st\<rparr>)"
    by blast
  then obtain d'' where e: "apr_dir_read F fs d' = (APR_SUCCESS, (Some sub, APR_DIR), d'')" for fs
    unfolding lists.simps by blast
  define s2 where "s2 = s1\<lparr>as_fs := fs1, as_status := APR_SUCCESS\<rparr>"
  have inner: "rmdir_run F freed (Enter (entry_path freed path (Some sub))) s2 =
      Some (APR_SUCCESS, s2\<lparr>as_fs := fs2, as_status := APR_SUCCESS\<rparr>)"
    using rmdir_flat [of F freed _ s2 fs2] d(7) by (simp add: s2_def rmdir_def)
  have "rmdir F freed path s = rmdir_run F freed (Reading path d) s1"
    using d(1,2) by (simp add: rmdir_def rmdir_run.simps [of F freed "Enter path"] set_status_def s1_def)
  also have "\<dots> = Some (APR_SUCCESS, s2\<lparr>as_fs := fs2, as_status := APR_SUCCESS\<rparr>)"
    unfolding d'(2) by (subst rmdir_run.simps)
      (simp add: e d(6) set_status_def s2_def [symmetric] inner, simp add: APR_SUCCESS_def)
  finally show "rmdir F freed path s = Some (APR_SUCCESS,
         s\<lparr>as_fs := fs2, as_status := APR_SUCCESS, as_subpools := as_subpools s + 1, as_streams := as_streams s + 1\<rparr>)"
    by (simp add: s1_def s2_def set_status_def)
qed

text \<open>A file system as a list of entries with their directory, to show that the hypotheses can hold.\<close>

definition mem_fs :: "((string \<times> string \<times> int) list, dirent list) file_api" where
  "mem_fs =
     \<lparr>apr_dir_open = (\<lambda>fs p. (0, map (\<lambda>(d, n, t). (Some n, t)) (filter (\<lambda>(d, n, t). d = p) fs))),
      apr_dir_read = (\<lambda>fs es. case es of [] \<Rightarrow> (ENOENT, (None, 0), []) | e # es \<Rightarrow> (APR_SUCCESS, e, es)),
      apr_dir_close = (\<lambda>fs es. 0),
      apr_dir_remove = (\<lambda>fs p. if \<exists>(d, n, t) \<in> set fs. d = p then (39, fs)
         else (0, filter (\<lambda>(d, n, t). d @ ''/'' @ n \<noteq> p) fs)),
      apr_file_remove = (\<lambda>fs p. (0, filter (\<lambda>(d, n, t). d @ ''/'' @ n \<noteq> p) fs)),
      apr_file_copy = (\<lambda>fs p q. (EEXIST, fs)), apr_file_rename = (\<lambda>fs p q. (EEXIST, fs)),
      apr_file_perms_set = (\<lambda>fs p n. (0, fs)), apr_dir_make_recursive = (\<lambda>fs p n. (EEXIST, fs)),
      apr_filepath_get = (\<lambda>fs. (0, Some ''/'')), apr_filepath_root = (\<lambda>fs p. (APR_ERELATIVE, None)),
      apr_filepath_merge = (\<lambda>fs r p. (0, Some (r @ ''/'' @ p)))\<rparr>"

theorem rmdir_only_flat_witness:
  "rmdir mem_fs id ''a'' \<lparr>as_fs = [(''a'', ''x'', 1), (''a'', ''s'', 2), (''a'', ''y'', 1), (''a/s'', ''z'', 1)],
       as_status = 0, as_subpools = 0, as_streams = 0\<rparr> =
     Some (0, \<lparr>as_fs = [(''a'', ''y'', 1)], as_status = 0, as_subpools = 1, as_streams = 1\<rparr>)"
proof -
  let ?fs = "[(''a'', ''x'', 1), (''a'', ''s'', 2), (''a'', ''y'', 1), (''a/s'', ''z'', 1)]"
    and ?d = "[(Some ''x'', 1), (Some ''s'', 2), (Some ''y'', 1)]"
  have str: "c_str ''x'' = ''x''" "c_str ''s'' = ''s''" "c_str ''y'' = ''y''" "c_str ''z'' = ''z''"
    by (simp_all add: c_str_def NUL_def)
  note m = mem_fs_def apr_codes flat_entry_def dot_or_dotdot_def entry_path_def str
  have "flat_dir mem_fs id ''a/s'' [(''a'', ''s'', 2), (''a'', ''y'', 1), (''a/s'', ''z'', 1)] [(''a'', ''y'', 1)]"
    unfolding flat_dir_def
    by (intro conjI exI [of _ "[(Some ''z'', 1)]"] exI [of _ "[(''a'', ''s'', 2), (''a'', ''y'', 1)]"]) (simp_all add: m)
  moreover have "lists mem_fs ?d ([(Some ''x'', 1)] @ (Some ''s'', APR_DIR) # [(Some ''y'', 1)])"
    by (simp add: m)
  ultimately show ?thesis
    using rmdir_only_flat [of mem_fs id "''a''" "\<lparr>as_fs = ?fs, as_status = 0, as_subpools = 0, as_streams = 0\<rparr>" ?fs
      ?d "[(Some ''x'', 1)]" "''s''" "[(Some ''y'', 1)]" "[(''a'', ''s'', 2), (''a'', ''y'', 1), (''a/s'', ''z'', 1)]"
      "[(''a'', ''y'', 1)]", THEN conjunct2]
    by (simp add: m)
qed

section \<open>Counting users of the library\<close>

fun library_run :: "bool list \<Rightarrow> apr_library \<Rightarrow> apr_library" where
  "library_run [] L = L"
| "library_run (b # bs) L = library_run bs (if b then apr_init L else apr_destroy L)"

fun users :: "bool list \<Rightarrow> int \<Rightarrow> int" where
  "users [] n = n"
| "users (b # bs) n = users bs (if b then n + 1 else n - 1)"

fun balanced :: "bool list \<Rightarrow> int \<Rightarrow> bool" where
  "balanced [] n \<longleftrightarrow> 0 \<le> n \<and> n < 2 ^ 32"
| "balanced (b # bs) n \<longleftrightarrow> 0 \<le> n \<and> n < 2 ^ 32 \<and> balanced bs (if b then n + 1 else n - 1)"

definition counts :: "apr_library \<Rightarrow> int \<Rightarrow> bool" where
  "counts L n \<longleftrightarrow> uint (al_refcount L) = n \<and> (al_pool_alive L \<longleftrightarrow> 0 < n)"

lemma balanced_bounds: "balanced bs n \<Longrightarrow> 0 \<le> n \<and> n < 2 ^ 32"
  by (cases bs) simp_all

lemma counts_init: "counts L n \<Longrightarrow> n + 1 < 2 ^ 32 \<Longrightarrow> counts (apr_init L) (n + 1)"
proof -
  assume L: "counts L n" "n + 1 < 2 ^ 32"
  then have n: "0 \<le> n" by (auto simp: counts_def)
  with L have u: "uint (al_refcount L + 1) = n + 1" by (simp add: counts_def uint_word_ariths)
  from n L u show ?thesis by (auto simp: counts_def apr_init_def Let_def word_uint_eq_iff)
qed

lemma counts_destroy: "counts L n \<Longrightarrow> 0 \<le> n - 1 \<Longrightarrow> counts (apr_destroy L) (n - 1)"
proof -
  assume L: "counts L n" "0 \<le> n - 1"
  moreover have "uint (al_refcount L) < 2 ^ 32" using uint_bounded [of "al_refcount L"] by simp
  ultimately have u: "uint (al_refcount L - 1) = n - 1" by (simp add: counts_def uint_word_ariths)
  with L show ?thesis by (auto simp: counts_def apr_destroy_def Let_def word_uint_eq_iff)
qed

text \<open>
  While no user leaves that did not enter (and there are fewer than \<open>2 ^ 32\<close>), the reference count is
  the number of users and the global pool exists exactly while there are any. One \<open>destroy\<close> too many makes
  the count wrap around, and the next \<open>init\<close> creates no pool.
\<close>

lemma library_pool_alive:
  "(balanced ops 0 \<longrightarrow> counts (library_run ops \<lparr>al_refcount = 0, al_initialized = False, al_pool_alive = False\<rparr>) (users ops 0)) \<and>
   \<not> al_pool_alive (library_run [False, True] \<lparr>al_refcount = 0, al_initialized = False, al_pool_alive = False\<rparr>)"
proof (rule conjI)
  have "counts L n \<Longrightarrow> balanced ops n \<Longrightarrow> counts (library_run ops L) (users ops n)" for L n
  proof (induction ops arbitrary: L n)
    case (Cons b ops)
    then have "balanced ops (if b then n + 1 else n - 1)" by simp
    with Cons.prems(1) balanced_bounds [OF this] show ?case
      by (cases b) (auto intro!: Cons.IH counts_init counts_destroy)
  qed simp
  moreover have "counts \<lparr>al_refcount = 0, al_initialized = False, al_pool_alive = False\<rparr> 0" by (simp add: counts_def)
  ultimately show "balanced ops 0 \<longrightarrow>
      counts (library_run ops \<lparr>al_refcount = 0, al_initialized = False, al_pool_alive = False\<rparr>) (users ops 0)" by blast
qed (simp add: apr_init_def apr_destroy_def Let_def)

end
