(* ===== verification/Ruby_Binding.thy ===== *)
theory Ruby_Binding
  imports Ruby_Value
begin

text \<open>
  What the Ruby classes of the module share: the conversions between Ruby and C values on a 64-bit
  platform, and method tables, the lists of \<open>rb_define_method\<close> calls of each \<open>init_\<close> function.
\<close>

section \<open>Conversions\<close>

text \<open>\<open>INT2FIX\<close> shifts a long by one bit, \<open>INT2NUM\<close> takes an int: larger values lose their upper bits.\<close>

definition INT2FIX :: "int \<Rightarrow> ruby_value" where
  "INT2FIX i = Fixnum (signed_take_bit 62 i)"

definition INT2NUM :: "int \<Rightarrow> ruby_value" where
  "INT2NUM i = Fixnum (signed_take_bit 31 i)"

text \<open>\<open>Check_Type(v, T_FIXNUM)\<close> followed by \<open>NUM2INT(v)\<close>.\<close>

definition in_i32 :: "int \<Rightarrow> bool" where
  "in_i32 i \<longleftrightarrow> - (2 ^ 31) \<le> i \<and> i < 2 ^ 31"

fun fixnum_arg :: "ruby_value \<Rightarrow> int ruby_result" where
  "fixnum_arg (Fixnum i) = (if in_i32 i then Inr i else Inl RangeError)"
| "fixnum_arg _ = Inl TypeError"

text \<open>The getters' idiom: nil for NULL, a new string otherwise.\<close>

definition str_or_nil :: "c_ptr \<Rightarrow> ruby_value" where
  "str_or_nil p = (case p of None \<Rightarrow> Qnil | Some s \<Rightarrow> Str (c_str s))"

lemma signed_take_bit_id:
  "- (2 ^ n) \<le> i \<Longrightarrow> i < 2 ^ n \<Longrightarrow> signed_take_bit n i = (i :: int)"
  by (simp add: signed_take_bit_int_eq_self_iff)

lemma INT2NUM_in_i32: "INT2NUM i = Fixnum i \<longleftrightarrow> in_i32 i"
  by (auto simp: INT2NUM_def in_i32_def signed_take_bit_int_eq_self_iff)

text \<open>A message given to \<open>rb_raise\<close> or to the log as its format: a directive has no argument to print.\<close>

fun as_format :: "string \<Rightarrow> string option" where
  "as_format [] = Some []"
| "as_format (c # cs) =
     (if c \<noteq> CHR ''%'' then map_option (Cons c) (as_format cs)
      else (case cs of d # ds \<Rightarrow> if d = CHR ''%'' then map_option (Cons c) (as_format ds) else None | [] \<Rightarrow> None))"

section \<open>Method tables\<close>

text \<open>
  A C function behind a method has a fixed number of parameters beside the receiver; it reads and
  changes the state \<open>'s\<close>, returns a value or raises, and is \<^const>\<open>None\<close> where C leaves it undefined.
\<close>

type_synonym 's c_result = "(ruby_value \<times> 's) ruby_result option"

datatype 's c_fn =
    Fn0 "'s \<Rightarrow> 's c_result"
  | Fn1 "ruby_value \<Rightarrow> 's \<Rightarrow> 's c_result"
  | Fn2 "ruby_value \<Rightarrow> ruby_value \<Rightarrow> 's \<Rightarrow> 's c_result"
  | Fn3 "ruby_value \<Rightarrow> ruby_value \<Rightarrow> ruby_value \<Rightarrow> 's \<Rightarrow> 's c_result"
  | FnN "ruby_value list \<Rightarrow> 's \<Rightarrow> 's c_result"

text \<open>Called with the wrong number of arguments, a C function has no defined behaviour.\<close>

fun apply_fn :: "'s c_fn \<Rightarrow> ruby_value list \<Rightarrow> 's \<Rightarrow> 's c_result" where
  "apply_fn (Fn0 f) [] s = f s"
| "apply_fn (Fn1 f) [a] s = f a s"
| "apply_fn (Fn2 f) [a, b] s = f a b s"
| "apply_fn (Fn3 f) [a, b, c] s = f a b c s"
| "apply_fn (FnN f) as s = f as s"
| "apply_fn _ _ s = None"

fun arity_matches :: "'s c_fn \<Rightarrow> int \<Rightarrow> bool" where
  "arity_matches (Fn0 _) n \<longleftrightarrow> n = 0"
| "arity_matches (Fn1 _) n \<longleftrightarrow> n = 1"
| "arity_matches (Fn2 _) n \<longleftrightarrow> n = 2"
| "arity_matches (Fn3 _) n \<longleftrightarrow> n = 3"
| "arity_matches (FnN _) n \<longleftrightarrow> n = -1"

text \<open>\<open>rb_define_method(cls, name, fn, arity)\<close>; a later definition replaces an earlier one.\<close>

type_synonym 's method_table = "(string \<times> 's c_fn \<times> int) list"

definition find_method :: "'s method_table \<Rightarrow> string \<Rightarrow> ('s c_fn \<times> int) option" where
  "find_method tab name = map_of (rev tab) name"

lemma find_method_Nil: "find_method [] name = None"
  by (simp add: find_method_def)

lemma find_method_Cons: "find_method ((k, f) # tab) name =
    (case find_method tab name of None \<Rightarrow> if k = name then Some f else None | Some g \<Rightarrow> Some g)"
  by (simp add: find_method_def map_add_def split: option.split)

text \<open>Ruby checks the number of arguments against the arity registered, and calls the function.\<close>

definition rb_call :: "'s method_table \<Rightarrow> string \<Rightarrow> ruby_value list \<Rightarrow> 's \<Rightarrow> 's c_result" where
  "rb_call tab name as s =
     (case find_method tab name of
        None \<Rightarrow> Some (Inl NoMethodError)
      | Some (f, n) \<Rightarrow> if n \<ge> 0 \<and> int (length as) \<noteq> n then Some (Inl ArgumentError) else apply_fn f as s)"

text \<open>With a matching arity the function gets all its arguments.\<close>

lemma apply_fn_defined:
  assumes "arity_matches f n" "n < 0 \<or> int (length as) = n"
  shows "(\<exists>g. f = Fn0 g \<and> as = [] \<and> apply_fn f as s = g s) \<or>
    (\<exists>g a. f = Fn1 g \<and> as = [a] \<and> apply_fn f as s = g a s) \<or>
    (\<exists>g a b. f = Fn2 g \<and> as = [a, b] \<and> apply_fn f as s = g a b s) \<or>
    (\<exists>g a b c. f = Fn3 g \<and> as = [a, b, c] \<and> apply_fn f as s = g a b c s) \<or>
    (\<exists>g. f = FnN g \<and> apply_fn f as s = g as s)"
  using assms by (cases f; cases as; cases "tl as"; cases "tl (tl as)"; cases "tl (tl (tl as))") auto

text \<open>A total method, and a getter that changes nothing.\<close>

definition getter :: "('s \<Rightarrow> ruby_value) \<Rightarrow> 's c_fn" where
  "getter g = Fn0 (\<lambda>s. Some (Inr (g s, s)))"

lemma arity_getter [simp]: "arity_matches (getter g) n \<longleftrightarrow> n = 0"
  by (simp add: getter_def)

end
