(* ===== verification/Ruby_File_Info.thy ===== *)
theory Ruby_File_Info
  imports Apr_Files Ruby_Binding Md5 Sha1_Endian
begin

text \<open>
  The Ruby class of file information (ruby_apr_file_info.cpp) and the module functions on files
  (ruby_apr.cpp, ruby_apr_pool.cpp). A FileInfo object wraps a pointer; \<^const>\<open>None\<close> is the pointer that
  the allocator leaves as \<open>malloc\<close> returned it, which every method follows.
\<close>

section \<open>Getters\<close>

type_synonym finfo_object = "file_info option"

definition on_finfo :: "(file_info \<Rightarrow> ruby_value) \<Rightarrow> finfo_object c_fn" where
  "on_finfo g = Fn0 (\<lambda>w. case w of None \<Rightarrow> None | Some f \<Rightarrow> Some (Inr (g f, w)))"

text \<open>Times are in microseconds; the division rounds towards zero.\<close>

definition finfo_m_atime :: "file_info \<Rightarrow> ruby_value" where
  "finfo_m_atime f = (if has_field f APR_FINFO_ATIME then INT2NUM (fi_atime (fo_stat f) sdiv 1000000) else Qnil)"

definition finfo_m_ctime :: "file_info \<Rightarrow> ruby_value" where
  "finfo_m_ctime f = (if has_field f APR_FINFO_CTIME then INT2NUM (fi_ctime (fo_stat f) sdiv 1000000) else Qnil)"

definition finfo_m_mtime :: "file_info \<Rightarrow> ruby_value" where
  "finfo_m_mtime f = (if has_field f APR_FINFO_MTIME then INT2NUM (fi_mtime (fo_stat f) sdiv 1000000) else Qnil)"

definition finfo_m_size :: "file_info \<Rightarrow> ruby_value" where
  "finfo_m_size f = (if has_field f APR_FINFO_SIZE then INT2NUM (fi_size (fo_stat f)) else Qnil)"

definition finfo_m_csize :: "file_info \<Rightarrow> ruby_value" where
  "finfo_m_csize f = INT2NUM (fi_csize (fo_stat f))"

definition finfo_m_device :: "file_info \<Rightarrow> ruby_value" where
  "finfo_m_device f = (if has_field f APR_FINFO_DEV then INT2FIX (fi_device (fo_stat f)) else Qnil)"

definition finfo_m_group :: "file_info \<Rightarrow> ruby_value" where
  "finfo_m_group f = (if has_field f APR_FINFO_GROUP then INT2FIX (fi_group (fo_stat f)) else Qnil)"

definition finfo_m_inode :: "file_info \<Rightarrow> ruby_value" where
  "finfo_m_inode f = (if has_field f APR_FINFO_INODE then INT2FIX (fi_inode (fo_stat f)) else Qnil)"

definition finfo_m_nlink :: "file_info \<Rightarrow> ruby_value" where
  "finfo_m_nlink f = (if has_field f APR_FINFO_NLINK then INT2FIX (fi_nlink (fo_stat f)) else Qnil)"

definition finfo_m_protection :: "file_info \<Rightarrow> ruby_value" where
  "finfo_m_protection f = (if has_field f APR_FINFO_UPROT then INT2FIX (fi_protection (fo_stat f)) else Qnil)"

definition finfo_m_type :: "file_info \<Rightarrow> ruby_value" where
  "finfo_m_type f = (if has_field f APR_FINFO_TYPE then INT2FIX (fi_filetype (fo_stat f)) else Qnil)"

definition finfo_m_user :: "file_info \<Rightarrow> ruby_value" where
  "finfo_m_user f = (if has_field f APR_FINFO_USER then INT2FIX (fi_user (fo_stat f)) else Qnil)"

definition finfo_m_fname :: "file_info \<Rightarrow> ruby_value" where
  "finfo_m_fname f = str_or_nil (fi_fname (fo_stat f))"

definition finfo_m_name :: "file_info \<Rightarrow> ruby_value" where
  "finfo_m_name f = (if has_field f APR_FINFO_NAME then str_or_nil (file_info_name f) else Qnil)"

definition finfo_m_valid :: "file_info \<Rightarrow> ruby_value" where
  "finfo_m_valid f = (if fo_valid f then Qtrue else Qfalse)"

text \<open>The mode: APR's bits for the user are two, those for the group one place too far left.\<close>

definition finfo_m_mode :: "file_info \<Rightarrow> ruby_value" where
  "finfo_m_mode f =
     (let perm = fi_protection (fo_stat f)
      in INT2FIX ((448 AND drop_bit 2 perm) OR (56 AND drop_bit 1 perm) OR (7 AND perm)))"

text \<open>
  The digests of the file's contents; for a file that cannot be read the printed MD5 is memory the
  constructor did not set, which is \<^const>\<open>None\<close>, and the printed SHA1 what the new object \<open>fresh\<close> holds.
\<close>

definition finfo_m_md5 :: "(c_ptr \<Rightarrow> file_read) \<Rightarrow> bool \<Rightarrow> finfo_object c_fn" where
  "finfo_m_md5 disk le = Fn0 (\<lambda>w.
     Option.bind w (\<lambda>f.
     Option.bind (md5_of_path le md5_new (disk (fi_fname (fo_stat f)))) (\<lambda>md5h.
     Option.bind (hash_str md5h) (\<lambda>result. Some (Inr (Str (c_str result), w))))))"

definition finfo_m_sha1 :: "(c_ptr \<Rightarrow> file_read) \<Rightarrow> 'c apr_sha1 \<Rightarrow> 'c sha1_state \<Rightarrow> finfo_object c_fn" where
  "finfo_m_sha1 disk apr fresh = Fn0 (\<lambda>w.
     Option.bind w (\<lambda>f.
     Option.bind (hashfile apr fresh (disk (fi_fname (fo_stat f)))) (\<lambda>(_, sha).
       Some (Inr (Str (c_str (sha1_result sha)), w)))))"

section \<open>Creation and the method table\<close>

text \<open>\<open>require_class\<close>: an instance of exactly that class.\<close>

definition require_class :: "ruby_value \<Rightarrow> string \<Rightarrow> unit ruby_result" where
  "require_class x cls =
     (case x of Obj c _ \<Rightarrow> if c = cls then Inr () else Inl (RuntimeError ''wrong argument type'')
      | _ \<Rightarrow> Inl (RuntimeError ''wrong argument type''))"

definition data_arg :: "ruby_value \<Rightarrow> unit ruby_result" where
  "data_arg v = (case v of Obj _ _ \<Rightarrow> Inr () | _ \<Rightarrow> Inl TypeError)"

definition fixnum_check :: "ruby_value \<Rightarrow> unit ruby_result" where
  "fixnum_check v = (case v of Fixnum _ \<Rightarrow> Inr () | _ \<Rightarrow> Inl TypeError)"

definition finfo_m_init :: "stat_api \<Rightarrow> ruby_value \<Rightarrow> ruby_value \<Rightarrow> ruby_value \<Rightarrow> ruby_value \<Rightarrow> finfo_object \<Rightarrow> finfo_object c_result" where
  "finfo_m_init apr_stat self path pool want_flags w = Some (
     and_then (string_arg path) (\<lambda>p.
     and_then (data_arg pool) (\<lambda>_.
     and_then (fixnum_check want_flags) (\<lambda>_.
     and_then (require_class pool ''APR::Pool'') (\<lambda>_.
     and_then (fixnum_arg want_flags) (\<lambda>flags.
     Inr (self, Some (stat_file apr_stat p (word_of_int flags)))))))))"

definition make_apr_file_info :: "stat_api \<Rightarrow> ruby_value \<Rightarrow> ruby_value \<Rightarrow> ruby_value \<Rightarrow> finfo_object c_result" where
  "make_apr_file_info apr_stat path pool want_flags =
     finfo_m_init apr_stat (Obj ''APR::FileInfo'' 0) path pool want_flags None"

definition make_apr_finfo_from_struct :: "finfo \<Rightarrow> ruby_value \<times> finfo_object" where
  "make_apr_finfo_from_struct x = (Obj ''APR::FileInfo'' 0, Some (file_info_of x))"

definition init_apr_file_info ::
    "stat_api \<Rightarrow> (c_ptr \<Rightarrow> file_read) \<Rightarrow> bool \<Rightarrow> 'c apr_sha1 \<Rightarrow> 'c sha1_state \<Rightarrow> ruby_value \<Rightarrow> finfo_object method_table" where
  "init_apr_file_info apr_stat disk le apr fresh self =
     [(''atime'', on_finfo finfo_m_atime, 0),
      (''ctime'', on_finfo finfo_m_ctime, 0),
      (''csize'', on_finfo finfo_m_csize, 0),
      (''device'', on_finfo finfo_m_device, 0),
      (''gid'', on_finfo finfo_m_group, 0),
      (''filetype'', on_finfo finfo_m_type, 0),
      (''fname'', on_finfo finfo_m_fname, 0),
      (''group'', on_finfo finfo_m_group, 0),
      (''initialize'', Fn3 (finfo_m_init apr_stat self), 2),
      (''inode'', on_finfo finfo_m_inode, 0),
      (''mode'', on_finfo finfo_m_mode, 0),
      (''md5'', finfo_m_md5 disk le, 0),
      (''sha1'', finfo_m_sha1 disk apr fresh, 0),
      (''mtime'', on_finfo finfo_m_mtime, 0),
      (''name'', on_finfo finfo_m_name, 0),
      (''nlink'', on_finfo finfo_m_nlink, 0),
      (''protection'', on_finfo finfo_m_protection, 0),
      (''size'', on_finfo finfo_m_size, 0),
      (''type'', on_finfo finfo_m_type, 0),
      (''uid'', on_finfo finfo_m_user, 0),
      (''user'', on_finfo finfo_m_user, 0),
      (''valid'', on_finfo finfo_m_valid, 0)]"

text \<open>The constants defined along with the class: APR's file types, and the flags of \<open>stat\<close>.\<close>

definition file_constants :: "(string \<times> int) list" where
  "file_constants =
     [(''APR_NOFILE'', 0),
      (''APR_REG'', 1),
      (''APR_DIR'', 2),
      (''APR_CHR'', 3),
      (''APR_BLK'', 4),
      (''APR_PIPE'', 5),
      (''APR_LNK'', 6),
      (''APR_SOCK'', 7),
      (''APR_UNKFILE'', 127),
      (''APR_FINFO_LINK'', 0x00000001),
      (''APR_FINFO_MTIME'', 0x00000010),
      (''APR_FINFO_CTIME'', 0x00000020),
      (''APR_FINFO_ATIME'', 0x00000040),
      (''APR_FINFO_SIZE'', 0x00000100),
      (''APR_FINFO_CSIZE'', 0x00000200),
      (''APR_FINFO_DEV'', 0x00001000),
      (''APR_FINFO_INODE'', 0x00002000),
      (''APR_FINFO_NLINK'', 0x00004000),
      (''APR_FINFO_TYPE'', 0x00008000),
      (''APR_FINFO_USER'', 0x00010000),
      (''APR_FINFO_GROUP'', 0x00020000),
      (''APR_FINFO_UPROT'', 0x00100000),
      (''APR_FINFO_GPROT'', 0x00200000),
      (''APR_FINFO_WPROT'', 0x00400000),
      (''APR_FINFO_ICASE'', 0x01000000),
      (''APR_FINFO_NAME'', 0x02000000),
      (''APR_FINFO_MIN'', 0x00008170),
      (''APR_FINFO_IDENT'', 0x00003000),
      (''APR_FINFO_OWNER'', 0x00030000),
      (''APR_FINFO_PROT'', 0x00700000),
      (''APR_FINFO_NORM'', 0x0073b170),
      (''APR_FINFO_DIRENT'', 0x02000000)]"

section \<open>Module functions on files\<close>

text \<open>The state: the files, and the FileInfo objects made so far.\<close>

type_synonym 'f files_state = "'f apr_state \<times> finfo_object list"

definition on_files :: "('f apr_state \<Rightarrow> int \<times> 'f apr_state) \<Rightarrow> 'f files_state \<Rightarrow> (ruby_value \<times> 'f files_state) ruby_result" where
  "on_files op st = (let (rc, s) = op (fst st) in Inr (INT2FIX rc, (s, snd st)))"

definition apr_m_chmod :: "('f, 'd) file_api \<Rightarrow> ruby_value \<Rightarrow> ruby_value \<Rightarrow> 'f files_state \<Rightarrow> 'f files_state c_result" where
  "apr_m_chmod F path perms st = Some (
     and_then (string_arg path) (\<lambda>p. and_then (fixnum_arg perms) (\<lambda>n. on_files (chmod F p n) st)))"

definition apr_m_cp :: "('f, 'd) file_api \<Rightarrow> ruby_value \<Rightarrow> ruby_value \<Rightarrow> 'f files_state \<Rightarrow> 'f files_state c_result" where
  "apr_m_cp F src dst st = Some (
     and_then (string_arg src) (\<lambda>p. and_then (string_arg dst) (\<lambda>q. on_files (cp F p q) st)))"

definition apr_m_mv :: "('f, 'd) file_api \<Rightarrow> ruby_value \<Rightarrow> ruby_value \<Rightarrow> 'f files_state \<Rightarrow> 'f files_state c_result" where
  "apr_m_mv F src dst st = Some (
     and_then (string_arg src) (\<lambda>p. and_then (string_arg dst) (\<lambda>q. on_files (mv F p q) st)))"

definition apr_m_mkdir :: "('f, 'd) file_api \<Rightarrow> ruby_value \<Rightarrow> 'f files_state \<Rightarrow> 'f files_state c_result" where
  "apr_m_mkdir F dir st = Some (and_then (string_arg dir) (\<lambda>p. on_files (mkdir F p (-1)) st))"

definition apr_m_rm :: "('f, 'd) file_api \<Rightarrow> ruby_value \<Rightarrow> 'f files_state \<Rightarrow> 'f files_state c_result" where
  "apr_m_rm F dir st = Some (and_then (string_arg dir) (\<lambda>p. on_files (rm F p) st))"

definition apr_m_rmdir :: "('f, 'd) file_api \<Rightarrow> (string \<Rightarrow> string) \<Rightarrow> ruby_value \<Rightarrow> 'f files_state \<Rightarrow> 'f files_state c_result" where
  "apr_m_rmdir F freed dir st =
     (case string_arg dir of
        Inl e \<Rightarrow> Some (Inl e)
      | Inr p \<Rightarrow> map_option (\<lambda>r. on_files (\<lambda>_. r) st) (rmdir F freed p (fst st)))"

definition apr_m_cwd :: "('f, 'd) file_api \<Rightarrow> 'f files_state \<Rightarrow> 'f files_state c_result" where
  "apr_m_cwd F st = map_option (\<lambda>p. Inr (Str (c_str p), st)) (cwd F (fst st))"

definition apr_m_filepath_is_relative :: "('f, 'd) file_api \<Rightarrow> ruby_value \<Rightarrow> 'f files_state \<Rightarrow> 'f files_state c_result" where
  "apr_m_filepath_is_relative F path st = Some (
     and_then (string_arg path) (\<lambda>p. Inr (if path_is_relative F p (fst st) then Qtrue else Qfalse, st)))"

definition str_or_nil_if_empty :: "string \<Rightarrow> ruby_value" where
  "str_or_nil_if_empty p = (if p = [] then Qnil else Str (c_str p))"

definition apr_m_filepath_merge :: "('f, 'd) file_api \<Rightarrow> ruby_value \<Rightarrow> ruby_value \<Rightarrow> 'f files_state \<Rightarrow> 'f files_state c_result" where
  "apr_m_filepath_merge F root_path add_path st =
     (case and_then (string_arg root_path) (\<lambda>r. and_then (string_arg add_path) (\<lambda>a. Inr (r, a))) of
        Inl e \<Rightarrow> Some (Inl e)
      | Inr (r, a) \<Rightarrow> map_option (\<lambda>p. Inr (str_or_nil_if_empty p, st)) (path_merge F r a (fst st)))"

definition apr_m_filepath_root :: "('f, 'd) file_api \<Rightarrow> ruby_value \<Rightarrow> 'f files_state \<Rightarrow> 'f files_state c_result" where
  "apr_m_filepath_root F path st = Some (
     and_then (string_arg path) (\<lambda>p. Inr (str_or_nil_if_empty (path_root F p (fst st)), st)))"

text \<open>\<open>stat\<close> takes one argument or two; a third and later ones are ignored, and then so is the second.\<close>

definition apr_m_stat :: "stat_api \<Rightarrow> ruby_value list \<Rightarrow> 'f files_state \<Rightarrow> 'f files_state c_result" where
  "apr_m_stat apr_stat argv st =
     (case argv of
        [] \<Rightarrow> Some (Inl (RuntimeError ''At lease one argument is required.''))
      | path # others \<Rightarrow>
          (case string_arg path of
             Inl e \<Rightarrow> Some (Inl e)
           | Inr _ \<Rightarrow>
               let want_flags = (case others of [f] \<Rightarrow> and_then (fixnum_check f) (\<lambda>_. Inr f) | _ \<Rightarrow> Inr (INT2NUM 0)) in
               (case want_flags of
                  Inl e \<Rightarrow> Some (Inl e)
                | Inr flags \<Rightarrow>
                    map_option (\<lambda>res. and_then res (\<lambda>(v, w). Inr (v, (fst st, snd st @ [w]))))
                      (make_apr_file_info apr_stat path (Obj ''APR::Pool'' 0) flags))))"

definition init_apr :: "('f, 'd) file_api \<Rightarrow> (string \<Rightarrow> string) \<Rightarrow> stat_api \<Rightarrow> 'f files_state method_table" where
  "init_apr F freed apr_stat =
     [(''chmod'', Fn2 (apr_m_chmod F), 2),
      (''cp'', Fn2 (apr_m_cp F), 2),
      (''cwd'', Fn0 (apr_m_cwd F), 0),
      (''mkdir'', Fn1 (apr_m_mkdir F), 1),
      (''mv'', Fn2 (apr_m_mv F), 2),
      (''rm'', Fn1 (apr_m_rm F), 1),
      (''rmdir'', Fn1 (apr_m_rmdir F freed), 1),
      (''stat'', FnN (apr_m_stat apr_stat), -1),
      (''filepathIsRelative'', Fn1 (apr_m_filepath_is_relative F), 1),
      (''filepathMerge'', Fn2 (apr_m_filepath_merge F), 2),
      (''filepathRoot'', Fn1 (apr_m_filepath_root F), 1)]"

text \<open>The global constants that go with the module, under APR's own names; their values are APR's.\<close>

definition apr_constant_names :: "string list" where
  "apr_constant_names =
     [''APR_SUCCESS'', ''APR_ENOSTAT'', ''APR_ENOPOOL'', ''APR_EBADDATE'', ''APR_EINVALSOCK'',
      ''APR_ENOPROC'', ''APR_ENOTIME'', ''APR_ENODIR'', ''APR_ENOLOCK'', ''APR_ENOPOLL'',
      ''APR_ENOSOCKET'', ''APR_ENOTHREAD'', ''APR_ENOTHDKEY'', ''APR_ENOSHMAVAIL'', ''APR_EDSOOPEN'',
      ''APR_EGENERAL'', ''APR_EBADIP'', ''APR_EBADMASK'', ''APR_ESYMNOTFOUND'', ''APR_FPROT_USETID'',
      ''APR_FPROT_UREAD'', ''APR_FPROT_UWRITE'', ''APR_FPROT_UEXECUTE'', ''APR_FPROT_GSETID'', ''APR_FPROT_GREAD'',
      ''APR_FPROT_GWRITE'', ''APR_FPROT_GEXECUTE'', ''APR_FPROT_WSTICKY'', ''APR_FPROT_WREAD'', ''APR_FPROT_WWRITE'',
      ''APR_FPROT_WEXECUTE'']"

definition apr_constants :: "(string \<Rightarrow> int) \<Rightarrow> (string \<times> ruby_value) list" where
  "apr_constants apr = map (\<lambda>n. (n, INT2FIX (apr n))) apr_constant_names"

text \<open>Two functions of a class that is never defined: objects would be nil, and \<open>initialize\<close> does nothing.\<close>

definition apr_allocator :: ruby_value where
  "apr_allocator = Qnil"

definition apr_m_init :: "ruby_value \<Rightarrow> ruby_value \<Rightarrow> ruby_value" where
  "apr_m_init self file = self"

section \<open>What Ruby sees\<close>

lemma find_file_info:
  "find_method (init_apr_file_info apr_stat disk le apr fresh self) ''size'' = Some (on_finfo finfo_m_size, 0)"
  "find_method (init_apr_file_info apr_stat disk le apr fresh self) ''mode'' = Some (on_finfo finfo_m_mode, 0)"
  "find_method (init_apr_file_info apr_stat disk le apr fresh self) ''initialize'' = Some (Fn3 (finfo_m_init apr_stat self), 2)"
  by (simp_all add: find_method_def init_apr_file_info_def)

text \<open>
  Every method of FileInfo but \<open>initialize\<close> is a function of as many parameters as it is registered
  with. \<open>initialize\<close> takes three and is registered with two, so \<open>FileInfo.new\<close> either raises or has no
  defined behaviour, and objects come from \<open>APR.stat\<close> only. On these \<open>size\<close> is nil unless APR reported
  it, and correct exactly for sizes below 2 GB: it wraps around above.
\<close>

lemma file_info_methods:
  "list_all (\<lambda>(name, f, n). arity_matches f n \<longleftrightarrow> name \<noteq> ''initialize'') (init_apr_file_info apr_stat disk le apr fresh self) \<and>
   rb_call (init_apr_file_info apr_stat disk le apr fresh self) ''initialize'' as w =
     (if length as = 2 then None else Some (Inl ArgumentError)) \<and>
   (\<exists>v. rb_call (init_apr_file_info apr_stat disk le apr fresh self) ''size'' [] (Some f) = Some (Inr (v, Some f)) \<and>
      (v = Qnil \<longleftrightarrow> \<not> has_field f APR_FINFO_SIZE) \<and>
      (v = Fixnum (fi_size (fo_stat f)) \<longleftrightarrow>
         has_field f APR_FINFO_SIZE \<and> - (2 ^ 31) \<le> fi_size (fo_stat f) \<and> fi_size (fo_stat f) < 2 ^ 31)) \<and>
   (\<exists>r. rb_call (init_apr F freed apr_stat) ''stat'' [Str p] (s, objs) =
      Some (Inr (r, (s, objs @ [Some (stat_file apr_stat (c_str p) 0)]))))"
proof (intro conjI)
  show "list_all (\<lambda>(name, f, n). arity_matches f n \<longleftrightarrow> name \<noteq> ''initialize'') (init_apr_file_info apr_stat disk le apr fresh self)"
    by (simp add: init_apr_file_info_def on_finfo_def finfo_m_md5_def finfo_m_sha1_def)
  show "rb_call (init_apr_file_info apr_stat disk le apr fresh self) ''initialize'' as w =
     (if length as = 2 then None else Some (Inl ArgumentError))"
    by (cases as rule: list.exhaust; cases "tl as") (auto simp: rb_call_def find_file_info length_Suc_conv)
  show "\<exists>v. rb_call (init_apr_file_info apr_stat disk le apr fresh self) ''size'' [] (Some f) = Some (Inr (v, Some f)) \<and>
      (v = Qnil \<longleftrightarrow> \<not> has_field f APR_FINFO_SIZE) \<and>
      (v = Fixnum (fi_size (fo_stat f)) \<longleftrightarrow>
         has_field f APR_FINFO_SIZE \<and> - (2 ^ 31) \<le> fi_size (fo_stat f) \<and> fi_size (fo_stat f) < 2 ^ 31)"
    by (intro exI [of _ "finfo_m_size f"]) (auto simp: rb_call_def find_file_info on_finfo_def finfo_m_size_def
        INT2NUM_in_i32 in_i32_def, simp add: INT2NUM_def)
  have "find_method (init_apr F freed apr_stat) ''stat'' = Some (FnN (apr_m_stat apr_stat), -1)"
    by (simp add: find_method_def init_apr_def)
  moreover have "signed_take_bit 31 (0 :: int) = 0" by simp
  ultimately show "\<exists>r. rb_call (init_apr F freed apr_stat) ''stat'' [Str p] (s, objs) =
      Some (Inr (r, (s, objs @ [Some (stat_file apr_stat (c_str p) 0)])))"
    by (simp add: rb_call_def apr_m_stat_def make_apr_file_info_def finfo_m_init_def data_arg_def require_class_def
        fixnum_check_def INT2NUM_def in_i32_def)
qed

text \<open>
  C24. The mode is a number below octal 1000 whose bits are APR's permission bits: the user's at APR's bits
  8 to 10, the group's at 4 to 6, the others' at 0 to 2; set-id and sticky bits are left out.
\<close>

theorem file_mode_bits:
  "\<exists>m. finfo_m_mode f = Fixnum m \<and> 0 \<le> m \<and> m < 512 \<and>
     (\<forall>i. bit m i \<longleftrightarrow> i < 9 \<and> bit (fi_protection (fo_stat f)) (if 6 \<le> i then i + 2 else if 3 \<le> i then i + 1 else i))"
proof -
  let ?p = "fi_protection (fo_stat f)"
  define m where "m = (448 AND drop_bit 2 ?p) OR (56 AND drop_bit 1 ?p) OR (7 AND ?p)"
  have octal: "(448 :: int) = push_bit 6 (mask 3)" "(56 :: int) = push_bit 3 (mask 3)" "(7 :: int) = mask 3"
    by (simp_all add: mask_eq_exp_minus_1 push_bit_eq_mult)
  have bits: "bit m i \<longleftrightarrow>
      (6 \<le> i \<and> i < 9 \<and> bit ?p (i + 2)) \<or> (3 \<le> i \<and> i < 6 \<and> bit ?p (i + 1)) \<or> (i < 3 \<and> bit ?p i)" for i
    unfolding m_def octal by (auto simp: bit_or_iff bit_and_iff bit_push_bit_iff bit_mask_iff bit_drop_bit_eq add.commute)
  have "m = take_bit 9 m" by (rule bit_eqI) (auto simp: bit_take_bit_iff bits)
  then have "0 \<le> m" "m < 512" using take_bit_nonnegative [of 9 m] take_bit_int_less_exp [of 9 m] by simp_all
  moreover from this have "signed_take_bit 62 m = m" by (intro signed_take_bit_id) simp_all
  then have "finfo_m_mode f = Fixnum m" by (simp add: finfo_m_mode_def INT2FIX_def m_def [symmetric] Let_def del: One_nat_def)
  ultimately show ?thesis by (intro exI [of _ m]) (auto simp: bits)
qed

end
