(* ===== verification/Ruby_VM.thy ===== *)
theory Ruby_VM
  imports Dispatch Ruby_Binding
begin

text \<open>
  The embedded interpreter (ruby.cpp, ruby.hpp): protected calls into Ruby, the translation of Ruby's
  exceptions into C++ ones, and the registry that keeps objects held by C++ from being collected. Ruby
  itself is a parameter, a record of the calls the code makes on an interpreter state \<open>'w\<close>; each returns
  a value or an exception. \<^const>\<open>None\<close> is undefined behaviour of the C code.
\<close>

section \<open>Ruby\<close>

text \<open>An exception in \<open>$!\<close>: its class, its text, and its backtrace, which may be nil.\<close>

record rb_exc =
  rx_class :: string
  rx_message :: string
  rx_backtrace :: "string list option"

record 'w ruby_api =
  rb_funcall :: "ruby_value \<Rightarrow> string \<Rightarrow> ruby_value list \<Rightarrow> 'w \<Rightarrow> (rb_exc + ruby_value) \<times> 'w"
  rb_new_instance :: "string \<Rightarrow> ruby_value list \<Rightarrow> 'w \<Rightarrow> (rb_exc + ruby_value) \<times> 'w"
  rb_require :: "string \<Rightarrow> 'w \<Rightarrow> (rb_exc + unit) \<times> 'w"
  rb_load :: "string \<Rightarrow> bool \<Rightarrow> 'w \<Rightarrow> (rb_exc + unit) \<times> 'w"
  ruby_init :: "'w \<Rightarrow> 'w"
  ruby_cleanup :: "'w \<Rightarrow> 'w"

text \<open>The program's state: is the interpreter running, the registry (NULL before its first use), the output.\<close>

record 'w vm =
  vm_running :: bool
  vm_objects :: "ruby_value list option"
  vm_stdout :: string
  vm_world :: 'w

type_synonym ('a, 'w) vm_result = "((thrown + 'a) \<times> 'w vm) option"

definition vm_bind :: "('a, 'w) vm_result \<Rightarrow> ('a \<Rightarrow> 'w vm \<Rightarrow> ('b, 'w) vm_result) \<Rightarrow> ('b, 'w) vm_result" where
  "vm_bind m f =
     (case m of None \<Rightarrow> None | Some (Inl e, s) \<Rightarrow> Some (Inl e, s) | Some (Inr x, s) \<Rightarrow> f x s)"

section \<open>The registry\<close>

definition new_Objects :: "'w vm \<Rightarrow> 'w vm" where
  [simp]: "new_Objects s = s\<lparr>vm_objects := Some []\<rparr>"

definition delete_Objects :: "'w vm \<Rightarrow> 'w vm" where
  [simp]: "delete_Objects s = s\<lparr>vm_objects := None\<rparr>"

definition objects_instance :: "'w vm \<Rightarrow> 'w vm" where
  "objects_instance s = (if vm_objects s = None then new_Objects s else s)"

definition register_object :: "ruby_value \<Rightarrow> 'w vm \<Rightarrow> 'w vm" where
  "register_object v s = (let s = objects_instance s in s\<lparr>vm_objects := map_option (\<lambda>a. a @ [v]) (vm_objects s)\<rparr>)"

text \<open>\<open>rb_ary_delete\<close> removes every entry equal to the object.\<close>

definition free_object :: "ruby_value \<Rightarrow> 'w vm \<Rightarrow> 'w vm" where
  "free_object v s = (let s = objects_instance s in s\<lparr>vm_objects := map_option (filter (\<lambda>x. x \<noteq> v)) (vm_objects s)\<rparr>)"

definition free_all :: "'w vm \<Rightarrow> 'w vm" where
  "free_all s = (if vm_objects s \<noteq> None then delete_Objects s else s)"

text \<open>What the collector sees registered.\<close>

definition registered :: "'w vm \<Rightarrow> ruby_value list" where
  "registered s = (case vm_objects s of None \<Rightarrow> [] | Some a \<Rightarrow> a)"

lemma registered_simps [simp]:
  "registered (register_object v s) = registered s @ [v]"
  "registered (free_object v s) = filter (\<lambda>x. x \<noteq> v) (registered s)"
  "registered (free_all s) = []"
  by (auto simp: registered_def register_object_def free_object_def free_all_def objects_instance_def Let_def
      split: option.splits)

section \<open>Exceptions\<close>

text \<open>\<open>Exception::backtrace\<close> reads the length of the backtrace array, which must not be nil.\<close>

definition exception_of :: "string \<Rightarrow> rb_exc \<Rightarrow> exn option" where
  "exception_of msg x =
     (case rx_backtrace x of
        None \<Rightarrow> None
      | Some ary \<Rightarrow>
          Some \<lparr>ex_type = c_str (rx_class x), ex_what = msg,
            ex_stackdump = ''Type    : '' @ c_str (rx_class x) @ [CHR 0x0A] @ c_str (rx_class x) @
              ''Message : '' @ c_str (rx_message x) @ [CHR 0x0A] @
              concat (map (\<lambda>l. ''From    : '' @ c_str l @ [CHR 0x0A]) ary)\<rparr>)"

text \<open>The rest of the class: constructor, copying, and the accessors, which give C strings.\<close>

definition Exception_init :: "c_ptr \<Rightarrow> exn" where
  "Exception_init msg = \<lparr>ex_type = [], ex_what = (case msg of None \<Rightarrow> [] | Some m \<Rightarrow> c_str m), ex_stackdump = []\<rparr>"

definition Exception_assign :: "exn \<Rightarrow> exn \<Rightarrow> exn" where
  "Exception_assign self e =
     (if self \<noteq> e then self\<lparr>ex_what := ex_what e, ex_stackdump := ex_stackdump e, ex_type := ex_type e\<rparr> else self)"

definition Exception_copy :: "exn \<Rightarrow> exn" where
  "Exception_copy e = Exception_assign (Exception_init None) e"

definition Exception_type :: "exn \<Rightarrow> string" where "Exception_type e = c_str (ex_type e)"
definition Exception_what :: "exn \<Rightarrow> string" where "Exception_what e = c_str (ex_what e)"
definition Exception_stackdump :: "exn \<Rightarrow> string" where "Exception_stackdump e = c_str (ex_stackdump e)"

text \<open>A thrown exception is copied, and the copy is as good: catching by value loses nothing.\<close>

lemma Exception_copied: "Exception_copy e = e"
  by (cases e) (simp add: Exception_copy_def Exception_assign_def Exception_init_def)

text \<open>The outcome of a protected call, with the message of the exception thrown for an error.\<close>

definition protected :: "string \<Rightarrow> (rb_exc + 'a) \<times> 'w \<Rightarrow> 'w vm \<Rightarrow> ('a, 'w) vm_result" where
  "protected msg out s =
     (case out of
        (Inr v, w) \<Rightarrow> Some (Inr v, s\<lparr>vm_world := w\<rparr>)
      | (Inl x, w) \<Rightarrow> map_option (\<lambda>e. (Inl (Ruby_exception e), s\<lparr>vm_world := w\<rparr>)) (exception_of msg x))"

section \<open>Calls\<close>

text \<open>The functions that \<open>rb_protect\<close> runs, with their arguments packed into one.\<close>

record arguments =
  arg_recv :: ruby_value
  arg_id :: string
  arg_argv :: "ruby_value list"

definition method_wrap :: "'w ruby_api \<Rightarrow> arguments \<Rightarrow> 'w \<Rightarrow> (rb_exc + ruby_value) \<times> 'w" where
  [simp]: "method_wrap V a = rb_funcall V (arg_recv a) (arg_id a) (arg_argv a)"

definition require_protect :: "'w ruby_api \<Rightarrow> string \<Rightarrow> 'w \<Rightarrow> (rb_exc + unit) \<times> 'w" where
  [simp]: "require_protect V filename = rb_require V filename"

definition ruby_method :: "'w ruby_api \<Rightarrow> ruby_value \<Rightarrow> string \<Rightarrow> ruby_value list \<Rightarrow> 'w vm \<Rightarrow> (ruby_value, 'w) vm_result" where
  "ruby_method V recv name argv s = protected [] (method_wrap V \<lparr>arg_recv = recv, arg_id = name, arg_argv = argv\<rparr> (vm_world s)) s"

definition vm_method :: "'w ruby_api \<Rightarrow> ruby_value \<Rightarrow> string \<Rightarrow> ruby_value list \<Rightarrow> 'w vm \<Rightarrow> (ruby_value, 'w) vm_result" where
  "vm_method V recv name argv s = protected [] (method_wrap V \<lparr>arg_recv = recv, arg_id = name, arg_argv = argv\<rparr> (vm_world s)) s"

definition eval :: "'w ruby_api \<Rightarrow> string \<Rightarrow> c_ptr \<Rightarrow> int \<Rightarrow> ruby_value \<Rightarrow> 'w vm \<Rightarrow> (unit, 'w) vm_result" where
  "eval V src filename sl binding s =
     (let fn = (case filename of None \<Rightarrow> ''eval'' | Some f \<Rightarrow> f)
      in vm_bind (ruby_method V Qnil ''eval'' [Str (c_str src), binding, Str (c_str fn), INT2NUM sl] s)
           (\<lambda>_ s. Some (Inr (), s)))"

text \<open>The result is a \<open>VALUE\<close> converted to bool: only \<open>Qfalse\<close> is zero, nil is not.\<close>

definition value_to_bool :: "ruby_value \<Rightarrow> bool" where
  "value_to_bool v \<longleftrightarrow> v \<noteq> Qfalse"

definition call_function :: "'w ruby_api \<Rightarrow> string \<Rightarrow> ruby_value list \<Rightarrow> 'w vm \<Rightarrow> (bool \<times> 'w vm) option" where
  "call_function V name argv s =
     (case vm_method V Qnil name argv s of
        None \<Rightarrow> None
      | Some (Inr ret, s) \<Rightarrow> Some (value_to_bool ret, s)
      | Some (Inl (Ruby_exception e), s) \<Rightarrow>
          Some (value_to_bool Qfalse, s\<lparr>vm_stdout := vm_stdout s @ ex_what e @ [CHR 0x0A]\<rparr>)
      | Some (Inl (Std_exception m), s) \<Rightarrow> None)"

definition require :: "'w ruby_api \<Rightarrow> string \<Rightarrow> 'w vm \<Rightarrow> (unit, 'w) vm_result" where
  "require V filename s =
     protected (''error loading '' @ filename @ ''.rb'') (require_protect V filename (vm_world s)) s"

definition load :: "'w ruby_api \<Rightarrow> string \<Rightarrow> bool \<Rightarrow> 'w vm \<Rightarrow> (unit, 'w) vm_result" where
  "load V filename anonymous s = protected [] (rb_load V filename anonymous (vm_world s)) s"

definition create_object :: "'w ruby_api \<Rightarrow> string \<Rightarrow> ruby_value list \<Rightarrow> 'w vm \<Rightarrow> (ruby_value, 'w) vm_result" where
  "create_object V class_name argv s =
     protected (''Error creating Ruby class '' @ [CHR 0x27] @ class_name @ [CHR 0x27])
       (rb_new_instance V class_name argv (vm_world s)) s"

section \<open>Objects held by C++\<close>

record robject =
  ob_self :: ruby_value
  ob_class_name :: string

definition Object :: "'w ruby_api \<Rightarrow> string \<Rightarrow> ruby_value list \<Rightarrow> 'w vm \<Rightarrow> (robject, 'w) vm_result" where
  "Object V name argv s =
     vm_bind (create_object V name argv s)
       (\<lambda>self s. Some (Inr \<lparr>ob_self = self, ob_class_name = name\<rparr>, register_object self s))"

definition delete_Object :: "robject \<Rightarrow> 'w vm \<Rightarrow> 'w vm" where
  "delete_Object ob s = free_object (ob_self ob) s"

definition Object_method :: "'w ruby_api \<Rightarrow> robject \<Rightarrow> string \<Rightarrow> ruby_value list \<Rightarrow> 'w vm \<Rightarrow> (ruby_value, 'w) vm_result" where
  "Object_method V ob name argv s =
     protected (''ruby::Object::method() invoking '' @ ob_class_name ob @ ''::'' @ name @ ''()'')
       (method_wrap V \<lparr>arg_recv = ob_self ob, arg_id = name, arg_argv = argv\<rparr> (vm_world s)) s"

definition Object_class_name :: "robject \<Rightarrow> string" where
  "Object_class_name ob = c_str (ob_class_name ob)"

section \<open>Start and end\<close>

text \<open>\<open>rubygems\<close> is required without protection: an exception there has no handler.\<close>

definition startup :: "'w ruby_api \<Rightarrow> 'w vm \<Rightarrow> 'w vm option" where
  "startup V s =
     (if vm_running s then Some s
      else (case rb_require V ''rubygems'' (ruby_init V (vm_world s)) of
              (Inl x, w) \<Rightarrow> None
            | (Inr _, w) \<Rightarrow> Some (s\<lparr>vm_world := w, vm_running := True\<rparr>)))"

text \<open>\<open>running\<close> is looked at only after the interpreter was cleaned up.\<close>

definition shutdown :: "'w ruby_api \<Rightarrow> 'w vm \<Rightarrow> 'w vm" where
  "shutdown V s =
     (let s = free_all s; s = s\<lparr>vm_world := ruby_cleanup V (vm_world s)\<rparr>
      in if \<not> vm_running s then s else s\<lparr>vm_running := False\<rparr>)"

section \<open>Hashes\<close>

text \<open>Keys and values that are neither strings nor fixnums become the empty string.\<close>

definition hash_text :: "ruby_value \<Rightarrow> string ruby_result" where
  "hash_text v =
     (case v of
        Str s \<Rightarrow> Inr (c_str s)
      | Fixnum i \<Rightarrow> if in_i32 i then Inr (show_int i) else Inl RangeError
      | _ \<Rightarrow> Inr [])"

definition collect_hash_vals :: "ruby_value \<Rightarrow> ruby_value \<Rightarrow> (string \<Rightarrow> string option) \<Rightarrow> (string \<Rightarrow> string option) ruby_result" where
  "collect_hash_vals key val m =
     and_then (hash_text key) (\<lambda>k. and_then (hash_text val) (\<lambda>v. Inr (m(k \<mapsto> v))))"

fun copy_hash :: "(ruby_value \<times> ruby_value) list \<Rightarrow> (string \<Rightarrow> string option) \<Rightarrow> (bool \<times> (string \<Rightarrow> string option)) ruby_result" where
  "copy_hash [] m = Inr (True, m)"
| "copy_hash ((k, v) # h) m = and_then (collect_hash_vals k v m) (copy_hash h)"

section \<open>Objects in use are registered\<close>

text \<open>
  What C++ code does with objects: create one, destroy a live one, call a method of a live one, evaluate
  code. The state is the list of live objects and the interpreter's.
\<close>

datatype vm_op = Create string "ruby_value list" | Destroy nat | Call nat string "ruby_value list" | Eval string

fun vm_step :: "'w ruby_api \<Rightarrow> vm_op \<Rightarrow> robject list \<times> 'w vm \<Rightarrow> (robject list \<times> 'w vm) option" where
  "vm_step V (Create c as) (live, s) =
     map_option (\<lambda>(r, s). (case r of Inl e \<Rightarrow> live | Inr ob \<Rightarrow> live @ [ob], s)) (Object V c as s)"
| "vm_step V (Destroy i) (live, s) =
     (if i < length live then Some (take i live @ drop (Suc i) live, delete_Object (live ! i) s) else Some (live, s))"
| "vm_step V (Call i m as) (live, s) =
     (if i < length live then map_option (\<lambda>(_, s). (live, s)) (Object_method V (live ! i) m as s) else Some (live, s))"
| "vm_step V (Eval c) (live, s) = map_option (\<lambda>(_, s). (live, s)) (eval V c None 0 Qnil s)"

fun vm_steps :: "'w ruby_api \<Rightarrow> vm_op list \<Rightarrow> robject list \<times> 'w vm \<Rightarrow> (robject list \<times> 'w vm) option" where
  "vm_steps V [] st = Some st"
| "vm_steps V (p # ps) st = Option.bind (vm_step V p st) (vm_steps V ps)"

text \<open>A new instance is no object there was before; \<open>objs\<close> are the objects ever allocated.\<close>

definition allocates :: "'w ruby_api \<Rightarrow> ('w \<Rightarrow> ruby_value set) \<Rightarrow> bool" where
  "allocates V objs \<longleftrightarrow>
     (\<forall>c as w r w'. rb_new_instance V c as w = (r, w') \<longrightarrow> objs w \<subseteq> objs w' \<and>
        (\<forall>v. r = Inr v \<longrightarrow> v \<notin> objs w \<and> v \<in> objs w')) \<and>
     (\<forall>recv m as w r w'. rb_funcall V recv m as w = (r, w') \<longrightarrow> objs w \<subseteq> objs w')"

definition protects :: "('w \<Rightarrow> ruby_value set) \<Rightarrow> robject list \<times> 'w vm \<Rightarrow> bool" where
  "protects objs st \<longleftrightarrow> registered (snd st) = map ob_self (fst st) \<and> distinct (map ob_self (fst st)) \<and>
     set (map ob_self (fst st)) \<subseteq> objs (vm_world (snd st))"

lemma protected_cases:
  assumes "protected msg (r, w) s = Some (out, s')"
  obtains v where "r = Inr v" "out = Inr v" "s' = s\<lparr>vm_world := w\<rparr>"
  | x e where "r = Inl x" "exception_of msg x = Some e" "out = Inl (Ruby_exception e)" "s' = s\<lparr>vm_world := w\<rparr>"
  using assms by (cases r) (auto simp: protected_def)

lemma registered_world [simp]:
  "registered (s\<lparr>vm_world := w\<rparr>) = registered s" "vm_world (register_object v s) = vm_world s"
  "vm_world (free_object v s) = vm_world s"
  by (simp_all add: registered_def register_object_def free_object_def objects_instance_def Let_def)

lemma protects_world:
  "protects objs (live, s) \<Longrightarrow> objs (vm_world s) \<subseteq> objs w \<Longrightarrow> protects objs (live, s\<lparr>vm_world := w\<rparr>)"
  by (auto simp: protects_def)

lemma protects_create:
  assumes alloc: "allocates V objs" and inv: "protects objs (live, s)" and res: "Object V c as s = Some (r, s')"
  shows "protects objs (case r of Inl e \<Rightarrow> live | Inr ob \<Rightarrow> live @ [ob], s')"
proof -
  obtain out w where new: "rb_new_instance V c as (vm_world s) = (out, w)" by (cases "rb_new_instance V c as (vm_world s)")
  with alloc have w: "objs (vm_world s) \<subseteq> objs w" "\<And>v. out = Inr v \<Longrightarrow> v \<notin> objs (vm_world s) \<and> v \<in> objs w"
    unfolding allocates_def by blast+
  from res obtain r1 s1 where "protected (''Error creating Ruby class '' @ [CHR 0x27] @ c @ [CHR 0x27]) (out, w) s = Some (r1, s1)"
    and r1: "(r, s') = (case r1 of Inl e \<Rightarrow> (Inl e, s1) | Inr self \<Rightarrow> (Inr \<lparr>ob_self = self, ob_class_name = c\<rparr>, register_object self s1))"
    by (auto simp: Object_def create_object_def new vm_bind_def split: option.splits sum.splits prod.splits)
  from this(1) show ?thesis
  proof (cases rule: protected_cases)
    case (1 v)
    with r1 inv w show ?thesis by (auto simp: protects_def)
  next
    case 2
    with r1 inv w show ?thesis by (auto simp: protects_def)
  qed
qed

lemma protects_destroy:
  assumes inv: "protects objs (live, s)" and i: "i < length live"
  shows "protects objs (take i live @ drop (Suc i) live, delete_Object (live ! i) s)"
proof -
  have live: "live = take i live @ live ! i # drop (Suc i) live" using i by (rule id_take_nth_drop)
  define xs y zs where "xs = take i live" "y = live ! i" "zs = drop (Suc i) live"
  from inv have "registered s = map ob_self (xs @ y # zs)" "distinct (map ob_self (xs @ y # zs))"
    "set (map ob_self (xs @ y # zs)) \<subseteq> objs (vm_world s)"
    using live by (simp_all only: protects_def fst_conv snd_conv xs_y_zs_def)
  moreover from this(2) have "filter (\<lambda>v. v \<noteq> ob_self y) (map ob_self xs) = map ob_self xs"
    "filter (\<lambda>v. v \<noteq> ob_self y) (map ob_self zs) = map ob_self zs"
    by (auto simp: filter_id_conv image_iff) 
  ultimately show ?thesis
    unfolding xs_y_zs_def [symmetric] by (simp add: protects_def delete_Object_def)
qed

lemma protects_step:
  assumes alloc: "allocates V objs" and inv: "protects objs (live, s)" and step: "vm_step V p (live, s) = Some st"
  shows "protects objs st"
proof -
  have world: "objs (vm_world s) \<subseteq> objs w" if "rb_funcall V recv m as (vm_world s) = (r, w)" for recv m as r w
    using alloc that unfolding allocates_def by blast
  have call: "protects objs (live, s')" if "protected msg (rb_funcall V recv m as (vm_world s)) s = Some (r, s')" for msg recv m as r s'
  proof -
    obtain out w where out: "rb_funcall V recv m as (vm_world s) = (out, w)" by (cases "rb_funcall V recv m as (vm_world s)")
    from that [unfolded out] show ?thesis
      by (cases rule: protected_cases) (simp_all add: protects_world [OF inv] world [OF out])
  qed
  show ?thesis
  proof (cases p)
    case (Create c as)
    with step protects_create [OF alloc inv] show ?thesis by auto
  next
    case (Destroy i)
    with step protects_destroy [OF inv] inv show ?thesis by (auto split: if_splits)
  next
    case (Call i m as)
    with step call inv show ?thesis by (auto simp: Object_method_def split: if_splits)
  next
    case (Eval c)
    with step call show ?thesis
      by (auto simp: eval_def ruby_method_def vm_bind_def split: option.splits sum.splits prod.splits)
  qed
qed


text \<open>A toy interpreter that numbers its objects and whose methods fail for some names.\<close>

definition counting_ruby :: "nat ruby_api" where
  "counting_ruby =
     \<lparr>rb_funcall = (\<lambda>recv m as w. if m = ''fail''
         then (Inl \<lparr>rx_class = ''RuntimeError'', rx_message = ''failed'', rx_backtrace = Some [''a.rb:1'']\<rparr>, w)
         else (Inr Qnil, w)),
      rb_new_instance = (\<lambda>c as w. (Inr (Obj c w), Suc w)),
      rb_require = (\<lambda>f w. (Inr (), w)), rb_load = (\<lambda>f b w. (Inr (), w)),
      ruby_init = id, ruby_cleanup = id\<rparr>"


section \<open>Ruby's exceptions in C++\<close>

text \<open>The C++ exception for one of Ruby's with the backtrace \<open>ary\<close>.\<close>

definition thrown_for :: "string \<Rightarrow> rb_exc \<Rightarrow> string list \<Rightarrow> exn" where
  "thrown_for msg x ary =
     \<lparr>ex_type = c_str (rx_class x), ex_what = msg,
      ex_stackdump = ''Type    : '' @ c_str (rx_class x) @ [CHR 0x0A] @ c_str (rx_class x) @
        ''Message : '' @ c_str (rx_message x) @ [CHR 0x0A] @
        concat (map (\<lambda>l. ''From    : '' @ c_str l @ [CHR 0x0A]) ary)\<rparr>"



end
