(* ===== verification/Rhtml_Eval.thy ===== *)
theory Rhtml_Eval
  imports Rhtml_Spec Ruby_VM
begin

text \<open>
  Evaluating templates (rhtml.cpp) and the module functions Ruby sees (ruby_rhtml.cpp). A parser holds a
  Ruby object, its context, from its construction to its destruction. \<^const>\<open>None\<close> is undefined
  behaviour: an exception that leaves through C code, or one raised from an instance instead of a class.
\<close>

section \<open>Evaluation\<close>

text \<open>
  A binding made here is registered, but at the end the local variable, which is still nil, is freed. A
  binding passed in decides about that only: the member is what the code runs in.
\<close>

definition rhtml_run ::
    "'w ruby_api \<Rightarrow> ruby_value \<Rightarrow> ruby_value rhtml_parser \<Rightarrow> 'w vm \<Rightarrow> (bool \<times> ruby_value rhtml_parser, 'w) vm_result" where
  "rhtml_run V b p s =
     (case eval V (p_text p) (p_file_name p) (p_block_start_line p) (p_binding p) s of
        Some (Inr (), s) \<Rightarrow> Some (Inr (True, p), if b = Qnil then free_object Qnil s else s)
      | _ \<Rightarrow> None)"

definition rhtml_parser_eval ::
    "'w ruby_api \<Rightarrow> robject \<Rightarrow> ruby_value \<Rightarrow> ruby_value rhtml_parser \<Rightarrow> 'w vm \<Rightarrow>
     (bool \<times> ruby_value rhtml_parser, 'w) vm_result" where
  "rhtml_parser_eval V context b p s =
     (if b = Qnil then
        vm_bind (Object_method V context ''binding'' [] s)
          (\<lambda>binding s. rhtml_run V b (p\<lparr>p_binding := binding\<rparr>) (register_object binding s))
      else rhtml_run V b p s)"

definition eval_text ::
    "'w ruby_api \<Rightarrow> robject \<Rightarrow> string \<Rightarrow> ruby_value \<Rightarrow> ruby_value rhtml_parser \<Rightarrow> 'w vm \<Rightarrow>
     (bool \<times> ruby_value rhtml_parser, 'w) vm_result" where
  "eval_text V context str b p s =
     Option.bind (compile_text str p) (\<lambda>p. rhtml_parser_eval V context b p s)"

definition eval_file ::
    "'w ruby_api \<Rightarrow> (string \<Rightarrow> string option) \<Rightarrow> string \<Rightarrow> robject \<Rightarrow> c_ptr \<Rightarrow> ruby_value \<Rightarrow> ruby_value rhtml_parser \<Rightarrow>
     'w vm \<Rightarrow> (bool \<times> ruby_value rhtml_parser, 'w) vm_result" where
  "eval_file V fs stdin context filename b p s =
     Option.bind (compile_file fs stdin filename p) (\<lambda>(_, p). rhtml_parser_eval V context b p s)"

section \<open>The module functions\<close>

text \<open>A function body with a parser of its own, which is destroyed at the end.\<close>

definition with_parser ::
    "'w ruby_api \<Rightarrow> (ruby_value rhtml_parser \<Rightarrow> ruby_value option) \<Rightarrow> 'w vm \<Rightarrow> 'w vm c_result" where
  "with_parser V body s =
     (case Object V ''Object'' [] s of
        Some (Inr context, s) \<Rightarrow> map_option (\<lambda>v. Inr (v, delete_Object context s)) (body (RhtmlParser Qnil))
      | _ \<Rightarrow> None)"

definition no_argument :: ruby_error where
  "no_argument = RuntimeError ''At lease one argument is required.''"

definition rhtml_eval :: "'w ruby_api \<Rightarrow> ruby_value list \<Rightarrow> 'w vm \<Rightarrow> 'w vm c_result" where
  "rhtml_eval V argv s =
     (case argv of
        [] \<Rightarrow> Some (Inl no_argument)
      | txt # others \<Rightarrow>
          (case string_arg txt of
             Inl e \<Rightarrow> Some (Inl e)
           | Inr str \<Rightarrow> with_parser V (\<lambda>p. map_option (\<lambda>p. Str (p_text p)) (compile_text str p)) s))"

definition rhtml_compile ::
    "'w ruby_api \<Rightarrow> (string \<Rightarrow> string option) \<Rightarrow> string \<Rightarrow> ruby_value list \<Rightarrow> 'w vm \<Rightarrow> 'w vm c_result" where
  "rhtml_compile V fs stdin argv s =
     (case argv of
        [] \<Rightarrow> Some (Inl no_argument)
      | name # others \<Rightarrow>
          (case string_arg name of
             Inl e \<Rightarrow> Some (Inl e)
           | Inr filename \<Rightarrow>
               if fs filename = None then
                 map_option (\<lambda>m. Inl (IOError m)) (as_format (''File does not exist: '' @ filename))
               else
                 with_parser V (\<lambda>p. map_option (\<lambda>(_, p). Str (p_text p)) (compile_file fs stdin (Some filename) p)) s))"

definition init_rhtml :: "'w ruby_api \<Rightarrow> (string \<Rightarrow> string option) \<Rightarrow> string \<Rightarrow> 'w vm method_table" where
  "init_rhtml V fs stdin = [(''eval'', FnN (rhtml_eval V), -1), (''compile'', FnN (rhtml_compile V fs stdin), -1)]"

section \<open>What the module functions return\<close>

text \<open>The name of the file has no influence on the program.\<close>

lemma file_name_steps:
  "append_line t (p\<lparr>p_file_name := f\<rparr>) = (append_line t p)\<lparr>p_file_name := f\<rparr>"
  "change st (p\<lparr>p_file_name := f\<rparr>) = (change st p)\<lparr>p_file_name := f\<rparr>"
  "end_line (p\<lparr>p_file_name := f\<rparr>) = (end_line p)\<lparr>p_file_name := f\<rparr>"
  by (cases "p_state p"; simp add: append_line_def change_def end_line_def Let_def)+

lemma run_action_file_name:
  "run_action a t c (p\<lparr>p_file_name := f\<rparr>) = map_option (apsnd (\<lambda>p. p\<lparr>p_file_name := f\<rparr>)) (run_action a t c p)"
proof -
  have "read t (p\<lparr>p_file_name := f\<rparr>) = map_option (\<lambda>p. p\<lparr>p_file_name := f\<rparr>) (read t p)" for t
    by (cases "escape_text t") (simp_all add: read_def file_name_steps(1) Let_def append_line_def)
  then show ?thesis by (cases a) (simp_all add: file_name_steps option.map_comp comp_def)
qed

lemma lexscan_file_name:
  "lexscan c s (p\<lparr>p_file_name := f\<rparr>) = map_option (apsnd (\<lambda>p. p\<lparr>p_file_name := f\<rparr>)) (lexscan c s p)"
proof (induction c s p rule: lexscan.induct)
  case (1 c s p)
  show ?case
  proof (cases "s = [] \<or> longest (rules c) s = None")
    case True
    then show ?thesis
      using 1(1) by (cases "s = []") (simp_all add: lexscan.simps [of c s] lexscan.simps [of c "[]"])
  next
    case False
    then obtain n a where l: "s \<noteq> []" "longest (rules c) s = Some (n, a)" by auto
    show ?thesis
    proof (cases "run_action a (take n s) c p")
      case None
      with l show ?thesis by (simp add: lexscan.simps [of c s] run_action_file_name)
    next
      case (Some cp)
      obtain c' p' where "cp = (c', p')" by (cases cp)
      with 1(2) l Some show ?thesis by (simp add: lexscan.simps [of c s] run_action_file_name)
    qed
  qed
qed

lemma compile_file_named:
  assumes "fs filename = Some t" "NUL \<notin> set t"
  shows "compile_file fs stdin (Some filename) p = map_option (\<lambda>q. (True, q\<lparr>p_file_name := Some filename\<rparr>)) (compile_text t p)"
proof -
  have "init (p\<lparr>p_file_name := f\<rparr>) = (init p)\<lparr>p_file_name := f\<rparr>" for f by (simp add: init_def)
  with assms show ?thesis
    by (cases "lexscan INITIAL t (init p)")
      (auto simp: compile_file_def compile_text_def lexscan_file_name finalize_def file_name_steps)
qed

lemma compile_file_is_text:
  assumes "fs filename = Some t" "NUL \<notin> set t"
  shows "map_option (\<lambda>(_, p). p_text p) (compile_file fs stdin (Some filename) p) = map_option p_text (compile_text t p)"
  using assms by (cases "compile_text t p") (simp_all add: compile_file_named)

text \<open>
  Called from Ruby, \<open>RHTML.eval\<close> returns the compiled program of its text and evaluates none of it,
  with or without a binding: all it does in the interpreter is to make the parser's context, which is
  released again. \<open>RHTML.compile\<close> of a file gives what \<open>eval\<close> gives for the file's contents, and raises
  an IOError for a file it cannot read, unless the name has a format directive in it.
\<close>

lemma rhtml_from_ruby:
  assumes new: "rb_new_instance V ''Object'' [] (vm_world s) = (Inr ctx, w)" and fresh: "ctx \<notin> set (registered s)"
  shows "(\<exists>p s'. compile_text (c_str t) (RhtmlParser Qnil) = Some p \<and>
      rb_call (init_rhtml V fs stdin) ''eval'' (Str t # bs) s = Some (Inr (Str (p_text p), s')) \<and>
      vm_world s' = w \<and> registered s' = registered s) \<and>
    (fs (c_str f) = Some (c_str t) \<longrightarrow>
      rb_call (init_rhtml V fs stdin) ''compile'' (Str f # bs) s = rb_call (init_rhtml V fs stdin) ''eval'' (Str t # bs) s) \<and>
    (fs (c_str f) = None \<and> CHR ''%'' \<notin> set (c_str f) \<longrightarrow>
      rb_call (init_rhtml V fs stdin) ''compile'' (Str f # bs) s =
        Some (Inl (IOError (''File does not exist: '' @ c_str f)))) \<and>
    rb_call (init_rhtml V fs stdin) ''eval'' [] s = Some (Inl no_argument)"
proof -
  have find: "find_method (init_rhtml V fs stdin) ''eval'' = Some (FnN (rhtml_eval V), -1)"
    "find_method (init_rhtml V fs stdin) ''compile'' = Some (FnN (rhtml_compile V fs stdin), -1)"
    by (simp_all add: find_method_def init_rhtml_def)
  define s1 where "s1 = register_object ctx (s\<lparr>vm_world := w\<rparr>)"
  have ob: "Object V ''Object'' [] s = Some (Inr \<lparr>ob_self = ctx, ob_class_name = ''Object''\<rparr>, s1)"
    using new by (simp add: Object_def create_object_def protected_def vm_bind_def s1_def)
  define s' where "s' = delete_Object \<lparr>ob_self = ctx, ob_class_name = ''Object''\<rparr> s1"
  have s': "vm_world s' = w" "registered s' = registered s"
    using fresh by (auto simp: s'_def s1_def delete_Object_def filter_id_conv)
  obtain p where p: "compile_text (c_str t) (RhtmlParser Qnil) = Some p" using compile_text_lines by blast
  have ev: "rb_call (init_rhtml V fs stdin) ''eval'' (Str t # bs) s = Some (Inr (Str (p_text p), s'))"
    by (simp add: rb_call_def find rhtml_eval_def with_parser_def ob p s'_def)
  moreover have "rb_call (init_rhtml V fs stdin) ''compile'' (Str f # bs) s = Some (Inr (Str (p_text p), s'))"
    if "fs (c_str f) = Some (c_str t)"
    using compile_file_is_text [of fs "c_str f" "c_str t" stdin "RhtmlParser Qnil"] that p
    by (auto simp: rb_call_def find rhtml_compile_def with_parser_def ob s'_def)
  moreover have "CHR ''%'' \<notin> set m \<Longrightarrow> as_format m = Some m" for m by (induction m) auto
  then have "rb_call (init_rhtml V fs stdin) ''compile'' (Str f # bs) s =
      Some (Inl (IOError (''File does not exist: '' @ c_str f)))" if "fs (c_str f) = None" "CHR ''%'' \<notin> set (c_str f)"
    using that by (simp add: rb_call_def find rhtml_compile_def)
  moreover have "rb_call (init_rhtml V fs stdin) ''eval'' [] s = Some (Inl no_argument)"
    by (simp add: rb_call_def find rhtml_eval_def)
  ultimately show ?thesis using p s'
    by (intro conjI impI exI [of _ p] exI [of _ s']) simp_all
qed

text \<open>
  Evaluating a template in C++ with no binding leaves the new binding registered for good; a binding
  passed in is not used.
\<close>

lemma eval_registered: "eval V c fn n b s = Some (r, s') \<Longrightarrow> registered s' = registered s"
proof -
  assume e: "eval V c fn n b s = Some (r, s')"
  obtain out w where "rb_funcall V Qnil ''eval'' [Str (c_str c), b, Str (c_str (case fn of None \<Rightarrow> ''eval'' | Some f \<Rightarrow> f)), INT2NUM n]
      (vm_world s) = (out, w)" by (meson surj_pair)
  with e obtain r1 where "protected [] (out, w) s = Some (r1, s')"
    unfolding eval_def ruby_method_def vm_bind_def Let_def by (auto split: option.splits sum.splits prod.splits)
  then show ?thesis by (cases rule: protected_cases) simp_all
qed

lemma rhtml_run_Inr:
  "rhtml_run V b p s = Some (Inr r, s') \<Longrightarrow>
     \<exists>s1. eval V (p_text p) (p_file_name p) (p_block_start_line p) (p_binding p) s = Some (Inr (), s1) \<and>
       s' = (if b = Qnil then free_object Qnil s1 else s1)"
  by (auto simp: rhtml_run_def split: option.splits sum.splits prod.splits unit.splits if_splits)

lemma rhtml_eval_leaks:
  assumes "rb_funcall V (ob_self ctx) ''binding'' [] (vm_world s) = (Inr bnd, w)" "bnd \<noteq> Qnil"
    and "rhtml_parser_eval V ctx Qnil p s = Some (Inr r, s')"
  shows "bnd \<in> set (registered s')"
proof -
  let ?p = "p\<lparr>p_binding := bnd\<rparr>" and ?s = "register_object bnd (s\<lparr>vm_world := w\<rparr>)"
  have "rhtml_run V Qnil ?p ?s = Some (Inr r, s')"
    using assms(1,3) by (simp add: rhtml_parser_eval_def Object_method_def protected_def vm_bind_def)
  then obtain s1 where e: "eval V (p_text ?p) (p_file_name ?p) (p_block_start_line ?p) (p_binding ?p) ?s = Some (Inr (), s1)"
    and s': "s' = free_object Qnil s1"
    using rhtml_run_Inr by fastforce
  have "registered s1 = registered ?s" by (rule eval_registered [OF e])
  with s' assms(2) show ?thesis by simp
qed

text \<open>A template run with no binding gives its program to \<open>eval\<close>, whose exception nothing catches.\<close>

lemma rhtml_eval_runs:
  assumes "rb_funcall V (ob_self ctx) ''binding'' [] (vm_world s) = (Inr bnd, w)"
    and "rb_funcall V Qnil ''eval''
      [Str (c_str (p_text p)), bnd, Str (c_str (case p_file_name p of None \<Rightarrow> ''eval'' | Some f \<Rightarrow> f)), INT2NUM (p_block_start_line p)] w =
      (out, w')"
  shows "case out of
      Inl x \<Rightarrow> rhtml_parser_eval V ctx Qnil p s = None
    | Inr v \<Rightarrow> \<exists>s'. rhtml_parser_eval V ctx Qnil p s = Some (Inr (True, p\<lparr>p_binding := bnd\<rparr>), s') \<and> vm_world s' = w'"
proof -
  let ?s = "register_object bnd (s\<lparr>vm_world := w\<rparr>)"
  have bind: "rhtml_parser_eval V ctx Qnil p s = rhtml_run V Qnil (p\<lparr>p_binding := bnd\<rparr>) ?s"
    using assms(1) by (simp add: rhtml_parser_eval_def Object_method_def protected_def vm_bind_def)
  have call: "eval V (p_text p) (p_file_name p) (p_block_start_line p) bnd ?s =
      vm_bind (protected [] (out, w') ?s) (\<lambda>_ s. Some (Inr (), s))"
    using assms(2) by (simp add: eval_def ruby_method_def Let_def)
  show ?thesis
  proof (cases out)
    case (Inl x)
    then show ?thesis by (cases "exception_of [] x") (simp_all add: bind call rhtml_run_def protected_def vm_bind_def)
  next
    case (Inr v)
    then show ?thesis by (simp add: bind call rhtml_run_def protected_def vm_bind_def split: unit.split)
  qed
qed

lemma rhtml_eval_ignores_binding:
  "b \<noteq> Qnil \<Longrightarrow> b' \<noteq> Qnil \<Longrightarrow> rhtml_parser_eval V ctx b p s = rhtml_parser_eval V ctx b' p s"
  by (simp add: rhtml_parser_eval_def rhtml_run_def split: option.split sum.split prod.split)

end
