(* ===== verification/Module_Life.thy ===== *)
theory Module_Life
  imports Ruby_VM
begin

text \<open>
  Start and end of the module in a server process (module.cpp): \<open>ruby_init_module\<close> starts the
  interpreter, defines the constants and classes and makes the global handler; \<open>ruby_shutdown_module\<close>
  lets every handler clean up and stops the interpreter. The values of Apache's constants are a parameter,
  as is the class \<open>Encoding\<close>.
\<close>

section \<open>State\<close>

text \<open>\<open>handlers\<close> is a \<open>std::map\<close>: its entries in the order of their keys.\<close>

record 'w module_state =
  ms_vm :: "'w vm"
  ms_handlers :: "(string \<times> robject) list"
  ms_ruby_handler :: "robject option"
  ms_constants :: "(string \<times> ruby_value) list"
  ms_modules :: "string list"
  ms_log :: "string list"
  ms_stderr :: string

definition apache_constants :: "string list" where
  "apache_constants =
     [''APLOG_EMERG'', ''APLOG_ALERT'', ''APLOG_CRIT'', ''APLOG_ERR'', ''APLOG_WARNING'', ''APLOG_NOTICE'',
      ''APLOG_INFO'', ''APLOG_DEBUG'', ''APLOG_LEVELMASK'', ''APLOG_NOERRNO'', ''APLOG_TOCLIENT'', ''APLOG_STARTUP'',
      ''M_GET'', ''M_PUT'', ''M_POST'', ''M_DELETE'', ''M_CONNECT'', ''M_OPTIONS'',
      ''M_TRACE'', ''M_PATCH'', ''M_PROPFIND'', ''M_PROPPATCH'', ''M_MKCOL'', ''M_COPY'',
      ''M_MOVE'', ''M_LOCK'', ''M_UNLOCK'', ''M_VERSION_CONTROL'', ''M_CHECKOUT'', ''M_UNCHECKOUT'',
      ''M_CHECKIN'', ''M_UPDATE'', ''M_LABEL'', ''M_REPORT'', ''M_MKWORKSPACE'', ''M_MKACTIVITY'',
      ''M_BASELINE_CONTROL'', ''M_MERGE'', ''M_INVALID'']"

definition module_constants :: "(string \<Rightarrow> int) \<Rightarrow> (string \<times> ruby_value) list" where
  "module_constants apache = map (\<lambda>n. (n, INT2NUM (apache n))) apache_constants @ [(''M_METHODS'', INT2NUM 64)]"

text \<open>The modules and classes defined, in order.\<close>

definition module_classes :: "string list" where
  "module_classes =
     [''Apache'', ''ModRuby'', ''ModRuby.version'', ''ModRuby.release_date'', ''ModRuby::RHTML'', ''Apache::Request'',
      ''Apache::Server'', ''Apache::Connection'', ''Apache::Process'', ''APR'', ''APR functions'', ''APR::Array'',
      ''APR::FileInfo'', ''APR::Pool'', ''APR::Table'']"

section \<open>Start\<close>

text \<open>The calls in the try block that can throw: requiring the handler module, making its instance.\<close>

definition init_handler :: "'w ruby_api \<Rightarrow> 'w vm \<Rightarrow> (robject, 'w) vm_result" where
  "init_handler V s = vm_bind (require V ''modruby/handler'' s) (\<lambda>_ s. Object V ''ModRuby::Handler'' [] s)"

text \<open>
  \<open>log_message\<close> uses the text as the format of \<open>ap_log_perror\<close>: undefined with a directive in it. The number of
  the process in front of it is left out.
\<close>

definition log_message :: "string \<Rightarrow> 'w module_state \<Rightarrow> 'w module_state option" where
  "log_message message m = map_option (\<lambda>t. m\<lparr>ms_log := ms_log m @ [t]\<rparr>) (as_format (c_str message))"

definition log_error_message :: "string \<Rightarrow> 'w module_state \<Rightarrow> 'w module_state option" where
  "log_error_message message = log_message message"

definition log_warning :: "string \<Rightarrow> 'w module_state \<Rightarrow> 'w module_state option" where
  "log_warning message = log_message message"

definition fatal_error :: "thrown \<Rightarrow> 'w module_state \<Rightarrow> 'w module_state option" where
  "fatal_error e m =
     (case e of
        Ruby_exception x \<Rightarrow>
          log_error_message (''FATAL ERROR: '' @ ex_what x) (m\<lparr>ms_stderr := ms_stderr m @ ''Ruby Exception: '' @ ex_what x\<rparr>)
      | Std_exception w \<Rightarrow>
          log_error_message (''FATAL ERROR: '' @ w) (m\<lparr>ms_stderr := ms_stderr m @ ''C++ Exception: '' @ w @ [CHR 0x0A]\<rparr>))"

text \<open>The module functions of ModRuby; the texts come from the generated config.h.\<close>

definition ruby_version :: "string \<Rightarrow> ruby_value ruby_result" where
  "ruby_version release_version = rb_str_new2 (Some release_version)"

definition ruby_release_date :: "string \<Rightarrow> ruby_value ruby_result" where
  "ruby_release_date release_date = rb_str_new2 (Some release_date)"

lemma fatal_error_keeps:
  "fatal_error e m = Some m' \<Longrightarrow> ms_vm m' = ms_vm m \<and> ms_ruby_handler m' = ms_ruby_handler m"
  by (auto simp: fatal_error_def log_error_message_def log_message_def split: thrown.splits)

text \<open>Setting the default encoding is not protected: an exception there has no handler.\<close>

definition ruby_init_module ::
    "'w ruby_api \<Rightarrow> ruby_value \<Rightarrow> (string \<Rightarrow> int) \<Rightarrow> 'w module_state \<Rightarrow> (int \<times> 'w module_state) option" where
  "ruby_init_module V encoding apache m =
     (let m = m\<lparr>ms_log := ms_log m @ [''startup_module'']\<rparr> in
      case startup V (ms_vm m) of
        None \<Rightarrow> None
      | Some s \<Rightarrow>
          (case rb_funcall V encoding ''default_external='' [Str ''UTF-8''] (vm_world s) of
             (Inl x, w) \<Rightarrow> None
           | (Inr _, w) \<Rightarrow>
               (let m = m\<lparr>ms_constants := ms_constants m @ module_constants apache,
                          ms_modules := ms_modules m @ module_classes\<rparr> in
                case init_handler V (s\<lparr>vm_world := w\<rparr>) of
                  None \<Rightarrow> None
                | Some (Inr ob, s) \<Rightarrow> Some (0, m\<lparr>ms_vm := s, ms_ruby_handler := Some ob\<rparr>)
                | Some (Inl e, s) \<Rightarrow> map_option (Pair 1) (fatal_error e (m\<lparr>ms_vm := s\<rparr>)))))"

section \<open>End\<close>

text \<open>One handler's turn: what its method throws is logged, and the loop goes on.\<close>

definition shutdown_handler :: "'w ruby_api \<Rightarrow> robject \<Rightarrow> 'w module_state \<Rightarrow> 'w module_state option" where
  "shutdown_handler V ob m =
     (let m = m\<lparr>ms_log := ms_log m @ [''ruby_shutdown_module() starting'']\<rparr> in
      case Object_method V ob ''shutdown'' [] (ms_vm m) of
        None \<Rightarrow> None
      | Some (Inr _, s) \<Rightarrow> Some (m\<lparr>ms_vm := s\<rparr>)
      | Some (Inl (Ruby_exception x), s) \<Rightarrow>
          Some (m\<lparr>ms_vm := s, ms_log := ms_log m @
            [''ruby_shutdown_module(): Ruby Exception: '' @ ex_what x @ [CHR 0x0A] @ ex_stackdump x]\<rparr>)
      | Some (Inl (Std_exception _), s) \<Rightarrow>
          Some (m\<lparr>ms_vm := s, ms_stderr := ms_stderr m @ ''ruby_shutdown_module(): C++ Exception'' @ [CHR 0x0A]\<rparr>))"

fun shutdown_handlers :: "'w ruby_api \<Rightarrow> (string \<times> robject) list \<Rightarrow> 'w module_state \<Rightarrow> 'w module_state option" where
  "shutdown_handlers V [] m = Some m"
| "shutdown_handlers V ((k, ob) # obs) m = Option.bind (shutdown_handler V ob m) (shutdown_handlers V obs)"

text \<open>The global handler's method is called outside of any try block.\<close>

definition ruby_shutdown_module :: "'w ruby_api \<Rightarrow> 'w module_state \<Rightarrow> ((thrown + int) \<times> 'w module_state) option" where
  "ruby_shutdown_module V m =
     Option.bind (shutdown_handlers V (ms_handlers m) m) (\<lambda>m.
       case ms_ruby_handler m of
         None \<Rightarrow> Some (Inr 0, m\<lparr>ms_vm := shutdown V (ms_vm m)\<rparr>)
       | Some ob \<Rightarrow>
           (case Object_method V ob ''shutdown'' [] (ms_vm m) of
              None \<Rightarrow> None
            | Some (Inl e, s) \<Rightarrow> Some (Inl e, m\<lparr>ms_vm := s\<rparr>)
            | Some (Inr _, s) \<Rightarrow>
                Some (Inr 0, m\<lparr>ms_ruby_handler := None, ms_vm := shutdown V (delete_Object ob s)\<rparr>)))"

section \<open>What shutting down reaches\<close>

text \<open>Every exception that Ruby raises has a backtrace.\<close>

definition with_backtraces :: "'w ruby_api \<Rightarrow> bool" where
  "with_backtraces V \<longleftrightarrow>
     (\<forall>recv name as w x w'. rb_funcall V recv name as w = (Inl x, w') \<longrightarrow> rx_backtrace x \<noteq> None)"

text \<open>The interpreter after the method \<open>shutdown\<close> of each handler, in the order of the keys.\<close>

definition after_shutdowns :: "'w ruby_api \<Rightarrow> (string \<times> robject) list \<Rightarrow> 'w \<Rightarrow> 'w" where
  "after_shutdowns V obs w = fold (\<lambda>(k, ob) w. snd (rb_funcall V (ob_self ob) ''shutdown'' [] w)) obs w"

lemma Object_method_outcome:
  assumes "with_backtraces V" "rb_funcall V (ob_self ob) name as (vm_world s) = (out, w)"
  shows "\<exists>r. Object_method V ob name as s = Some (r, s\<lparr>vm_world := w\<rparr>) \<and>
    (case out of Inr v \<Rightarrow> r = Inr v | Inl x \<Rightarrow> \<exists>e. r = Inl (Ruby_exception e) \<and> ex_type e = c_str (rx_class x))"
proof (cases out)
  case (Inl x)
  with assms obtain ary where "rx_backtrace x = Some ary" unfolding with_backtraces_def by blast
  with assms(2) Inl show ?thesis by (simp add: Object_method_def protected_def exception_of_def)
qed (use assms(2) in \<open>simp add: Object_method_def protected_def\<close>)

lemma shutdown_handler_outcome:
  assumes "with_backtraces V"
  shows "\<exists>m'. shutdown_handler V ob m = Some m' \<and>
    ms_vm m' = (ms_vm m)\<lparr>vm_world := snd (rb_funcall V (ob_self ob) ''shutdown'' [] (vm_world (ms_vm m)))\<rparr> \<and>
    ms_handlers m' = ms_handlers m \<and> ms_ruby_handler m' = ms_ruby_handler m"
proof -
  obtain out w where out: "rb_funcall V (ob_self ob) ''shutdown'' [] (vm_world (ms_vm m)) = (out, w)" by (meson surj_pair)
  from Object_method_outcome [OF assms this] show ?thesis
    by (cases out) (auto simp: shutdown_handler_def out Let_def)
qed

lemma shutdown_handlers_outcome:
  assumes "with_backtraces V"
  shows "\<exists>m'. shutdown_handlers V obs m = Some m' \<and>
    ms_vm m' = (ms_vm m)\<lparr>vm_world := after_shutdowns V obs (vm_world (ms_vm m))\<rparr> \<and>
    ms_handlers m' = ms_handlers m \<and> ms_ruby_handler m' = ms_ruby_handler m"
proof (induction obs arbitrary: m)
  case (Cons x obs)
  obtain k ob where x: "x = (k, ob)" by (cases x)
  obtain m1 where m1: "shutdown_handler V ob m = Some m1"
    "ms_vm m1 = (ms_vm m)\<lparr>vm_world := snd (rb_funcall V (ob_self ob) ''shutdown'' [] (vm_world (ms_vm m)))\<rparr>"
    "ms_handlers m1 = ms_handlers m" "ms_ruby_handler m1 = ms_ruby_handler m"
    using shutdown_handler_outcome [OF assms] by blast
  with Cons.IH [of m1] show ?case by (auto simp: x after_shutdowns_def)
qed (auto simp: after_shutdowns_def)

lemma shutdown_simps [simp]:
  "vm_world (shutdown V s) = ruby_cleanup V (vm_world s)" "registered (shutdown V s) = []"
  "\<not> vm_running (shutdown V s)"
  by (simp_all add: shutdown_def Let_def free_all_def registered_def)

text \<open>
  At the end of the process \<open>shutdown\<close> is called on every registered handler, in the order of their
  identifiers, whichever of them raise. Then the global handler is shut down and deleted and the
  interpreter is stopped with an empty registry, and 0 is returned; but if the global handler's \<open>shutdown\<close>
  raises, the exception leaves the function, with the handler, the registry and the interpreter as they were.
\<close>

lemma module_shutdown:
  assumes V: "with_backtraces V"
  shows "case ms_ruby_handler m of
      None \<Rightarrow> \<exists>m'. ruby_shutdown_module V m = Some (Inr 0, m') \<and> registered (ms_vm m') = [] \<and> \<not> vm_running (ms_vm m') \<and>
        vm_world (ms_vm m') = ruby_cleanup V (after_shutdowns V (ms_handlers m) (vm_world (ms_vm m)))
    | Some ob \<Rightarrow>
        (case rb_funcall V (ob_self ob) ''shutdown'' [] (after_shutdowns V (ms_handlers m) (vm_world (ms_vm m))) of
           (Inr _, w) \<Rightarrow> \<exists>m'. ruby_shutdown_module V m = Some (Inr 0, m') \<and> registered (ms_vm m') = [] \<and>
             \<not> vm_running (ms_vm m') \<and> ms_ruby_handler m' = None \<and> vm_world (ms_vm m') = ruby_cleanup V w
         | (Inl x, w) \<Rightarrow> \<exists>e m'. ruby_shutdown_module V m = Some (Inl (Ruby_exception e), m') \<and>
             ex_type e = c_str (rx_class x) \<and> ms_ruby_handler m' = Some ob \<and> ms_vm m' = (ms_vm m)\<lparr>vm_world := w\<rparr>)"
proof -
  obtain m1 where m1: "shutdown_handlers V (ms_handlers m) m = Some m1"
    "ms_vm m1 = (ms_vm m)\<lparr>vm_world := after_shutdowns V (ms_handlers m) (vm_world (ms_vm m))\<rparr>"
    "ms_ruby_handler m1 = ms_ruby_handler m"
    using shutdown_handlers_outcome [OF V] by blast
  show ?thesis
  proof (cases "ms_ruby_handler m")
    case None
    with m1 show ?thesis by (simp add: ruby_shutdown_module_def)
  next
    case (Some ob)
    obtain out w where out: "rb_funcall V (ob_self ob) ''shutdown'' []
        (after_shutdowns V (ms_handlers m) (vm_world (ms_vm m))) = (out, w)" by (meson surj_pair)
    with m1(2) have "rb_funcall V (ob_self ob) ''shutdown'' [] (vm_world (ms_vm m1)) = (out, w)" by simp
    from Object_method_outcome [OF V this] m1 Some out show ?thesis
      by (cases out) (auto simp: ruby_shutdown_module_def delete_Object_def)
  qed
qed

text \<open>Starting: on success the global handler exists and is registered; an exception is logged and gives 1.\<close>

lemma protected_running: "protected msg out s = Some (r, s') \<Longrightarrow> vm_running s' = vm_running s"
  by (auto simp: protected_def split: prod.splits sum.splits)

lemma register_running [simp]: "vm_running (register_object v s) = vm_running s"
  by (simp add: register_object_def objects_instance_def Let_def)

lemma Object_registered:
  assumes "Object V c as s = Some (Inr ob, s')"
  shows "ob_self ob \<in> set (registered s') \<and> vm_running s' = vm_running s"
proof -
  obtain v s1 where "create_object V c as s = Some (Inr v, s1)" "ob_self ob = v" "s' = register_object v s1"
    using assms by (auto simp: Object_def vm_bind_def split: option.splits sum.splits prod.splits)
  then show ?thesis by (auto simp: create_object_def dest: protected_running)
qed

lemma init_handler_ok:
  assumes "init_handler V s = Some (Inr ob, s')"
  shows "ob_self ob \<in> set (registered s') \<and> vm_running s' = vm_running s"
proof -
  obtain s1 where "require V ''modruby/handler'' s = Some (Inr (), s1)" "Object V ''ModRuby::Handler'' [] s1 = Some (Inr ob, s')"
    using assms by (auto simp: init_handler_def vm_bind_def split: option.splits sum.splits prod.splits)
  from Object_registered [OF this(2)] protected_running [OF this(1) [unfolded require_def]] show ?thesis by simp
qed

lemma module_init_ok:
  assumes "ruby_init_module V encoding apache m = Some (0, m')"
  shows "vm_running (ms_vm m') \<and> (\<exists>ob. ms_ruby_handler m' = Some ob \<and> ob_self ob \<in> set (registered (ms_vm m')))"
proof -
  obtain s w ob s' where "startup V (ms_vm m) = Some s" "init_handler V (s\<lparr>vm_world := w\<rparr>) = Some (Inr ob, s')"
    "ms_vm m' = s'" "ms_ruby_handler m' = Some ob"
    using assms by (auto simp: ruby_init_module_def Let_def
        split: option.splits sum.splits prod.splits thrown.splits)
  moreover have "vm_running s" using \<open>startup V (ms_vm m) = Some s\<close>
    by (auto simp: startup_def split: if_splits prod.splits sum.splits)
  ultimately show ?thesis using init_handler_ok by fastforce
qed

end
