(* ===== verification/Ruby_Server.thy ===== *)
theory Ruby_Server
  imports Ruby_Binding
begin

text \<open>
  The Ruby classes Apache::Server, Apache::Connection and Apache::Process (ruby_server.cpp,
  ruby_connection.cpp, ruby_process.cpp) over the C++ wrappers of Apache's records (server.h, server.cpp,
  connection.h, process.h). A wrapper is made by the server only; the records are Apache's and are read only.
\<close>

section \<open>Apache's records\<close>

text \<open>\<open>sr_next\<close> is the address of the next virtual host's record; arrays are addresses too.\<close>

record server_rec =
  sr_next :: "nat option"
  sr_defn_name :: c_ptr
  sr_defn_line_number :: int
  sr_server_admin :: c_ptr
  sr_server_hostname :: c_ptr
  sr_port :: int
  sr_error_fname :: c_ptr
  sr_loglevel :: int
  sr_is_virtual :: int
  sr_timeout :: int
  sr_keep_alive_timeout :: int
  sr_keep_alive_max :: int
  sr_keep_alive :: int
  sr_path :: c_ptr
  sr_pathlen :: int
  sr_names :: "nat option"
  sr_wild_names :: "nat option"
  sr_limit_req_line :: int
  sr_limit_req_fieldsize :: int
  sr_limit_req_fields :: int

record connection =
  cn_aborted :: int
  cn_id :: int
  cn_keepalive :: int
  cn_local_ip :: c_ptr
  cn_local_port :: int
  cn_local_host :: c_ptr
  cn_remote_host :: c_ptr
  cn_remote_ip :: c_ptr
  cn_remote_port :: int
  cn_remote_logname :: c_ptr
  cn_base_server :: nat

record process_rec =
  pr_argc :: int
  pr_argv :: "c_ptr list"
  pr_short_name :: c_ptr

text \<open>A getter that raises, as \<^const>\<open>rb_str_new2\<close> does on NULL.\<close>

definition raising_getter :: "('s \<Rightarrow> ruby_value ruby_result) \<Rightarrow> 's c_fn" where
  "raising_getter g = Fn0 (\<lambda>s. Some (and_then (g s) (\<lambda>v. Inr (v, s))))"

lemma arity_raising_getter [simp]: "arity_matches (raising_getter g) n \<longleftrightarrow> n = 0"
  by (simp add: raising_getter_def)

definition array_or_nil :: "nat option \<Rightarrow> ruby_value" where
  "array_or_nil p = (case p of None \<Rightarrow> Qnil | Some a \<Rightarrow> Obj ''APR::Array'' a)"

section \<open>Server\<close>

text \<open>
  A wrapper holds its record and a wrapper of the next one: the constructor wraps the whole chain of
  records behind its own, and does not return when the chain has no end. \<open>M\<close> is the memory of records.
\<close>

datatype server = Server (server_rec_of: nat) (next_server: "server option")

partial_function (option) Server_init :: "(nat \<Rightarrow> server_rec option) \<Rightarrow> nat \<Rightarrow> server option" where
  "Server_init M s =
     Option.bind (M s) (\<lambda>r.
       case sr_next r of
         None \<Rightarrow> Some (Server s None)
       | Some n \<Rightarrow> Option.bind (Server_init M n) (\<lambda>next. Some (Server s (Some next))))"

text \<open>
  Assigning a record wraps its chain anew; the wrappers that the old chain held are not deleted, and are given
  with the result. Deleting a wrapper deletes those behind it first.
\<close>

definition Server_assign :: "(nat \<Rightarrow> server_rec option) \<Rightarrow> server \<Rightarrow> nat \<Rightarrow> (server \<times> server option) option" where
  "Server_assign M self sr =
     Option.bind (M sr) (\<lambda>r.
       case sr_next r of
         None \<Rightarrow> Some (Server sr None, next_server self)
       | Some n \<Rightarrow> Option.bind (Server_init M n) (\<lambda>next. Some (Server sr (Some next), next_server self)))"

fun delete_Server :: "server \<Rightarrow> nat list" where
  "delete_Server (Server s None) = [s]"
| "delete_Server (Server s (Some n)) = delete_Server n @ [s]"

definition Server_get_module_config :: "(nat \<Rightarrow> 'm \<Rightarrow> 'c) \<Rightarrow> server \<Rightarrow> 'm \<Rightarrow> 'c" where
  "Server_get_module_config module_config self m = module_config (server_rec_of self) m"

text \<open>The object wraps a new \<open>Server\<close>; its number is the address of the record.\<close>

definition make_server :: "(nat \<Rightarrow> server_rec option) \<Rightarrow> nat \<Rightarrow> ruby_value option" where
  "make_server M s = map_option (\<lambda>obj. Obj ''Apache::Server'' (server_rec_of obj)) (Server_init M s)"

text \<open>The state of a method: the wrapper; reading its record needs the memory.\<close>

definition sr_field :: "(nat \<Rightarrow> server_rec option) \<Rightarrow> (server_rec \<Rightarrow> ruby_value ruby_result) \<Rightarrow> server c_fn" where
  "sr_field M g = Fn0 (\<lambda>self. map_option (\<lambda>r. and_then (g r) (\<lambda>v. Inr (v, self))) (M (server_rec_of self)))"

lemma arity_sr_field [simp]: "arity_matches (sr_field M g) n \<longleftrightarrow> n = 0"
  by (simp add: sr_field_def)

definition server_m_addrs :: "server_rec \<Rightarrow> ruby_value ruby_result" where
  "server_m_addrs r = Inr Qnil"

definition server_m_error_log :: "server_rec \<Rightarrow> ruby_value ruby_result" where
  "server_m_error_log r = Inr Qnil"

definition server_m_lookup_defaults :: "server_rec \<Rightarrow> ruby_value ruby_result" where
  "server_m_lookup_defaults r = Inr Qnil"

definition server_m_defn_line_number :: "server_rec \<Rightarrow> ruby_value ruby_result" where
  "server_m_defn_line_number r = Inr (INT2FIX (sr_defn_line_number r))"

definition server_m_is_virtual :: "server_rec \<Rightarrow> ruby_value ruby_result" where
  "server_m_is_virtual r = Inr (INT2FIX (sr_is_virtual r))"

definition server_m_keep_alive :: "server_rec \<Rightarrow> ruby_value ruby_result" where
  "server_m_keep_alive r = Inr (INT2FIX (sr_keep_alive r))"

definition server_m_keep_alive_max :: "server_rec \<Rightarrow> ruby_value ruby_result" where
  "server_m_keep_alive_max r = Inr (INT2FIX (sr_keep_alive_max r))"

definition server_m_keep_alive_timeout :: "server_rec \<Rightarrow> ruby_value ruby_result" where
  "server_m_keep_alive_timeout r = Inr (INT2FIX (sr_keep_alive_timeout r))"

definition server_m_limit_req_fields :: "server_rec \<Rightarrow> ruby_value ruby_result" where
  "server_m_limit_req_fields r = Inr (INT2FIX (sr_limit_req_fields r))"

definition server_m_limit_req_fieldsize :: "server_rec \<Rightarrow> ruby_value ruby_result" where
  "server_m_limit_req_fieldsize r = Inr (INT2FIX (sr_limit_req_fieldsize r))"

definition server_m_limit_req_line :: "server_rec \<Rightarrow> ruby_value ruby_result" where
  "server_m_limit_req_line r = Inr (INT2FIX (sr_limit_req_line r))"

definition server_m_loglevel :: "server_rec \<Rightarrow> ruby_value ruby_result" where
  "server_m_loglevel r = Inr (INT2FIX (sr_loglevel r))"

definition server_m_pathlen :: "server_rec \<Rightarrow> ruby_value ruby_result" where
  "server_m_pathlen r = Inr (INT2FIX (sr_pathlen r))"

definition server_m_port :: "server_rec \<Rightarrow> ruby_value ruby_result" where
  "server_m_port r = Inr (INT2FIX (sr_port r))"

definition server_m_timeout :: "server_rec \<Rightarrow> ruby_value ruby_result" where
  "server_m_timeout r = Inr (INT2FIX (sr_timeout r))"

definition server_m_defn_name :: "server_rec \<Rightarrow> ruby_value ruby_result" where
  "server_m_defn_name r = (if sr_defn_name r = None then Inr Qnil else rb_str_new2 (sr_defn_name r))"

definition server_m_error_fname :: "server_rec \<Rightarrow> ruby_value ruby_result" where
  "server_m_error_fname r = (if sr_error_fname r = None then Inr Qnil else rb_str_new2 (sr_error_fname r))"

definition server_m_path :: "server_rec \<Rightarrow> ruby_value ruby_result" where
  "server_m_path r = (if sr_path r = None then Inr Qnil else rb_str_new2 (sr_path r))"

definition server_m_names :: "server_rec \<Rightarrow> ruby_value ruby_result" where
  "server_m_names r = Inr (array_or_nil (sr_names r))"

definition server_m_wild_names :: "server_rec \<Rightarrow> ruby_value ruby_result" where
  "server_m_wild_names r = Inr (array_or_nil (sr_wild_names r))"

text \<open>The test of these two is the wrong way round: a string there is answers nil, and NULL is made into one.\<close>

definition server_m_server_admin :: "server_rec \<Rightarrow> ruby_value ruby_result" where
  "server_m_server_admin r = (if sr_server_admin r \<noteq> None then Inr Qnil else rb_str_new2 (sr_server_admin r))"

definition server_m_server_hostname :: "server_rec \<Rightarrow> ruby_value ruby_result" where
  "server_m_server_hostname r = (if sr_server_hostname r \<noteq> None then Inr Qnil else rb_str_new2 (sr_server_hostname r))"

text \<open>\<open>initialize\<close> returns the object, \<open>next\<close> wraps the next record again, \<open>process\<close> the process of this one.\<close>

definition server_m_init :: "server \<Rightarrow> ruby_value" where
  "server_m_init self = Obj ''Apache::Server'' (server_rec_of self)"

definition server_m_next :: "(nat \<Rightarrow> server_rec option) \<Rightarrow> server \<Rightarrow> server c_result" where
  "server_m_next M self =
     (case next_server self of
        None \<Rightarrow> Some (Inr (Qnil, self))
      | Some s \<Rightarrow> map_option (\<lambda>v. Inr (v, self)) (make_server M (server_rec_of s)))"

definition make_process :: "nat \<Rightarrow> ruby_value" where
  "make_process s = Obj ''Apache::Process'' s"

definition server_m_process :: "server \<Rightarrow> ruby_value" where
  "server_m_process self = make_process (server_rec_of self)"

definition init_server :: "(nat \<Rightarrow> server_rec option) \<Rightarrow> server method_table" where
  "init_server M =
     [(''initialize'', getter server_m_init, 0),
      (''addrs'', sr_field M server_m_addrs, 0),
      (''defn_line_number'', sr_field M server_m_defn_line_number, 0),
      (''defn_name'', sr_field M server_m_defn_name, 0),
      (''error_log'', sr_field M server_m_error_log, 0),
      (''error_fname'', sr_field M server_m_error_fname, 0),
      (''is_virtual'', sr_field M server_m_is_virtual, 0),
      (''keep_alive'', sr_field M server_m_keep_alive, 0),
      (''keep_alive_max'', sr_field M server_m_keep_alive_max, 0),
      (''keep_alive_timeout'', sr_field M server_m_keep_alive_timeout, 0),
      (''limit_req_fields'', sr_field M server_m_limit_req_fields, 0),
      (''limit_req_fieldsize'', sr_field M server_m_limit_req_fieldsize, 0),
      (''limit_req_line'', sr_field M server_m_limit_req_line, 0),
      (''loglevel'', sr_field M server_m_loglevel, 0),
      (''lookup_defaults'', sr_field M server_m_lookup_defaults, 0),
      (''names'', sr_field M server_m_names, 0),
      (''next'', Fn0 (server_m_next M), 0),
      (''path'', sr_field M server_m_path, 0),
      (''pathlen'', sr_field M server_m_pathlen, 0),
      (''port'', sr_field M server_m_port, 0),
      (''process'', getter server_m_process, 0),
      (''server_admin'', sr_field M server_m_server_admin, 0),
      (''server_hostname'', sr_field M server_m_server_hostname, 0),
      (''timeout'', sr_field M server_m_timeout, 0),
      (''wild_names'', sr_field M server_m_wild_names, 0)]"

section \<open>Connection\<close>

definition make_connection :: "nat \<Rightarrow> ruby_value" where
  "make_connection c = Obj ''Apache::Connection'' c"

definition connection_m_aborted :: "connection \<Rightarrow> ruby_value ruby_result" where
  "connection_m_aborted c = Inr (INT2FIX (cn_aborted c))"

definition connection_m_id :: "connection \<Rightarrow> ruby_value ruby_result" where
  "connection_m_id c = Inr (INT2FIX (cn_id c))"

definition connection_m_keepalive :: "connection \<Rightarrow> ruby_value ruby_result" where
  "connection_m_keepalive c = Inr (INT2FIX (cn_keepalive c))"

definition connection_m_local_port :: "connection \<Rightarrow> ruby_value ruby_result" where
  "connection_m_local_port c = Inr (INT2FIX (cn_local_port c))"

definition connection_m_remote_port :: "connection \<Rightarrow> ruby_value ruby_result" where
  "connection_m_remote_port c = Inr (INT2FIX (cn_remote_port c))"

definition connection_m_local_host :: "connection \<Rightarrow> ruby_value ruby_result" where
  "connection_m_local_host c = (if cn_local_host c = None then Inr Qnil else rb_str_new2 (cn_local_host c))"

definition connection_m_remote_host :: "connection \<Rightarrow> ruby_value ruby_result" where
  "connection_m_remote_host c = (if cn_remote_host c = None then Inr Qnil else rb_str_new2 (cn_remote_host c))"

definition connection_m_local_ip :: "connection \<Rightarrow> ruby_value ruby_result" where
  "connection_m_local_ip c = rb_str_new2 (cn_local_ip c)"

definition connection_m_remote_ip :: "connection \<Rightarrow> ruby_value ruby_result" where
  "connection_m_remote_ip c = rb_str_new2 (cn_remote_ip c)"

definition connection_m_remote_logname :: "connection \<Rightarrow> ruby_value ruby_result" where
  "connection_m_remote_logname c = rb_str_new2 (cn_remote_logname c)"

definition connection_m_server :: "(nat \<Rightarrow> server_rec option) \<Rightarrow> connection \<Rightarrow> ruby_value option" where
  "connection_m_server M c = make_server M (cn_base_server c)"

text \<open>\<open>m_server\<close> and \<open>m_remote_logname\<close> are not registered: \<open>remote_logname\<close> is \<open>m_remote_ip\<close>.\<close>

definition init_connection :: "nat \<Rightarrow> connection method_table" where
  "init_connection self =
     [(''initialize'', getter (\<lambda>_. make_connection self), 0),
      (''aborted'', raising_getter connection_m_aborted, 0),
      (''id'', raising_getter connection_m_id, 0),
      (''keepalive'', raising_getter connection_m_keepalive, 0),
      (''local_host'', raising_getter connection_m_local_host, 0),
      (''local_ip'', raising_getter connection_m_local_ip, 0),
      (''local_port'', raising_getter connection_m_local_port, 0),
      (''remote_host'', raising_getter connection_m_remote_host, 0),
      (''remote_ip'', raising_getter connection_m_remote_ip, 0),
      (''remote_port'', raising_getter connection_m_remote_port, 0),
      (''remote_logname'', raising_getter connection_m_remote_ip, 0)]"

section \<open>Process\<close>

definition process_m_argc :: "process_rec \<Rightarrow> ruby_value ruby_result" where
  "process_m_argc p = Inr (INT2FIX (pr_argc p))"

definition process_m_short_name :: "process_rec \<Rightarrow> ruby_value ruby_result" where
  "process_m_short_name p = (if pr_short_name p = None then Inr Qnil else rb_str_new2 (pr_short_name p))"

text \<open>\<open>argv\<close> is read up to \<open>argc\<close>; outside the array is undefined. The loop's body pushes one string.\<close>

fun push_args :: "c_ptr list \<Rightarrow> nat \<Rightarrow> nat \<Rightarrow> ruby_value list \<Rightarrow> ruby_value list ruby_result option" where
  "push_args argv i 0 a = Some (Inr a)"
| "push_args argv i (Suc n) a =
     (if i < length argv
      then (case rb_str_new2 (argv ! i) of Inl e \<Rightarrow> Some (Inl e) | Inr v \<Rightarrow> push_args argv (Suc i) n (a @ [v]))
      else None)"

definition process_m_argv :: "process_rec \<Rightarrow> process_rec c_result" where
  "process_m_argv p = map_option (\<lambda>r. and_then r (\<lambda>a. Inr (Arr a, p))) (push_args (pr_argv p) 0 (nat (pr_argc p)) [])"

definition init_process :: "nat \<Rightarrow> process_rec method_table" where
  "init_process self =
     [(''initialize'', getter (\<lambda>_. make_process self), 0),
      (''argc'', raising_getter process_m_argc, 0),
      (''id'', Fn0 process_m_argv, 0),
      (''short_name'', raising_getter process_m_short_name, 0)]"

section \<open>The chain of servers\<close>

fun servers :: "server \<Rightarrow> nat list" where
  "servers (Server s None) = [s]"
| "servers (Server s (Some n)) = s # servers n"

text \<open>A chain of records in memory: each holds the address of the next one, the last holds NULL.\<close>

fun linked :: "(nat \<Rightarrow> server_rec option) \<Rightarrow> nat list \<Rightarrow> bool" where
  "linked M [] \<longleftrightarrow> False"
| "linked M [s] \<longleftrightarrow> map_option sr_next (M s) = Some None"
| "linked M (s # t # ts) \<longleftrightarrow> map_option sr_next (M s) = Some (Some t) \<and> linked M (t # ts)"

lemma servers_Cons: "\<exists>ts. servers s = server_rec_of s # ts"
  by (cases s rule: servers.cases) auto

lemma Server_init_linked: "linked M (s # ts) \<Longrightarrow> \<exists>w. Server_init M s = Some w \<and> servers w = s # ts"
proof (induction ts arbitrary: s)
  case Nil
  then show ?case by (subst Server_init.simps) auto
next
  case (Cons t ts)
  then obtain w where "Server_init M t = Some w" "servers w = t # ts" by auto
  with Cons.prems show ?case by (subst Server_init.simps) auto
qed

lemma Server_init_only_linked: "Server_init M s = Some w \<Longrightarrow> server_rec_of w = s \<and> linked M (servers w)"
proof (induction w arbitrary: s)
  case (Server r nxt)
  show ?case
  proof (cases nxt)
    case None
    with Server.prems show ?thesis by (subst (asm) Server_init.simps) (auto split: Option.bind_splits option.splits)
  next
    case (Some n)
    with Server.prems obtain m rec where "Server_init M m = Some n" "r = s" "M s = Some rec" "sr_next rec = Some m"
      by (subst (asm) Server_init.simps) (auto split: Option.bind_splits option.splits)
    with Server.IH [of n m] Some servers_Cons [of n] show ?thesis by auto
  qed
qed

text \<open>Deleting frees every wrapper of the chain; an assignment gives what a new wrapper is, and leaks the rest.\<close>

lemma delete_Server_all: "delete_Server s = rev (servers s)"
  by (induction s rule: servers.induct) simp_all

lemma Server_assign_leaks:
  "Server_assign M (Server s (Some n)) sr = map_option (\<lambda>w. (w, Some n)) (Server_init M sr)"
  by (subst Server_init.simps)
    (auto simp: Server_assign_def split: Option.bind_splits option.splits)

text \<open>Wrapping a server ends exactly when its chain does, and then the wrapper's chain is the records'.\<close>

lemma Server_init_iff: "(\<exists>w. Server_init M s = Some w \<and> servers w = s # ts) \<longleftrightarrow> linked M (s # ts)"
  using Server_init_linked Server_init_only_linked by metis

text \<open>A record that points at itself cannot be wrapped.\<close>

lemma Server_init_cycle:
  assumes "M s = Some r" "sr_next r = Some s"
  shows "Server_init M s = None"
proof (rule ccontr)
  assume "Server_init M s \<noteq> None"
  then obtain w where w: "Server_init M s = Some w" by auto
  from Server_init.simps [of M s] have "w = Server s (Some w)" by (simp add: assms w)
  then have "size w = size (Server s (Some w))" by simp
  then show False by simp
qed

lemma next_walks_chain:
  assumes "Server_init M s = Some w" "servers w = s # t # ts"
  shows "server_m_next M w = Some (Inr (Obj ''Apache::Server'' t, w)) \<and>
    (\<exists>n. Server_init M t = Some n \<and> servers n = t # ts)"
proof -
  from assms Server_init_only_linked [OF assms(1)] have t: "linked M (t # ts)" by auto
  from Server_init_linked [OF this] obtain n where n: "Server_init M t = Some n" "servers n = t # ts" by auto
  moreover from assms servers_Cons obtain m where "next_server w = Some m" "server_rec_of m = t"
    by (cases w rule: servers.cases) (auto, metis list.inject)
  moreover from Server_init_only_linked [OF n(1)] have "server_rec_of n = t" by simp
  ultimately show ?thesis by (simp add: server_m_next_def make_server_def)
qed

text \<open>Every method takes as many parameters as it is registered with.\<close>

lemma server_arities: "list_all (\<lambda>(name, f, n). arity_matches f n) (init_server M)"
  by (simp add: init_server_def)

lemma connection_arities: "list_all (\<lambda>(name, f, n). arity_matches f n) (init_connection self)"
  by (simp add: init_connection_def)

lemma process_arities: "list_all (\<lambda>(name, f, n). arity_matches f n) (init_process self)"
  by (simp add: init_process_def)

text \<open>The administrator and the name of a server are never a string.\<close>

lemma server_admin_no_string: "server_m_server_admin r = (if sr_server_admin r = None then Inl ArgumentError else Inr Qnil)"
  by (simp add: server_m_server_admin_def rb_str_new2_def)

lemma server_hostname_no_string:
  "server_m_server_hostname r = (if sr_server_hostname r = None then Inl ArgumentError else Inr Qnil)"
  by (simp add: server_m_server_hostname_def rb_str_new2_def)

lemma remote_logname_is_ip:
  "rb_call (init_connection self) ''remote_logname'' as c = rb_call (init_connection self) ''remote_ip'' as c"
  by (simp add: rb_call_def init_connection_def find_method_Nil find_method_Cons)

lemma push_args_all:
  "i + n \<le> length argv \<Longrightarrow> None \<notin> set argv \<Longrightarrow>
   push_args argv i n a = Some (Inr (a @ map (\<lambda>p. Str (c_str (the p))) (take n (drop i argv))))"
proof (induction n arbitrary: i a)
  case (Suc n)
  then have "argv ! i \<noteq> None" by (metis add_Suc_right add_lessD1 less_eq_Suc_le nth_mem)
  moreover have "take (Suc n) (drop i argv) = argv ! i # take n (drop (Suc i) argv)"
    using Suc.prems by (metis Cons_nth_drop_Suc add_Suc_right add_lessD1 less_eq_Suc_le take_Suc_Cons)
  ultimately show ?case using Suc by (auto simp: rb_str_new2_def)
qed simp

lemma process_id_is_argv:
  assumes "pr_argc p = int (length (pr_argv p))" "None \<notin> set (pr_argv p)"
  shows "rb_call (init_process self) ''id'' [] p = Some (Inr (Arr (map (\<lambda>a. Str (c_str (the a))) (pr_argv p)), p)) \<and>
    rb_call (init_process self) ''argv'' [] p = Some (Inl NoMethodError)"
  using assms by (simp add: rb_call_def init_process_def find_method_Nil find_method_Cons process_m_argv_def push_args_all)

lemma find_server:
  "find_method (init_server M) ''next'' = Some (Fn0 (server_m_next M), 0)"
  "find_method (init_server M) ''server_admin'' = Some (sr_field M server_m_server_admin, 0)"
  "find_method (init_server M) ''server_hostname'' = Some (sr_field M server_m_server_hostname, 0)"
  by (simp_all add: init_server_def find_method_Nil find_method_Cons)

text \<open>
  C39. Wrapping a server returns exactly when the chain of records behind it ends, with the wrappers of
  that chain; a record that points at itself is never wrapped. \<open>next\<close> called from Ruby returns the next
  server of the chain, wrapped with all that follow it. \<open>server_admin\<close> and \<open>server_hostname\<close> never return
  a string: they answer nil where there is one and raise where there is none.
\<close>

theorem server_chain:
  assumes "M s = Some r"
  shows "((\<exists>w. Server_init M s = Some w \<and> servers w = s # ts) \<longleftrightarrow> linked M (s # ts)) \<and>
    (sr_next r = Some s \<longrightarrow> Server_init M s = None) \<and>
    (linked M (s # t # us) \<longrightarrow>
      (\<exists>w n. Server_init M s = Some w \<and> rb_call (init_server M) ''next'' [] w = Some (Inr (Obj ''Apache::Server'' t, w)) \<and>
         Server_init M t = Some n \<and> servers n = t # us)) \<and>
    rb_call (init_server M) ''server_admin'' [] (Server s nxt) =
      Some (if sr_server_admin r = None then Inl ArgumentError else Inr (Qnil, Server s nxt)) \<and>
    rb_call (init_server M) ''server_hostname'' [] (Server s nxt) =
      Some (if sr_server_hostname r = None then Inl ArgumentError else Inr (Qnil, Server s nxt))"
proof (intro conjI impI)
  show "(\<exists>w. Server_init M s = Some w \<and> servers w = s # ts) \<longleftrightarrow> linked M (s # ts)" by (rule Server_init_iff)
  show "Server_init M s = None" if "sr_next r = Some s" using Server_init_cycle [of M s r] assms that by simp
  assume "linked M (s # t # us)"
  from Server_init_linked [OF this] obtain w where w: "Server_init M s = Some w" "servers w = s # t # us" by auto
  with next_walks_chain [OF w] show "\<exists>w n. Server_init M s = Some w \<and>
         rb_call (init_server M) ''next'' [] w = Some (Inr (Obj ''Apache::Server'' t, w)) \<and>
         Server_init M t = Some n \<and> servers n = t # us"
    by (auto simp: rb_call_def find_server)
qed (simp_all add: rb_call_def find_server sr_field_def assms server_admin_no_string server_hostname_no_string)

definition blank_server :: server_rec where
  "blank_server =
     \<lparr>sr_next = None, sr_defn_name = None, sr_defn_line_number = 0, sr_server_admin = None, sr_server_hostname = None,
      sr_port = 0, sr_error_fname = None, sr_loglevel = 0, sr_is_virtual = 0, sr_timeout = 0, sr_keep_alive_timeout = 0,
      sr_keep_alive_max = 0, sr_keep_alive = 0, sr_path = None, sr_pathlen = 0, sr_names = None, sr_wild_names = None,
      sr_limit_req_line = 0, sr_limit_req_fieldsize = 0, sr_limit_req_fields = 0\<rparr>"

definition two_servers :: "nat \<Rightarrow> server_rec option" where
  "two_servers = [1 \<mapsto> blank_server\<lparr>sr_next := Some 2, sr_server_admin := Some ''root''\<rparr>, 2 \<mapsto> blank_server]"

theorem server_chain_witness:
  "(\<exists>w. Server_init two_servers 1 = Some w \<and> servers w = [1, 2] \<and>
      rb_call (init_server two_servers) ''next'' [] w = Some (Inr (Obj ''Apache::Server'' 2, w))) \<and>
   rb_call (init_server two_servers) ''server_admin'' [] (Server 1 None) = Some (Inr (Qnil, Server 1 None))"
proof -
  have m: "two_servers 1 = Some (blank_server\<lparr>sr_next := Some 2, sr_server_admin := Some ''root''\<rparr>)"
    and l: "linked two_servers [1, 2]"
    by (simp_all add: two_servers_def blank_server_def)
  from server_chain [where M = two_servers and s = 1 and ts = "[2]" and t = 2 and us = "[]" and nxt = None, OF m] l show ?thesis by auto
qed

end
