(* ===== verification/Request_Output.thy ===== *)
theory Request_Output
  imports Request Apr_Files Ruby_Server
begin

text \<open>
  The rest of the request object (request.h, request.cpp): the fields of Apache's \<open>request_rec\<close> that its
  accessors read, the calls it passes on to Apache, its printed form and \<open>send_file\<close>. Apache's functions
  are a parameter; each works on the record and on Apache's state \<open>'c\<close> of the connection.
\<close>

section \<open>The request record\<close>

text \<open>The fields in the groups in which request.h declares their accessors.\<close>

record request_origin =
  rr_self :: nat
  rr_connection :: nat
  rr_server :: nat
  rr_next :: "nat option"
  rr_prev :: "nat option"
  rr_main :: "nat option"
  rr_the_request :: c_ptr
  rr_assbackwards :: int
  rr_proxyreq :: int
  rr_header_only :: int

record request_line = request_origin +
  rr_protocol :: c_ptr
  rr_proto_num :: int
  rr_hostname :: c_ptr
  rr_request_time :: int
  rr_status_line :: c_ptr
  rr_status :: int
  rr_user :: c_ptr
  rr_method_number :: int
  rr_allowed :: int

record request_rec = request_line +
  rr_sent_bodyct :: int
  rr_mtime :: int
  rr_chunked :: int
  rr_range :: c_ptr
  rr_clength :: int
  rr_remaining :: int
  rr_read_length :: int
  rr_read_body :: int
  rr_read_chunked :: int
  rr_headers_out :: handle
  rr_err_headers_out :: handle
  rr_subprocess_env :: handle
  rr_notes :: handle
  rr_content_type :: c_ptr
  rr_handler :: c_ptr
  rr_content_encoding :: c_ptr
  rr_content_languages :: "nat option"
  rr_vlist_validator :: c_ptr
  rr_ap_auth_type :: c_ptr
  rr_unparsed_uri :: c_ptr
  rr_uri :: c_ptr
  rr_filename :: c_ptr
  rr_path_info :: c_ptr
  rr_no_cache :: int
  rr_no_local_copy :: int
  rr_finfo :: finfo

type_synonym 'c ap_void = "request_rec \<Rightarrow> 'c \<Rightarrow> request_rec \<times> 'c"
type_synonym 'c ap_int = "request_rec \<Rightarrow> 'c \<Rightarrow> int \<times> request_rec \<times> 'c"
type_synonym 'c ap_str = "request_rec \<Rightarrow> 'c \<Rightarrow> c_ptr"

record 'c ap_output =
  ap_rputs :: "string \<Rightarrow> 'c ap_int"
  ap_rwrite :: "string \<Rightarrow> 'c ap_int"
  ap_rflush :: "'c ap_int"
  ap_log_rerror :: "int \<Rightarrow> string \<Rightarrow> 'c ap_void"
  ap_send_fd :: "string \<Rightarrow> int \<Rightarrow> 'c ap_int"
  apr_file_open :: "string \<Rightarrow> int"
  ap_discard_request_body :: "'c ap_int"

record 'c ap_core = "'c ap_output" +
  ap_allow_options :: "'c ap_int"
  ap_allow_overrides :: "'c ap_int"
  ap_document_root :: "'c ap_str"
  ap_get_remote_logname :: "'c ap_str"
  ap_get_server_name :: "'c ap_str"
  ap_internal_redirect :: "string \<Rightarrow> 'c ap_void"
  ap_some_auth_required :: "'c ap_int"
  ap_is_initial_req :: "'c ap_int"

record 'c ap_protocol = "'c ap_core" +
  ap_finalize_request_protocol :: "'c ap_void"
  ap_send_error_response :: "int \<Rightarrow> 'c ap_void"
  ap_set_content_length :: "int \<Rightarrow> 'c ap_void"
  ap_set_keepalive :: "'c ap_int"
  ap_rationalize_mtime :: "int \<Rightarrow> 'c ap_int"

record 'c ap_api = "'c ap_protocol" +
  ap_make_etag :: "int \<Rightarrow> 'c ap_str"
  ap_set_etag :: "'c ap_void"
  ap_meets_conditions :: "'c ap_int"
  ap_set_content_type :: "string \<Rightarrow> 'c ap_void"
  ap_setup_client_block :: "int \<Rightarrow> 'c ap_int"
  ap_should_client_block :: "'c ap_int"
  ap_note_auth_failure :: "'c ap_void"
  ap_note_basic_auth_failure :: "'c ap_void"
  ap_note_digest_auth_failure :: "'c ap_void"

text \<open>An Apache that does nothing, and an empty request; they serve as examples.\<close>

definition quiet_apache :: "'c ap_api" where
  "quiet_apache =
     \<lparr>ap_rputs = (\<lambda>_ rr c. (0, rr, c)), ap_rwrite = (\<lambda>_ rr c. (0, rr, c)),
      ap_rflush = (\<lambda>rr c. (0, rr, c)), ap_log_rerror = (\<lambda>_ _ rr c. (rr, c)),
      ap_send_fd = (\<lambda>_ _ rr c. (0, rr, c)), apr_file_open = (\<lambda>_. 0),
      ap_discard_request_body = (\<lambda>rr c. (0, rr, c)),
      ap_allow_options = (\<lambda>rr c. (0, rr, c)), ap_allow_overrides = (\<lambda>rr c. (0, rr, c)),
      ap_document_root = (\<lambda>_ _. None), ap_get_remote_logname = (\<lambda>_ _. None), ap_get_server_name = (\<lambda>_ _. None),
      ap_internal_redirect = (\<lambda>_ rr c. (rr, c)), ap_some_auth_required = (\<lambda>rr c. (0, rr, c)),
      ap_is_initial_req = (\<lambda>rr c. (0, rr, c)),
      ap_finalize_request_protocol = (\<lambda>rr c. (rr, c)), ap_send_error_response = (\<lambda>_ rr c. (rr, c)),
      ap_set_content_length = (\<lambda>_ rr c. (rr, c)), ap_set_keepalive = (\<lambda>rr c. (0, rr, c)),
      ap_rationalize_mtime = (\<lambda>_ rr c. (0, rr, c)),
      ap_make_etag = (\<lambda>_ _ _. None), ap_set_etag = (\<lambda>rr c. (rr, c)), ap_meets_conditions = (\<lambda>rr c. (0, rr, c)),
      ap_set_content_type = (\<lambda>_ rr c. (rr, c)), ap_setup_client_block = (\<lambda>_ rr c. (0, rr, c)),
      ap_should_client_block = (\<lambda>rr c. (0, rr, c)), ap_note_auth_failure = (\<lambda>rr c. (rr, c)),
      ap_note_basic_auth_failure = (\<lambda>rr c. (rr, c)), ap_note_digest_auth_failure = (\<lambda>rr c. (rr, c))\<rparr>"

definition blank_request :: request_rec where
  "blank_request =
     \<lparr>rr_self = 0, rr_connection = 0, rr_server = 0, rr_next = None, rr_prev = None, rr_main = None,
      rr_the_request = None, rr_assbackwards = 0, rr_proxyreq = 0, rr_header_only = 0,
      rr_protocol = None, rr_proto_num = 0, rr_hostname = None, rr_request_time = 0, rr_status_line = None,
      rr_status = 0, rr_user = None, rr_method_number = 0, rr_allowed = 0,
      rr_sent_bodyct = 0, rr_mtime = 0, rr_chunked = 0, rr_range = None, rr_clength = 0, rr_remaining = 0,
      rr_read_length = 0, rr_read_body = 0, rr_read_chunked = 0, rr_headers_out = None, rr_err_headers_out = None,
      rr_subprocess_env = None, rr_notes = None, rr_content_type = None, rr_handler = None,
      rr_content_encoding = None, rr_content_languages = None, rr_vlist_validator = None, rr_ap_auth_type = None,
      rr_unparsed_uri = None, rr_uri = None, rr_filename = None, rr_path_info = None, rr_no_cache = 0,
      rr_no_local_copy = 0, rr_finfo = zero_finfo\<rparr>"

section \<open>The printed form\<close>

text \<open>
  \<open>snprintf\<close> into a buffer of 256 with the limit 255. A NULL for \<open>%s\<close> is undefined. An apr_off_t given
  to the second form is narrowed to 32 bits.
\<close>

definition snprintf255 :: "string \<Rightarrow> string" where
  "snprintf255 s = take 254 s"

definition pad_right :: "nat \<Rightarrow> string \<Rightarrow> string" where
  "pad_right n s = s @ replicate (n - length s) (CHR '' '')"

definition pad_left :: "nat \<Rightarrow> string \<Rightarrow> string" where
  "pad_left n s = replicate (n - length s) (CHR '' '') @ s"

definition format_pair_s :: "string \<Rightarrow> c_ptr \<Rightarrow> string option" where
  "format_pair_s key val =
     map_option (\<lambda>v. snprintf255 (''    '' @ pad_right 24 key @ '': '' @ c_str v @ [CHR 0x0A])) val"

definition format_pair_i :: "string \<Rightarrow> int \<Rightarrow> string option" where
  "format_pair_i key val =
     Some (snprintf255 (''    '' @ pad_right 24 key @ '': '' @ show_int (signed_take_bit 31 val) @ [CHR 0x0A]))"

definition table_line :: "int \<Rightarrow> string \<times> string \<Rightarrow> string \<Rightarrow> string" where
  "table_line i kd out =
     out @ snprintf255 (''  '' @ pad_left 3 (show_int i) @ '' '' @ pad_right 22 (c_str (fst kd)) @ '': '' @
       c_str (snd kd) @ [CHR 0x0A])"

definition table_string :: "entries \<Rightarrow> string option" where
  "table_string e = map_option (snd \<circ> snd) (while_next it_adv (indexed_body table_line) (it_begin, e, []))"

text \<open>The pieces in their order; one of them undefined makes the whole undefined.\<close>

fun join_pieces :: "string option list \<Rightarrow> string option" where
  "join_pieces [] = Some []"
| "join_pieces (p # ps) = Option.bind p (\<lambda>x. map_option ((@) x) (join_pieces ps))"

definition repr_fields :: "'c ap_api \<Rightarrow> connection \<Rightarrow> request_rec \<Rightarrow> 'c request \<Rightarrow> string option list" where
  "repr_fields P cn rr s =
     [Some (''Request:'' @ [CHR 0x0A, CHR 0x0A]),
      format_pair_s ''Hostname'' (rr_hostname rr),
      format_pair_s ''Document Root'' (ap_document_root P rr (rq_client s)),
      format_pair_s ''Request'' (rr_the_request rr),
      format_pair_s ''Method'' (Some (rq_method s)),
      format_pair_i ''Status'' (rr_status rr),
      format_pair_s ''URI'' (rr_uri rr),
      format_pair_s ''Args'' (rq_args s),
      format_pair_s ''Filename'' (rr_filename rr),
      format_pair_s ''Path'' (rr_path_info rr),
      format_pair_i ''Bytes Sent'' (rq_bytes_sent s),
      format_pair_s ''Content Type'' (rr_content_type rr),
      format_pair_s ''Remote Host'' (cn_remote_host cn),
      format_pair_s ''Remote IP'' (cn_remote_ip cn),
      format_pair_s ''Protocol'' (rr_protocol rr),
      format_pair_i ''Proto Number'' (rr_proto_num rr),
      format_pair_s ''Status Line'' (rr_status_line rr),
      format_pair_i ''Method Number'' (rr_method_number rr),
      format_pair_s ''Handler'' (rr_handler rr),
      format_pair_s ''User'' (rr_user rr),
      format_pair_s ''Local Host'' (cn_local_host cn),
      format_pair_s ''Local IP'' (cn_local_ip cn),
      format_pair_i ''Assbackwards'' (rr_assbackwards rr),
      format_pair_i ''Proxy Req'' (rr_proxyreq rr),
      format_pair_i ''Header Only'' (rr_header_only rr),
      format_pair_i ''Allowed'' (rr_allowed rr),
      Some [CHR 0x0A]]"

definition table_piece :: "table_heap \<Rightarrow> handle \<Rightarrow> string option" where
  "table_piece H t = Option.bind (table_elts H t) table_string"

text \<open>A section that is left out for an empty table.\<close>

definition optional_piece :: "table_heap \<Rightarrow> handle \<Rightarrow> string \<Rightarrow> string \<Rightarrow> string option" where
  "optional_piece H t title after =
     Option.bind (table_size H t) (\<lambda>n.
       if n > 0 then map_option (\<lambda>x. title @ x @ after) (table_piece H t) else Some [])"

definition repr ::
    "apr_table_api \<Rightarrow> 'c client_api \<Rightarrow> 'c ap_api \<Rightarrow> int \<Rightarrow> connection \<Rightarrow> request_rec \<Rightarrow> 'c request \<Rightarrow> (string \<times> 'c request) option" where
  "repr A K P m cn rr s =
     (let nl = [CHR 0x0A] in
      Option.bind (join_pieces
        (repr_fields P cn rr s @
         [Some (''Headers in:'' @ nl @ nl), table_piece (rq_tables s) (rq_headers_in s), Some nl,
          Some (''Environment Variables:'' @ nl @ nl), table_piece (rq_tables s) (rr_subprocess_env rr), Some nl]))
        (\<lambda>first.
      Option.bind (form_data A K m s) (\<lambda>(params, s).
      let H = rq_tables s in
      map_option (\<lambda>rest. (first @ rest, s)) (join_pieces
        [if params \<noteq> None then map_option ((@) (''POST Parameters:'' @ nl @ nl)) (table_piece H params) else Some [],
         optional_piece H (rr_notes rr) (''Notes:'' @ nl @ nl) [],
         optional_piece H (rr_headers_out rr) (''Headers out:'' @ nl @ nl) nl,
         optional_piece H (rr_err_headers_out rr) (''Error Headers_out:'' @ nl @ nl) nl]))))"

text \<open>\<open>rputs\<close> of the printed form, and of a table's.\<close>

definition dump ::
    "apr_table_api \<Rightarrow> 'c client_api \<Rightarrow> 'c ap_api \<Rightarrow> int \<Rightarrow> connection \<Rightarrow> request_rec \<Rightarrow> 'c request \<Rightarrow>
     (request_rec \<times> 'c request) option" where
  "dump A K P m cn rr s =
     map_option (\<lambda>(out, s). (case ap_rputs P (c_str out) rr (rq_client s) of (n, rr, c) \<Rightarrow> (rr, s\<lparr>rq_client := c\<rparr>)))
       (repr A K P m cn rr s)"

definition dump_table :: "'c ap_api \<Rightarrow> handle \<Rightarrow> request_rec \<Rightarrow> 'c request \<Rightarrow> (request_rec \<times> 'c request) option" where
  "dump_table P t rr s =
     map_option (\<lambda>out. (case ap_rputs P (c_str out) rr (rq_client s) of (n, rr, c) \<Rightarrow> (rr, s\<lparr>rq_client := c\<rparr>)))
       (table_piece (rq_tables s) t)"

section \<open>Sending a file\<close>

text \<open>The number of bytes sent is an unsigned 64-bit number, returned as an int.\<close>

definition send_file :: "stat_api \<Rightarrow> 'c ap_api \<Rightarrow> string \<Rightarrow> 'c ap_int" where
  "send_file apr_stat P path rr c =
     (let st = stat_file apr_stat path APR_FINFO_MIN in
      if \<not> fo_valid st then (-1, rr, c)
      else if fi_filetype (fo_stat st) \<noteq> APR_REG then (-1, rr, c)
      else if apr_file_open P path \<noteq> APR_SUCCESS then (-1, rr, c)
      else (case ap_send_fd P path (fi_size (fo_stat st)) rr c of
              (sent, rr, c) \<Rightarrow> (signed_take_bit 31 sent, rr, c)))"

section \<open>Calls handed on to Apache\<close>

text \<open>
  \<open>setup_cgi\<close> fills the environment of a request by two functions of Apache, \<open>rprintf\<close> formats its text
  first, and \<open>rwrite\<close> reads as many bytes as it is told, which may be more than there are.
\<close>

definition setup_cgi :: "('r \<Rightarrow> 'r) \<Rightarrow> ('r \<Rightarrow> 'r) \<Rightarrow> 'r \<Rightarrow> bool \<times> 'r" where
  "setup_cgi ap_add_cgi_vars ap_add_common_vars rr = (True, ap_add_common_vars (ap_add_cgi_vars rr))"

definition get_dir_config :: "('m \<Rightarrow> 'v) \<Rightarrow> 'm \<Rightarrow> 'v" where
  "get_dir_config per_dir_config m = per_dir_config m"

definition get_basic_auth_pw :: "(request_rec \<Rightarrow> 'c \<Rightarrow> int \<times> c_ptr \<times> request_rec \<times> 'c) \<Rightarrow> request_rec \<Rightarrow> 'c \<Rightarrow>
    int \<times> c_ptr \<times> request_rec \<times> 'c" where
  "get_basic_auth_pw ap_get_basic_auth_pw rr c = ap_get_basic_auth_pw rr c"

definition request_rputs :: "'c ap_api \<Rightarrow> string \<Rightarrow> 'c ap_int" where
  "request_rputs P str rr c = ap_rputs P (c_str str) rr c"

definition request_rputc :: "(int \<Rightarrow> 'c ap_int) \<Rightarrow> int \<Rightarrow> 'c ap_int" where
  "request_rputc ap_rputc ch rr c = ap_rputc ch rr c"

definition request_rwrite :: "'c ap_api \<Rightarrow> string \<Rightarrow> int \<Rightarrow> request_rec \<Rightarrow> 'c \<Rightarrow> (int \<times> request_rec \<times> 'c) option" where
  "request_rwrite P buf nbyte rr c =
     (if nbyte < 0 \<or> length buf < nat nbyte then None else Some (ap_rwrite P (take (nat nbyte) buf) rr c))"

definition request_rprintf :: "(string \<Rightarrow> 'a \<Rightarrow> 'c ap_int) \<Rightarrow> string \<Rightarrow> 'a \<Rightarrow> 'c ap_int" where
  "request_rprintf ap_vrprintf fmt vp rr c = ap_vrprintf (c_str fmt) vp rr c"

definition request_rflush :: "'c ap_api \<Rightarrow> 'c ap_int" where
  "request_rflush P rr c = ap_rflush P rr c"

end
