(* ===== verification/Request_Calls.thy ===== *)
theory Request_Calls
  imports Request_Output
begin

text \<open>
  The members of \<open>Request\<close> that request.h defines inline and that do more than read a field of the record:
  they call one function of Apache, or write a field. Where no Ruby method uses one, the function it calls
  is its first argument.
\<close>

named_theorems request_calls

section \<open>Fields\<close>

definition request_content_length :: "'c request \<Rightarrow> int" where
  "request_content_length s = signed_take_bit 31 (int (length (rq_content s)))"

definition request_error :: "'c request \<Rightarrow> string" where
  "request_error s = c_str (rq_error s)"

definition request_set_status :: "int \<Rightarrow> request_rec \<Rightarrow> int \<times> request_rec" where
  [request_calls]: "request_set_status n rr = (n, rr\<lparr>rr_status := n\<rparr>)"

definition request_set_user :: "string \<Rightarrow> request_rec \<Rightarrow> request_rec" where
  [request_calls]: "request_set_user user rr = rr\<lparr>rr_user := Some user\<rparr>"

definition request_set_allowed :: "int \<Rightarrow> request_rec \<Rightarrow> request_rec" where
  [request_calls]: "request_set_allowed x rr = rr\<lparr>rr_allowed := x\<rparr>"

definition request_content_type :: "c_ptr \<Rightarrow> request_rec \<Rightarrow> c_ptr \<times> request_rec" where
  "request_content_type type rr =
     (case type of
        Some t \<Rightarrow> (let copy = Some (c_str t) in (copy, rr\<lparr>rr_content_type := copy\<rparr>))
      | None \<Rightarrow> (rr_content_type rr, rr))"

definition get_request_rec :: "request_rec \<Rightarrow> nat" where
  "get_request_rec rr = rr_self rr"

section \<open>Calls\<close>

definition request_allow_options :: "'c ap_api \<Rightarrow> 'c ap_int" where
  [request_calls]: "request_allow_options P = ap_allow_options P"

definition request_allow_overrides :: "'c ap_api \<Rightarrow> 'c ap_int" where
  [request_calls]: "request_allow_overrides P = ap_allow_overrides P"

definition request_document_root :: "'c ap_api \<Rightarrow> 'c ap_str" where
  [request_calls]: "request_document_root P = ap_document_root P"

definition request_get_remote_logname :: "'c ap_api \<Rightarrow> 'c ap_str" where
  [request_calls]: "request_get_remote_logname P = ap_get_remote_logname P"

definition request_get_server_name :: "'c ap_api \<Rightarrow> 'c ap_str" where
  [request_calls]: "request_get_server_name P = ap_get_server_name P"

definition request_internal_redirect :: "'c ap_api \<Rightarrow> string \<Rightarrow> 'c ap_void" where
  [request_calls]: "request_internal_redirect P = ap_internal_redirect P"

text \<open>The handler form calls the same function.\<close>

definition request_internal_redirect_handler :: "'c ap_api \<Rightarrow> string \<Rightarrow> 'c ap_void" where
  [request_calls]: "request_internal_redirect_handler P = ap_internal_redirect P"

definition request_some_auth_required :: "'c ap_api \<Rightarrow> 'c ap_int" where
  [request_calls]: "request_some_auth_required P = ap_some_auth_required P"

definition request_is_initial_req :: "'c ap_api \<Rightarrow> 'c ap_int" where
  [request_calls]: "request_is_initial_req P = ap_is_initial_req P"

definition request_discard_request_body :: "'c ap_api \<Rightarrow> 'c ap_int" where
  [request_calls]: "request_discard_request_body P = ap_discard_request_body P"

definition request_finalize_request_protocol :: "'c ap_api \<Rightarrow> 'c ap_void" where
  [request_calls]: "request_finalize_request_protocol P = ap_finalize_request_protocol P"

definition request_send_error_response :: "'c ap_api \<Rightarrow> int \<Rightarrow> 'c ap_void" where
  [request_calls]: "request_send_error_response P = ap_send_error_response P"

definition request_set_content_length :: "'c ap_api \<Rightarrow> int \<Rightarrow> 'c ap_void" where
  [request_calls]: "request_set_content_length P = ap_set_content_length P"

definition request_set_keepalive :: "'c ap_api \<Rightarrow> 'c ap_int" where
  [request_calls]: "request_set_keepalive P = ap_set_keepalive P"

definition request_rationalize_mtime :: "'c ap_api \<Rightarrow> int \<Rightarrow> 'c ap_int" where
  [request_calls]: "request_rationalize_mtime P = ap_rationalize_mtime P"

definition request_make_etag :: "'c ap_api \<Rightarrow> int \<Rightarrow> 'c ap_str" where
  [request_calls]: "request_make_etag P = ap_make_etag P"

definition request_set_etag :: "'c ap_api \<Rightarrow> 'c ap_void" where
  [request_calls]: "request_set_etag P = ap_set_etag P"

definition request_meets_conditions :: "'c ap_api \<Rightarrow> 'c ap_int" where
  [request_calls]: "request_meets_conditions P = ap_meets_conditions P"

definition request_set_content_type :: "'c ap_api \<Rightarrow> string \<Rightarrow> 'c ap_void" where
  [request_calls]: "request_set_content_type P = ap_set_content_type P"

definition request_setup_client_block :: "'c ap_api \<Rightarrow> int \<Rightarrow> 'c ap_int" where
  [request_calls]: "request_setup_client_block P = ap_setup_client_block P"

definition request_should_client_block :: "'c ap_api \<Rightarrow> 'c ap_int" where
  [request_calls]: "request_should_client_block P = ap_should_client_block P"

definition request_note_auth_failure :: "'c ap_api \<Rightarrow> 'c ap_void" where
  [request_calls]: "request_note_auth_failure P = ap_note_auth_failure P"

definition request_note_basic_auth_failure :: "'c ap_api \<Rightarrow> 'c ap_void" where
  [request_calls]: "request_note_basic_auth_failure P = ap_note_basic_auth_failure P"

definition request_note_digest_auth_failure :: "'c ap_api \<Rightarrow> 'c ap_void" where
  [request_calls]: "request_note_digest_auth_failure P = ap_note_digest_auth_failure P"

text \<open>Those that no method of the Ruby class uses.\<close>

definition request_custom_response :: "(int \<Rightarrow> string \<Rightarrow> 'c ap_void) \<Rightarrow> int \<Rightarrow> string \<Rightarrow> 'c ap_void" where
  "request_custom_response ap_custom_response status str = ap_custom_response status (c_str str)"

definition request_update_mtime :: "(int \<Rightarrow> 'c ap_void) \<Rightarrow> int \<Rightarrow> 'c ap_void" where
  "request_update_mtime ap_update_mtime dependency_mtime = ap_update_mtime dependency_mtime"

definition request_get_mime_headers :: "'c ap_void \<Rightarrow> 'c ap_void" where
  "request_get_mime_headers ap_get_mime_headers = ap_get_mime_headers"

definition request_get_mime_headers_core :: "('b \<Rightarrow> 'c ap_void) \<Rightarrow> 'b \<Rightarrow> 'c ap_void" where
  "request_get_mime_headers_core ap_get_mime_headers_core bb = ap_get_mime_headers_core bb"

definition request_make_content_type :: "(string \<Rightarrow> 'c ap_str) \<Rightarrow> string \<Rightarrow> 'c ap_str" where
  "request_make_content_type ap_make_content_type type = ap_make_content_type (c_str type)"

definition request_set_last_modified :: "'c ap_void \<Rightarrow> 'c ap_void" where
  "request_set_last_modified ap_set_last_modified = ap_set_last_modified"

definition request_parse_uri :: "(string \<Rightarrow> 'c ap_void) \<Rightarrow> string \<Rightarrow> 'c ap_void" where
  "request_parse_uri ap_parse_uri uri = ap_parse_uri (c_str uri)"

definition request_get_client_block :: "'c client_api \<Rightarrow> nat \<Rightarrow> 'c \<Rightarrow> int \<times> string \<times> 'c" where
  "request_get_client_block K bufsiz c = get_client_block K c bufsiz"

end
