(* ===== verification/Ruby_Request.thy ===== *)
theory Ruby_Request
  imports Request_Calls
begin

text \<open>
  The Ruby class Apache::Request (ruby_request.cpp). Its objects wrap a C++ request and are made by the
  server only. The methods fall into a few shapes: getters of a field or of an Apache call, calls with a
  checked argument, and the ones that read the body or write the response. What they use of Ruby beside
  type checks is a parameter: conversion to a string, encodings, and which argument of a call the compiler
  evaluates first.
\<close>

section \<open>State\<close>

record 'c request_env =
  qe_table :: apr_table_api
  qe_client :: "'c client_api"
  qe_ap :: "'c ap_api"
  qe_stat :: stat_api
  qe_servers :: "nat \<Rightarrow> server_rec option"
  qe_new_file_info :: "finfo \<Rightarrow> nat"
  qe_to_s :: "ruby_value \<Rightarrow> string ruby_result"
  qe_toupper :: "char \<Rightarrow> char"
  qe_enc_index :: "string \<Rightarrow> int"
  qe_left_first :: bool

text \<open>\<open>qr_max_content_length\<close> is a static member, shared by all requests of the process.\<close>

record 'c ruby_request =
  qr_rec :: request_rec
  qr_req :: "'c request"
  qr_max_content_length :: int

definition do_void :: "'c ap_void \<Rightarrow> 'c ruby_request \<Rightarrow> 'c ruby_request" where
  "do_void f q =
     (let (rr, c) = f (qr_rec q) (rq_client (qr_req q))
      in q\<lparr>qr_rec := rr, qr_req := (qr_req q)\<lparr>rq_client := c\<rparr>\<rparr>)"

definition do_int :: "'c ap_int \<Rightarrow> 'c ruby_request \<Rightarrow> int \<times> 'c ruby_request" where
  "do_int f q =
     (let (n, rr, c) = f (qr_rec q) (rq_client (qr_req q))
      in (n, q\<lparr>qr_rec := rr, qr_req := (qr_req q)\<lparr>rq_client := c\<rparr>\<rparr>))"

definition do_str :: "'c ap_str \<Rightarrow> 'c ruby_request \<Rightarrow> c_ptr" where
  "do_str f q = f (qr_rec q) (rq_client (qr_req q))"

text \<open>The shapes: a call for its effect, a call for its result, and the same with an argument.\<close>

definition void_method :: "'c ap_void \<Rightarrow> 'c ruby_request \<Rightarrow> 'c ruby_request c_result" where
  "void_method f q = Some (Inr (Qnil, do_void f q))"

definition int_method :: "'c ap_int \<Rightarrow> 'c ruby_request \<Rightarrow> 'c ruby_request c_result" where
  "int_method f q = (let (n, q) = do_int f q in Some (Inr (INT2FIX n, q)))"

definition with_arg ::
    "(ruby_value \<Rightarrow> 'a ruby_result) \<Rightarrow> ('a \<Rightarrow> 'c ruby_request \<Rightarrow> 'c ruby_request c_result) \<Rightarrow>
     ruby_value \<Rightarrow> 'c ruby_request \<Rightarrow> 'c ruby_request c_result" where
  "with_arg check f v q = (case check v of Inl e \<Rightarrow> Some (Inl e) | Inr x \<Rightarrow> f x q)"

text \<open>A pointer to another request, and a table wrapped as an object.\<close>

definition request_or_nil :: "nat option \<Rightarrow> ruby_value" where
  "request_or_nil r = (case r of None \<Rightarrow> Qnil | Some a \<Rightarrow> Obj ''Apache::Request'' a)"

definition make_apr_table :: "handle \<Rightarrow> ruby_value" where
  "make_apr_table t = Obj ''APR::Table'' (case t of None \<Rightarrow> 0 | Some a \<Rightarrow> Suc a)"

section \<open>Getters\<close>

definition request_m_args :: "'c ruby_request \<Rightarrow> ruby_value" where
  "request_m_args q = str_or_nil (rq_args (qr_req q))"

definition request_m_auth_type :: "'c ruby_request \<Rightarrow> ruby_value" where
  "request_m_auth_type q = str_or_nil (rr_ap_auth_type (qr_rec q))"

definition request_m_method :: "'c ruby_request \<Rightarrow> ruby_value" where
  "request_m_method q = str_or_nil (Some (rq_method (qr_req q)))"

definition request_m_the_request :: "'c ruby_request \<Rightarrow> ruby_value" where
  "request_m_the_request q = str_or_nil (rr_the_request (qr_rec q))"

definition request_m_protocol :: "'c ruby_request \<Rightarrow> ruby_value" where
  "request_m_protocol q = str_or_nil (rr_protocol (qr_rec q))"

definition request_m_hostname :: "'c ruby_request \<Rightarrow> ruby_value" where
  "request_m_hostname q = str_or_nil (rr_hostname (qr_rec q))"

definition request_m_status_line :: "'c ruby_request \<Rightarrow> ruby_value" where
  "request_m_status_line q = str_or_nil (rr_status_line (qr_rec q))"

definition request_m_range :: "'c ruby_request \<Rightarrow> ruby_value" where
  "request_m_range q = str_or_nil (rr_range (qr_rec q))"

definition request_m_content_type :: "'c ruby_request \<Rightarrow> ruby_value" where
  "request_m_content_type q = str_or_nil (rr_content_type (qr_rec q))"

definition request_m_handler :: "'c ruby_request \<Rightarrow> ruby_value" where
  "request_m_handler q = str_or_nil (rr_handler (qr_rec q))"

definition request_m_content_encoding :: "'c ruby_request \<Rightarrow> ruby_value" where
  "request_m_content_encoding q = str_or_nil (rr_content_encoding (qr_rec q))"

definition request_m_vlist_validator :: "'c ruby_request \<Rightarrow> ruby_value" where
  "request_m_vlist_validator q = str_or_nil (rr_vlist_validator (qr_rec q))"

definition request_m_user :: "'c ruby_request \<Rightarrow> ruby_value" where
  "request_m_user q = str_or_nil (rr_user (qr_rec q))"

definition request_m_unparsed_uri :: "'c ruby_request \<Rightarrow> ruby_value" where
  "request_m_unparsed_uri q = str_or_nil (rr_unparsed_uri (qr_rec q))"

definition request_m_uri :: "'c ruby_request \<Rightarrow> ruby_value" where
  "request_m_uri q = str_or_nil (rr_uri (qr_rec q))"

definition request_m_filename :: "'c ruby_request \<Rightarrow> ruby_value" where
  "request_m_filename q = str_or_nil (rr_filename (qr_rec q))"

definition request_m_path_info :: "'c ruby_request \<Rightarrow> ruby_value" where
  "request_m_path_info q = str_or_nil (rr_path_info (qr_rec q))"

definition request_m_get_error :: "'c ruby_request \<Rightarrow> ruby_value" where
  "request_m_get_error q = Str (c_str (rq_error (qr_req q)))"

definition request_m_make_content_type :: "'c ruby_request \<Rightarrow> ruby_value" where
  "request_m_make_content_type q = str_or_nil (rr_content_type (qr_rec q))"

definition request_m_allowed :: "'c ruby_request \<Rightarrow> ruby_value" where
  "request_m_allowed q = INT2FIX (rr_allowed (qr_rec q))"

definition request_m_assbackwards :: "'c ruby_request \<Rightarrow> ruby_value" where
  "request_m_assbackwards q = INT2FIX (rr_assbackwards (qr_rec q))"

definition request_m_chunked :: "'c ruby_request \<Rightarrow> ruby_value" where
  "request_m_chunked q = INT2FIX (rr_chunked (qr_rec q))"

definition request_m_clength :: "'c ruby_request \<Rightarrow> ruby_value" where
  "request_m_clength q = INT2FIX (rr_clength (qr_rec q))"

definition request_m_header_only :: "'c ruby_request \<Rightarrow> ruby_value" where
  "request_m_header_only q = INT2FIX (rr_header_only (qr_rec q))"

definition request_m_method_number :: "'c ruby_request \<Rightarrow> ruby_value" where
  "request_m_method_number q = INT2FIX (rr_method_number (qr_rec q))"

definition request_m_mtime :: "'c ruby_request \<Rightarrow> ruby_value" where
  "request_m_mtime q = INT2FIX (rr_mtime (qr_rec q))"

definition request_m_no_cache :: "'c ruby_request \<Rightarrow> ruby_value" where
  "request_m_no_cache q = INT2FIX (rr_no_cache (qr_rec q))"

definition request_m_no_local_copy :: "'c ruby_request \<Rightarrow> ruby_value" where
  "request_m_no_local_copy q = INT2FIX (rr_no_local_copy (qr_rec q))"

definition request_m_proto_num :: "'c ruby_request \<Rightarrow> ruby_value" where
  "request_m_proto_num q = INT2FIX (rr_proto_num (qr_rec q))"

definition request_m_proxyreq :: "'c ruby_request \<Rightarrow> ruby_value" where
  "request_m_proxyreq q = INT2FIX (rr_proxyreq (qr_rec q))"

definition request_m_read_body :: "'c ruby_request \<Rightarrow> ruby_value" where
  "request_m_read_body q = INT2FIX (rr_read_body (qr_rec q))"

definition request_m_read_chunked :: "'c ruby_request \<Rightarrow> ruby_value" where
  "request_m_read_chunked q = INT2FIX (rr_read_chunked (qr_rec q))"

definition request_m_read_length :: "'c ruby_request \<Rightarrow> ruby_value" where
  "request_m_read_length q = INT2FIX (rr_read_length (qr_rec q))"

definition request_m_remaining :: "'c ruby_request \<Rightarrow> ruby_value" where
  "request_m_remaining q = INT2FIX (rr_remaining (qr_rec q))"

definition request_m_request_time :: "'c ruby_request \<Rightarrow> ruby_value" where
  "request_m_request_time q = INT2FIX (rr_request_time (qr_rec q))"

definition request_m_sent_bodyct :: "'c ruby_request \<Rightarrow> ruby_value" where
  "request_m_sent_bodyct q = INT2FIX (rr_sent_bodyct (qr_rec q))"

definition request_m_status :: "'c ruby_request \<Rightarrow> ruby_value" where
  "request_m_status q = INT2FIX (rr_status (qr_rec q))"

definition request_m_bytes_sent :: "'c ruby_request \<Rightarrow> ruby_value" where
  "request_m_bytes_sent q = INT2FIX (rq_bytes_sent (qr_req q))"

definition request_m_main :: "'c ruby_request \<Rightarrow> ruby_value" where
  "request_m_main q = request_or_nil (rr_main (qr_rec q))"

definition request_m_next :: "'c ruby_request \<Rightarrow> ruby_value" where
  "request_m_next q = request_or_nil (rr_next (qr_rec q))"

definition request_m_prev :: "'c ruby_request \<Rightarrow> ruby_value" where
  "request_m_prev q = request_or_nil (rr_prev (qr_rec q))"

definition request_m_err_headers_out :: "'c ruby_request \<Rightarrow> ruby_value" where
  "request_m_err_headers_out q = make_apr_table (rr_err_headers_out (qr_rec q))"

definition request_m_notes :: "'c ruby_request \<Rightarrow> ruby_value" where
  "request_m_notes q = make_apr_table (rr_notes (qr_rec q))"

definition request_m_subprocess_env :: "'c ruby_request \<Rightarrow> ruby_value" where
  "request_m_subprocess_env q = make_apr_table (rr_subprocess_env (qr_rec q))"

definition request_m_table_headers_in :: "'c ruby_request \<Rightarrow> ruby_value" where
  "request_m_table_headers_in q = make_apr_table (rq_headers_in (qr_req q))"

definition request_m_table_headers_out :: "'c ruby_request \<Rightarrow> ruby_value" where
  "request_m_table_headers_out q = make_apr_table (rr_headers_out (qr_rec q))"

definition request_m_content_languages :: "'c ruby_request \<Rightarrow> ruby_value" where
  "request_m_content_languages q = array_or_nil (rr_content_languages (qr_rec q))"

definition request_m_finfo :: "'c request_env \<Rightarrow> 'c ruby_request \<Rightarrow> ruby_value" where
  "request_m_finfo E q = Obj ''APR::FileInfo'' (qe_new_file_info E (rr_finfo (qr_rec q)))"

definition request_m_parsed_uri :: "'c ruby_request \<Rightarrow> ruby_value" where
  "request_m_parsed_uri q = Qnil"

definition request_m_server :: "'c request_env \<Rightarrow> 'c ruby_request \<Rightarrow> 'c ruby_request c_result" where
  "request_m_server E q = map_option (\<lambda>v. Inr (v, q)) (make_server (qe_servers E) (rr_server (qr_rec q)))"

definition request_m_connection :: "'c ruby_request \<Rightarrow> ruby_value" where
  "request_m_connection q = make_connection (rr_connection (qr_rec q))"

definition request_m_init :: "'c ruby_request \<Rightarrow> ruby_value" where
  "request_m_init q = Obj ''Apache::Request'' (rr_self (qr_rec q))"

section \<open>Calls to Apache\<close>

definition request_m_document_root :: "'c request_env \<Rightarrow> 'c ruby_request \<Rightarrow> 'c ruby_request c_result" where
  "request_m_document_root E = (\<lambda>q. Some (Inr (str_or_nil (do_str (request_document_root (qe_ap E)) q), q)))"

definition request_m_get_remote_logname :: "'c request_env \<Rightarrow> 'c ruby_request \<Rightarrow> 'c ruby_request c_result" where
  "request_m_get_remote_logname E = (\<lambda>q. Some (Inr (str_or_nil (do_str (request_get_remote_logname (qe_ap E)) q), q)))"

definition request_m_get_server_name :: "'c request_env \<Rightarrow> 'c ruby_request \<Rightarrow> 'c ruby_request c_result" where
  "request_m_get_server_name E = (\<lambda>q. Some (Inr (str_or_nil (do_str (request_get_server_name (qe_ap E)) q), q)))"

definition request_m_allow_options :: "'c request_env \<Rightarrow> 'c ruby_request \<Rightarrow> 'c ruby_request c_result" where
  "request_m_allow_options E = int_method (request_allow_options (qe_ap E))"

definition request_m_allow_overrides :: "'c request_env \<Rightarrow> 'c ruby_request \<Rightarrow> 'c ruby_request c_result" where
  "request_m_allow_overrides E = int_method (request_allow_overrides (qe_ap E))"

definition request_m_discard_request_body :: "'c request_env \<Rightarrow> 'c ruby_request \<Rightarrow> 'c ruby_request c_result" where
  "request_m_discard_request_body E = int_method (request_discard_request_body (qe_ap E))"

definition request_m_is_initial_req :: "'c request_env \<Rightarrow> 'c ruby_request \<Rightarrow> 'c ruby_request c_result" where
  "request_m_is_initial_req E = int_method (request_is_initial_req (qe_ap E))"

definition request_m_meets_conditions :: "'c request_env \<Rightarrow> 'c ruby_request \<Rightarrow> 'c ruby_request c_result" where
  "request_m_meets_conditions E = int_method (request_meets_conditions (qe_ap E))"

definition request_m_rflush :: "'c request_env \<Rightarrow> 'c ruby_request \<Rightarrow> 'c ruby_request c_result" where
  "request_m_rflush E = int_method (ap_rflush (qe_ap E))"

definition request_m_set_keepalive :: "'c request_env \<Rightarrow> 'c ruby_request \<Rightarrow> 'c ruby_request c_result" where
  "request_m_set_keepalive E = int_method (request_set_keepalive (qe_ap E))"

definition request_m_should_client_block :: "'c request_env \<Rightarrow> 'c ruby_request \<Rightarrow> 'c ruby_request c_result" where
  "request_m_should_client_block E = int_method (request_should_client_block (qe_ap E))"

definition request_m_some_auth_required :: "'c request_env \<Rightarrow> 'c ruby_request \<Rightarrow> 'c ruby_request c_result" where
  "request_m_some_auth_required E = int_method (request_some_auth_required (qe_ap E))"

definition request_m_finalize_request_protocol :: "'c request_env \<Rightarrow> 'c ruby_request \<Rightarrow> 'c ruby_request c_result" where
  "request_m_finalize_request_protocol E = void_method (request_finalize_request_protocol (qe_ap E))"

definition request_m_note_auth_failure :: "'c request_env \<Rightarrow> 'c ruby_request \<Rightarrow> 'c ruby_request c_result" where
  "request_m_note_auth_failure E = void_method (request_note_auth_failure (qe_ap E))"

definition request_m_note_basic_auth_failure :: "'c request_env \<Rightarrow> 'c ruby_request \<Rightarrow> 'c ruby_request c_result" where
  "request_m_note_basic_auth_failure E = void_method (request_note_basic_auth_failure (qe_ap E))"

definition request_m_note_digest_auth_failure :: "'c request_env \<Rightarrow> 'c ruby_request \<Rightarrow> 'c ruby_request c_result" where
  "request_m_note_digest_auth_failure E = void_method (request_note_digest_auth_failure (qe_ap E))"

definition request_m_set_etag :: "'c request_env \<Rightarrow> 'c ruby_request \<Rightarrow> 'c ruby_request c_result" where
  "request_m_set_etag E = void_method (request_set_etag (qe_ap E))"

definition request_m_internal_redirect :: "'c request_env \<Rightarrow> ruby_value \<Rightarrow> 'c ruby_request \<Rightarrow> 'c ruby_request c_result" where
  "request_m_internal_redirect E = with_arg string_arg (\<lambda>url. void_method (request_internal_redirect (qe_ap E) url))"

definition request_m_internal_redirect_handler :: "'c request_env \<Rightarrow> ruby_value \<Rightarrow> 'c ruby_request \<Rightarrow> 'c ruby_request c_result" where
  "request_m_internal_redirect_handler E = with_arg string_arg (\<lambda>url. void_method (request_internal_redirect_handler (qe_ap E) url))"

definition request_m_make_etag :: "'c request_env \<Rightarrow> ruby_value \<Rightarrow> 'c ruby_request \<Rightarrow> 'c ruby_request c_result" where
  "request_m_make_etag E = with_arg fixnum_arg (\<lambda>w q. Some (Inr (str_or_nil (do_str (request_make_etag (qe_ap E) w) q), q)))"

definition request_m_rationalize_mtime :: "'c request_env \<Rightarrow> ruby_value \<Rightarrow> 'c ruby_request \<Rightarrow> 'c ruby_request c_result" where
  "request_m_rationalize_mtime E = with_arg fixnum_arg (\<lambda>t. int_method (request_rationalize_mtime (qe_ap E) t))"

definition request_m_send_error_response :: "'c request_env \<Rightarrow> ruby_value \<Rightarrow> 'c ruby_request \<Rightarrow> 'c ruby_request c_result" where
  "request_m_send_error_response E = with_arg fixnum_arg (\<lambda>n. void_method (request_send_error_response (qe_ap E) n))"

definition request_m_set_content_length :: "'c request_env \<Rightarrow> ruby_value \<Rightarrow> 'c ruby_request \<Rightarrow> 'c ruby_request c_result" where
  "request_m_set_content_length E = with_arg fixnum_arg (\<lambda>n. void_method (request_set_content_length (qe_ap E) n))"

definition request_m_set_content_type :: "'c request_env \<Rightarrow> ruby_value \<Rightarrow> 'c ruby_request \<Rightarrow> 'c ruby_request c_result" where
  "request_m_set_content_type E = with_arg string_arg (\<lambda>t. void_method (request_set_content_type (qe_ap E) t))"

definition request_m_send_file :: "'c request_env \<Rightarrow> ruby_value \<Rightarrow> 'c ruby_request \<Rightarrow> 'c ruby_request c_result" where
  "request_m_send_file E = with_arg string_arg (\<lambda>p. int_method (send_file (qe_stat E) (qe_ap E) p))"

text \<open>The setters of fields.\<close>

definition request_m_set_allowed :: "'c request_env \<Rightarrow> ruby_value \<Rightarrow> 'c ruby_request \<Rightarrow> 'c ruby_request c_result" where
  "request_m_set_allowed E = with_arg fixnum_arg (\<lambda>n q. Some (Inr (Qnil, q\<lparr>qr_rec := request_set_allowed n (qr_rec q)\<rparr>)))"

definition request_m_set_status :: "'c request_env \<Rightarrow> ruby_value \<Rightarrow> 'c ruby_request \<Rightarrow> 'c ruby_request c_result" where
  "request_m_set_status E = with_arg fixnum_arg (\<lambda>n q. Some (Inr (Qnil, q\<lparr>qr_rec := snd (request_set_status n (qr_rec q))\<rparr>)))"

definition request_m_set_user :: "'c request_env \<Rightarrow> ruby_value \<Rightarrow> 'c ruby_request \<Rightarrow> 'c ruby_request c_result" where
  "request_m_set_user E = with_arg string_arg (\<lambda>u q. Some (Inr (Qnil, q\<lparr>qr_rec := request_set_user u (qr_rec q)\<rparr>)))"

definition request_m_set_max_content_length :: "'c request_env \<Rightarrow> ruby_value \<Rightarrow> 'c ruby_request \<Rightarrow> 'c ruby_request c_result" where
  "request_m_set_max_content_length E = with_arg fixnum_arg (\<lambda>n q. Some (Inr (Qnil, q\<lparr>qr_max_content_length := n\<rparr>)))"

text \<open>
  The policy must be a string, and then a number: \<open>NUM2INT\<close> of a string raises. A message for the log is
  its format.
\<close>

definition check_string_then_int :: "ruby_value \<Rightarrow> int ruby_result" where
  "check_string_then_int v = and_then (string_arg v) (\<lambda>_. Inl TypeError)"

definition request_m_setup_client_block :: "'c request_env \<Rightarrow> ruby_value \<Rightarrow> 'c ruby_request \<Rightarrow> 'c ruby_request c_result" where
  "request_m_setup_client_block E = with_arg check_string_then_int (\<lambda>n. int_method (request_setup_client_block (qe_ap E) n))"

definition request_m_log :: "'c request_env \<Rightarrow> ruby_value \<Rightarrow> ruby_value \<Rightarrow> 'c ruby_request \<Rightarrow> 'c ruby_request c_result" where
  "request_m_log E level msg q =
     (case (level, string_arg msg) of
        (Fixnum _, Inr m) \<Rightarrow>
          (case fixnum_arg level of
             Inl e \<Rightarrow> Some (Inl e)
           | Inr n \<Rightarrow> Option.bind (as_format m) (\<lambda>m. void_method (ap_log_rerror (qe_ap E) n m) q))
      | _ \<Rightarrow> Some (Inl TypeError))"

section \<open>Writing the response\<close>

definition request_m_print :: "'c request_env \<Rightarrow> ruby_value \<Rightarrow> 'c ruby_request \<Rightarrow> 'c ruby_request c_result" where
  "request_m_print E = with_arg string_arg (\<lambda>s q. Some (Inr (Qnil, snd (do_int (ap_rputs (qe_ap E) s) q))))"

definition request_m_puts :: "'c request_env \<Rightarrow> ruby_value \<Rightarrow> 'c ruby_request \<Rightarrow> 'c ruby_request c_result" where
  "request_m_puts E = with_arg (qe_to_s E) (\<lambda>s q.
     let q = snd (do_int (ap_rputs (qe_ap E) (c_str s)) q)
     in Some (Inr (Qnil, snd (do_int (ap_rputs (qe_ap E) [CHR 0x0A]) q))))"

text \<open>
  \<open>write\<close> sends as many bytes as it is told from the string's memory, which has a NUL behind the last
  character and ends there.
\<close>

fun string_value :: "ruby_value \<Rightarrow> string ruby_result" where
  "string_value (Str s) = Inr s"
| "string_value _ = Inl TypeError"

definition request_m_write :: "'c request_env \<Rightarrow> ruby_value \<Rightarrow> ruby_value \<Rightarrow> 'c ruby_request \<Rightarrow> 'c ruby_request c_result" where
  "request_m_write E data bytes q =
     (case and_then (string_value data) (\<lambda>s. and_then (fixnum_arg bytes) (\<lambda>n. Inr (s, n))) of
        Inl e \<Rightarrow> Some (Inl e)
      | Inr (s, n) \<Rightarrow>
          if n < 0 \<or> length s + 1 < nat n then None
          else Some (Inr (Qnil, snd (do_int (ap_rwrite (qe_ap E) (take (nat n) (s @ [NUL]))) q))))"

section \<open>Reading the request\<close>

definition on_request ::
    "('c request \<Rightarrow> ('a \<times> 'c request) option) \<Rightarrow> ('a \<Rightarrow> ruby_value) \<Rightarrow> 'c ruby_request \<Rightarrow> 'c ruby_request c_result" where
  "on_request op result q =
     map_option (\<lambda>(x, s). Inr (result x, q\<lparr>qr_req := s\<rparr>)) (op (qr_req q))"

definition request_m_params :: "'c request_env \<Rightarrow> 'c ruby_request \<Rightarrow> 'c ruby_request c_result" where
  "request_m_params E q =
     on_request (form_data (qe_table E) (qe_client E) (qr_max_content_length q))
       (\<lambda>t. if t = None then Obj ''Hash'' 0 else make_apr_table t) q"

definition request_m_queries :: "'c request_env \<Rightarrow> 'c ruby_request \<Rightarrow> 'c ruby_request c_result" where
  "request_m_queries E q = on_request (queries (qe_table E)) (\<lambda>t. if t = None then Qnil else make_apr_table t) q"

text \<open>
  Without a block all of the body is the result, or nil while the buffer has no memory; with one, the
  blocks yielded are given here in their order, and the result is nil.
\<close>

definition request_m_content :: "'c request_env \<Rightarrow> 'c ruby_request \<Rightarrow> 'c ruby_request c_result" where
  "request_m_content E q =
     on_request (\<lambda>s. map_option (\<lambda>(body, _, s). (body, s)) (content (qe_client E) (qr_max_content_length q) None () s))
       (\<lambda>body. if body = [] then Qnil else Str body) q"

definition request_m_content_block :: "'c request_env \<Rightarrow> 'c ruby_request \<Rightarrow> (ruby_value list \<times> 'c ruby_request) option" where
  "request_m_content_block E q =
     map_option (\<lambda>(_, yielded, s). (yielded, q\<lparr>qr_req := s\<rparr>))
       (content (qe_client E) (qr_max_content_length q) (Some (\<lambda>block ys. ys @ [Str block])) [] (qr_req q))"

text \<open>
  \<open>malloc\<close> of a negative size fails, and the NULL is read into. The result of \<open>read\<close> is the bytes read.
\<close>

definition request_m_read :: "'c request_env \<Rightarrow> ruby_value \<Rightarrow> 'c ruby_request \<Rightarrow> 'c ruby_request c_result" where
  "request_m_read E = with_arg fixnum_arg (\<lambda>n q.
     if n < 0 then None
     else (case request_read (qe_client E) (nat n) (qr_req q) of
             (len, buff, s) \<Rightarrow>
               Some (Inr (if len \<le> 0 then Qnil else Str (take (nat len) buff), q\<lparr>qr_req := s\<rparr>))))"

text \<open>
  With a Content-Type that names an encoding, \<open>read_line\<close> is called twice, for the text and for its
  length: the result has the text of one line and the length of another.
\<close>

definition line_in_encoding :: "bool \<Rightarrow> 'c client_api \<Rightarrow> 'c request \<Rightarrow> (string \<times> 'c request) option" where
  "line_in_encoding left_first K s =
     Option.bind (read_line K s) (\<lambda>(l1, s).
     Option.bind (read_line K s) (\<lambda>(l2, s).
       let (txt, len) = (if left_first then (l1, length l2) else (l2, length l1))
       in if length txt + 1 < len then None else Some (take len (txt @ [NUL]), s)))"

definition request_m_read_line :: "'c request_env \<Rightarrow> 'c ruby_request \<Rightarrow> 'c ruby_request c_result" where
  "request_m_read_line E q =
     Option.bind (table_get (qe_table E) (rq_tables (qr_req q)) (rq_headers_in (qr_req q)) ''Content-Type'') (\<lambda>value.
       case value of
         None \<Rightarrow> on_request (read_line (qe_client E)) (\<lambda>l. Str (c_str l)) q
       | Some v \<Rightarrow>
           if qe_enc_index E (to_upper (qe_toupper E) v) > 0
           then on_request (line_in_encoding (qe_left_first E) (qe_client E)) Str q
           else on_request (read_line (qe_client E)) (\<lambda>l. Str (c_str l)) q)"

section \<open>The method table\<close>

definition init_request :: "'c request_env \<Rightarrow> 'c ruby_request method_table" where
  "init_request E =
     [(''initialize'', getter request_m_init, 0),
      (''server'', Fn0 (request_m_server E), 0),
      (''allow_options'', Fn0 (request_m_allow_options E), 0),
      (''allow_overrides'', Fn0 (request_m_allow_overrides E), 0),
      (''allowed'', getter request_m_allowed, 0),
      (''allowed='', Fn1 (request_m_set_allowed E), 1),
      (''args'', getter request_m_args, 0),
      (''assbackwards'', getter request_m_assbackwards, 0),
      (''auth_type'', getter request_m_auth_type, 0),
      (''bytes_sent'', getter request_m_bytes_sent, 0),
      (''cgi'', getter request_m_subprocess_env, 0),
      (''chunked'', getter request_m_chunked, 0),
      (''clength'', getter request_m_clength, 0),
      (''connection'', getter request_m_connection, 0),
      (''content'', Fn0 (request_m_content E), 0),
      (''content_encoding'', getter request_m_content_encoding, 0),
      (''content_languages'', getter request_m_content_languages, 0),
      (''content_type'', getter request_m_content_type, 0),
      (''discard_request_body'', Fn0 (request_m_discard_request_body E), 0),
      (''document_root'', Fn0 (request_m_document_root E), 0),
      (''err_headers_out'', getter request_m_err_headers_out, 0),
      (''filename'', getter request_m_filename, 0),
      (''finalize_request_protocol'', Fn0 (request_m_finalize_request_protocol E), 0),
      (''finfo'', getter (request_m_finfo E), 0),
      (''error'', getter request_m_get_error, 0),
      (''get_remote_logname'', Fn0 (request_m_get_remote_logname E), 0),
      (''get_server_name'', Fn0 (request_m_get_server_name E), 0),
      (''handler'', getter request_m_handler, 0),
      (''header_only'', getter request_m_header_only, 0),
      (''hostname'', getter request_m_hostname, 0),
      (''init'', getter request_m_init, 0),
      (''internal_redirect'', Fn1 (request_m_internal_redirect E), 1),
      (''internal_redirect_handler'', Fn1 (request_m_internal_redirect_handler E), 1),
      (''is_initial_req'', Fn0 (request_m_is_initial_req E), 0),
      (''log'', Fn2 (request_m_log E), 2),
      (''main'', getter request_m_main, 0),
      (''make_content_type'', getter request_m_make_content_type, 0),
      (''make_etag'', Fn1 (request_m_make_etag E), 1),
      (''meets_conditions'', Fn0 (request_m_meets_conditions E), 0),
      (''method'', getter request_m_method, 0),
      (''method_number'', getter request_m_method_number, 0),
      (''mtime'', getter request_m_mtime, 0),
      (''next'', getter request_m_next, 0),
      (''no_cache'', getter request_m_no_cache, 0),
      (''no_local_copy'', getter request_m_no_local_copy, 0),
      (''note_auth_failure'', Fn0 (request_m_note_auth_failure E), 0),
      (''note_basic_auth_failure'', Fn0 (request_m_note_basic_auth_failure E), 0),
      (''note_digest_auth_failure'', Fn0 (request_m_note_digest_auth_failure E), 0),
      (''notes'', getter request_m_notes, 0),
      (''out'', Fn1 (request_m_puts E), 1),
      (''params'', Fn0 (request_m_params E), 0),
      (''parsed_uri'', getter request_m_parsed_uri, 0),
      (''path_info'', getter request_m_path_info, 0),
      (''prev'', getter request_m_prev, 0),
      (''print'', Fn1 (request_m_print E), 1),
      (''puts'', Fn1 (request_m_puts E), 1),
      (''proto_num'', getter request_m_proto_num, 0),
      (''protocol'', getter request_m_protocol, 0),
      (''proxyreq'', getter request_m_proxyreq, 0),
      (''queries'', Fn0 (request_m_queries E), 0),
      (''range'', getter request_m_range, 0),
      (''rationalize_mtime'', Fn1 (request_m_rationalize_mtime E), 1),
      (''read'', Fn1 (request_m_read E), 1),
      (''read_body'', getter request_m_read_body, 0),
      (''read_chunked'', getter request_m_read_chunked, 0),
      (''read_length'', getter request_m_read_length, 0),
      (''readline'', Fn0 (request_m_read_line E), 0),
      (''remaining'', getter request_m_remaining, 0),
      (''request_time'', getter request_m_request_time, 0),
      (''rflush'', Fn0 (request_m_rflush E), 0),
      (''rputs'', Fn1 (request_m_print E), 1),
      (''send_error_response'', Fn1 (request_m_send_error_response E), 1),
      (''send_file'', Fn1 (request_m_send_file E), 1),
      (''sent_sent_bodyct'', getter request_m_sent_bodyct, 0),
      (''server'', Fn0 (request_m_server E), 0),
      (''set_content_length'', Fn1 (request_m_set_content_length E), 1),
      (''set_content_type'', Fn1 (request_m_set_content_type E), 1),
      (''set_etag'', Fn0 (request_m_set_etag E), 0),
      (''set_keepalive'', Fn0 (request_m_set_keepalive E), 0),
      (''set_max_content_length'', Fn1 (request_m_set_max_content_length E), 2),
      (''set_status'', Fn1 (request_m_set_status E), 1),
      (''set_user'', Fn1 (request_m_set_user E), 1),
      (''setup_client_block'', Fn1 (request_m_setup_client_block E), 1),
      (''should_client_block'', Fn0 (request_m_should_client_block E), 0),
      (''some_auth_required'', Fn0 (request_m_some_auth_required E), 0),
      (''status'', getter request_m_status, 0),
      (''status_line'', getter request_m_status_line, 0),
      (''subprocess_env'', getter request_m_subprocess_env, 0),
      (''headers_in'', getter request_m_table_headers_in, 0),
      (''headers_out'', getter request_m_table_headers_out, 0),
      (''the_request'', getter request_m_the_request, 0),
      (''unparsed_uri'', getter request_m_unparsed_uri, 0),
      (''uri'', getter request_m_uri, 0),
      (''user'', getter request_m_user, 0),
      (''vlist_validator'', getter request_m_vlist_validator, 0),
      (''write'', Fn2 (request_m_write E), 2)]"

section \<open>What Ruby code can call\<close>

lemmas find_request = find_method_Nil find_method_Cons init_request_def

lemma find_request_set_max:
  "find_method (init_request E) ''set_max_content_length'' = Some (Fn1 (request_m_set_max_content_length E), 2)"
  by (simp add: find_request)

lemma find_request_setup:
  "find_method (init_request E) ''setup_client_block'' = Some (Fn1 (request_m_setup_client_block E), 1)"
  by (simp add: find_request)

lemma find_request_redirect:
  "find_method (init_request E) ''internal_redirect'' = Some (Fn1 (request_m_internal_redirect E), 1)"
  by (simp add: find_request)

lemma find_request_redirect_handler:
  "find_method (init_request E) ''internal_redirect_handler'' = Some (Fn1 (request_m_internal_redirect_handler E), 1)"
  by (simp add: find_request)

lemma find_request_read: "find_method (init_request E) ''read'' = Some (Fn1 (request_m_read E), 1)"
  by (simp add: find_request)

lemma find_request_write: "find_method (init_request E) ''write'' = Some (Fn2 (request_m_write E), 2)"
  by (simp add: find_request)

lemma find_request_readline: "find_method (init_request E) ''readline'' = Some (Fn0 (request_m_read_line E), 0)"
  by (simp add: find_request)

lemma find_request_print: "find_method (init_request E) ''print'' = Some (Fn1 (request_m_print E), 1)"
  by (simp add: find_request)

lemma request_arities:
  "list_all (\<lambda>(name, f, n). arity_matches f n \<longleftrightarrow> name \<noteq> ''set_max_content_length'') (init_request E)"
  by (simp add: init_request_def)

lemma redirect_handler_same: "request_m_internal_redirect_handler E = request_m_internal_redirect E"
  by (simp add: request_m_internal_redirect_handler_def request_m_internal_redirect_def request_calls)

text \<open>
  Every method of Apache::Request but \<open>set_max_content_length\<close> is a function of as many parameters as
  it is registered with, so a call with the right number of arguments reaches it with all of them. The
  limit on the body cannot be set: one argument is refused, and with two the function is called with an argument
  it does not have, which has no defined behaviour. Nor can
  \<open>setup_client_block\<close> be called: it wants an argument that is both a string and a number.
  \<open>internal_redirect_handler\<close> is \<open>internal_redirect\<close>.
\<close>

lemma request_method_table:
  "list_all (\<lambda>(name, f, n). arity_matches f n \<longleftrightarrow> name \<noteq> ''set_max_content_length'') (init_request E) \<and>
   rb_call (init_request E) ''set_max_content_length'' [a] q = Some (Inl ArgumentError) \<and>
   rb_call (init_request E) ''set_max_content_length'' [a, b] q = None \<and>
   rb_call (init_request E) ''setup_client_block'' [a] q = Some (Inl TypeError) \<and>
   rb_call (init_request E) ''internal_redirect_handler'' as q = rb_call (init_request E) ''internal_redirect'' as q"
proof (intro conjI request_arities)
  show "rb_call (init_request E) ''setup_client_block'' [a] q = Some (Inl TypeError)"
    by (cases a) (simp_all add: rb_call_def find_request_setup request_m_setup_client_block_def with_arg_def
        check_string_then_int_def)
qed (simp_all add: rb_call_def find_request_set_max find_request_redirect find_request_redirect_handler redirect_handler_same)

text \<open>One block of the body, and two lines of it.\<close>

lemma read_block:
  assumes K: "client_laws (qe_client E) rest" and "\<not> rq_has_read_content (qr_req q)" and "in_i32 n"
    and "0 < n" "rest (rq_client (qr_req q)) \<noteq> []"
  shows "\<exists>k q'. request_m_read E (Fixnum n) q = Some (Inr (Str (take k (rest (rq_client (qr_req q)))), q')) \<and>
    0 < k \<and> k \<le> nat n \<and> rest (rq_client (qr_req q')) = drop k (rest (rq_client (qr_req q)))"
proof -
  define s1 where "s1 = snd (setup_client_read (qe_client E) (qr_req q))"
  have s1: "rest (rq_client s1) = rest (rq_client (qr_req q))" by (simp add: s1_def setup_rest [OF K])
  obtain len buf c where g: "get_client_block (qe_client E) (rq_client s1) (nat n) = (len, buf, c)"
    by (meson prod_cases3)
  have pos: "0 < nat n" using assms(4) by simp
  from K g pos have "if rest (rq_client s1) = [] then len = 0 \<and> rest c = []
      else 0 < len \<and> len \<le> int (nat n) \<and> nat len \<le> length (rest (rq_client s1)) \<and>
        buf = take (nat len) (rest (rq_client s1)) \<and> rest c = drop (nat len) (rest (rq_client s1))"
    unfolding client_laws_def by blast
  with assms(5) s1 have l: "0 < len" "nat len \<le> nat n" "buf = take (nat len) (rest (rq_client s1))"
    "rest c = drop (nat len) (rest (rq_client s1))" by (auto simp: nat_le_iff nat_mono split: if_splits)
  have "request_read (qe_client E) (nat n) (qr_req q) = (len, buf, s1\<lparr>rq_client := c, rq_has_read_content := False\<rparr>)"
    using g assms(2) l(1) by (simp add: request_read_def s1_def [symmetric] Let_def)
  with l s1 assms(3,4) show ?thesis
    by (intro exI [of _ "nat len"] exI [of _ "q\<lparr>qr_req := s1\<lparr>rq_client := c, rq_has_read_content := False\<rparr>\<rparr>"])
      (simp add: request_m_read_def with_arg_def)
qed

lemma line_in_encoding_two:
  assumes "read_line K s = Some (a, s1)" "read_line K s1 = Some (b, s2)" "length b \<le> length a"
  shows "line_in_encoding True K s = Some (take (length b) a, s2)"
  using assms by (simp add: line_in_encoding_def)

text \<open>
  C28. The methods that move data. \<open>print\<close> sends its string up to a NUL. \<open>write(s, n)\<close> sends the first
  \<open>n\<close> bytes and is defined exactly while \<open>n\<close> is not negative and at most one more than the length: it
  checks neither. \<open>read(n)\<close> returns between one byte and \<open>n\<close> of what is left of the body. \<open>readline\<close>
  with a Content-Type that names an encoding takes two lines of the body and returns the text of one cut to
  the length of the other.
\<close>

theorem request_data_methods:
  assumes K: "client_laws (qe_client E) rest" and open': "\<not> rq_has_read_content (qr_req q)" and n: "in_i32 n"
  shows "rb_call (init_request E) ''print'' [Str s] q = Some (Inr (Qnil, snd (do_int (ap_rputs (qe_ap E) (c_str s)) q))) \<and>
    rb_call (init_request E) ''write'' [Str s, Fixnum n] q =
      (if 0 \<le> n \<and> n \<le> int (length s) + 1
       then Some (Inr (Qnil, snd (do_int (ap_rwrite (qe_ap E) (take (nat n) (s @ [NUL]))) q))) else None) \<and>
    (0 < n \<and> rest (rq_client (qr_req q)) \<noteq> [] \<longrightarrow>
      (\<exists>k q'. rb_call (init_request E) ''read'' [Fixnum n] q = Some (Inr (Str (take k (rest (rq_client (qr_req q)))), q')) \<and>
         0 < k \<and> k \<le> nat n \<and> rest (rq_client (qr_req q')) = drop k (rest (rq_client (qr_req q))))) \<and>
    (table_get (qe_table E) (rq_tables (qr_req q)) (rq_headers_in (qr_req q)) ''Content-Type'' = Some (Some ct) \<and>
     0 < qe_enc_index E (to_upper (qe_toupper E) ct) \<and> qe_left_first E \<and>
     rest (rq_client (qr_req q)) = l1 @ [CHR 0x0D, CHR 0x0A] @ l2 @ [CHR 0x0D, CHR 0x0A] @ tail \<and>
     inside_line [] (l1 @ [CHR 0x0D]) \<and> inside_line [] (l2 @ [CHR 0x0D]) \<and> length l2 \<le> length l1 \<longrightarrow>
      (\<exists>q'. rb_call (init_request E) ''readline'' [] q =
         Some (Inr (Str (take (length l2 + 2) (l1 @ [CHR 0x0D, CHR 0x0A])), q')) \<and>
         rest (rq_client (qr_req q')) = tail))"
proof (intro conjI impI; (elim conjE)?)
  show "rb_call (init_request E) ''print'' [Str s] q = Some (Inr (Qnil, snd (do_int (ap_rputs (qe_ap E) (c_str s)) q)))"
    by (simp add: rb_call_def find_request_print request_m_print_def with_arg_def)
  show "rb_call (init_request E) ''write'' [Str s, Fixnum n] q =
      (if 0 \<le> n \<and> n \<le> int (length s) + 1
       then Some (Inr (Qnil, snd (do_int (ap_rwrite (qe_ap E) (take (nat n) (s @ [NUL]))) q))) else None)"
    using n by (auto simp: rb_call_def find_request_write request_m_write_def)
next
  assume "0 < n" "rest (rq_client (qr_req q)) \<noteq> []"
  from read_block [OF K open' n this]
  show "\<exists>k q'. rb_call (init_request E) ''read'' [Fixnum n] q = Some (Inr (Str (take k (rest (rq_client (qr_req q)))), q')) \<and>
         0 < k \<and> k \<le> nat n \<and> rest (rq_client (qr_req q')) = drop k (rest (rq_client (qr_req q)))"
    by (simp add: rb_call_def find_request_read)
next
  assume ct: "table_get (qe_table E) (rq_tables (qr_req q)) (rq_headers_in (qr_req q)) ''Content-Type'' = Some (Some ct)"
    "0 < qe_enc_index E (to_upper (qe_toupper E) ct)" "qe_left_first E"
    and body: "rest (rq_client (qr_req q)) = l1 @ [CHR 0x0D, CHR 0x0A] @ l2 @ [CHR 0x0D, CHR 0x0A] @ tail"
    "inside_line [] (l1 @ [CHR 0x0D])" "inside_line [] (l2 @ [CHR 0x0D])" "length l2 \<le> length l1"
  obtain s1 where s1: "read_line (qe_client E) (qr_req q) = Some (l1 @ [CHR 0x0D, CHR 0x0A], s1)"
    "rest (rq_client s1) = l2 @ [CHR 0x0D, CHR 0x0A] @ tail" "\<not> rq_has_read_content s1"
    using read_line_crlf [OF K open' body(1,2)] by blast
  obtain s2 where s2: "read_line (qe_client E) s1 = Some (l2 @ [CHR 0x0D, CHR 0x0A], s2)" "rest (rq_client s2) = tail"
    using read_line_crlf [OF K s1(3,2) body(3)] by blast
  have "line_in_encoding True (qe_client E) (qr_req q) = Some (take (length l2 + 2) (l1 @ [CHR 0x0D, CHR 0x0A]), s2)"
    using line_in_encoding_two [OF s1(1) s2(1)] body(4) by simp
  with ct s2(2) show "\<exists>q'. rb_call (init_request E) ''readline'' [] q =
         Some (Inr (Str (take (length l2 + 2) (l1 @ [CHR 0x0D, CHR 0x0A])), q')) \<and>
         rest (rq_client (qr_req q')) = tail"
    by (intro exI [of _ "q\<lparr>qr_req := s2\<rparr>"])
      (simp add: rb_call_def find_request_readline request_m_read_line_def on_request_def)
qed

definition sample_env :: "string request_env" where
  "sample_env =
     \<lparr>qe_table = assoc_table, qe_client = chunk_client 1, qe_ap = quiet_apache, qe_stat = \<lambda>_ _ f. (-1, f),
      qe_servers = Map.empty, qe_new_file_info = \<lambda>_. 0,
      qe_to_s = string_value, qe_toupper = id, qe_enc_index = \<lambda>name. if name = ''UTF-8'' then 1 else -1,
      qe_left_first = True\<rparr>"

definition sample_request :: "string ruby_request" where
  "sample_request =
     \<lparr>qr_rec = blank_request,
      qr_req = Request None ''POST'' 0 (Some 0) [CHR ''a'', CHR ''b'', CHR 0x0D, CHR 0x0A, CHR 0x0D, CHR 0x0A, CHR ''c'']
        \<lparr>th_tables = [0 \<mapsto> [(''Content-Type'', ''UTF-8'')]], th_next = 1\<rparr>,
      qr_max_content_length = -1\<rparr>"

theorem request_data_methods_witness:
  "rb_call (init_request sample_env) ''write'' [Str ''abc'', Fixnum 5] sample_request = None \<and>
   (\<exists>q'. rb_call (init_request sample_env) ''readline'' [] sample_request = Some (Inr (Str ''ab'', q')) \<and>
      rq_client (qr_req q') = ''c'')"
proof -
  let ?l = "''ab''" and ?q = sample_request and ?E = sample_env
  have K: "client_laws (qe_client ?E) id" by (simp add: sample_env_def chunk_client_laws)
  have open': "\<not> rq_has_read_content (qr_req ?q)" by (simp add: sample_request_def Request_def)
  have ct: "table_get (qe_table ?E) (rq_tables (qr_req ?q)) (rq_headers_in (qr_req ?q)) ''Content-Type'' = Some (Some ''UTF-8'')"
    by (simp add: sample_env_def sample_request_def Request_def table_get_def table_elts_def assoc_table_def)
  have enc: "0 < qe_enc_index ?E (to_upper (qe_toupper ?E) ''UTF-8'')" "qe_left_first ?E"
    by (simp_all add: sample_env_def to_upper_def)
  have body: "id (rq_client (qr_req ?q)) = ''ab'' @ [CHR 0x0D, CHR 0x0A] @ [] @ [CHR 0x0D, CHR 0x0A] @ ''c''"
    by (simp add: sample_request_def Request_def)
  have lines: "inside_line [] (''ab'' @ [CHR 0x0D])" "inside_line [] ([] @ [CHR 0x0D])"
    by (auto simp: inside_line_def Cons_eq_append_conv NUL_def)
  have five: "in_i32 5" by (simp add: in_i32_def)
  from request_data_methods [OF K open' five, of "''abc''" "''UTF-8''" "''ab''" "[]" "''c''"] ct enc body lines
  show ?thesis by auto
qed

end
