(* ===== verification/Configured_Dispatch.thy ===== *)
theory Configured_Dispatch
  imports Dispatch_Spec
begin

text \<open>
  The configuration phase and the request phase together: what the lines of a configuration file leave in
  the two structures, and what a request then finds in its notes.
\<close>

section \<open>From the configuration file to the handler\<close>

text \<open>The lines that declare a handler in a server and choose it in a directory or location.\<close>

definition handler_lines :: "string \<Rightarrow> string \<Rightarrow> string \<Rightarrow> string \<Rightarrow> string \<Rightarrow> (cmd_context \<times> string \<times> string list) list" where
  "handler_lines inside h m c me =
     [(None, ''RubyHandlerDeclare'', [h]), (None, ''RubyHandlerModule'', [h, m]), (None, ''RubyHandlerClass'', [h, c]),
      (None, ''RubyHandlerMethod'', [h, me]), (Some inside, ''RubyHandler'', [h])]"

definition handler_hash :: "string \<Rightarrow> string \<Rightarrow> string \<Rightarrow> apr_hash" where
  "handler_hash m c me = [''RubyHandlerModule'' \<mapsto> m, ''RubyHandlerClass'' \<mapsto> c, ''RubyHandlerMethod'' \<mapsto> me]"

definition fresh_config :: "c_ptr \<Rightarrow> config_state" where
  "fresh_config dir = \<lparr>cs_server = create_config, cs_dir = create_dir_conf dir, cs_env = Map.empty\<rparr>"

lemma find_handler_commands:
  "find_command ''RubyHandlerDeclare'' = Some (Take1 (\<lambda>A ctx a. set_ruby_handler_declare ctx (Some a)), RSRC_CONF)"
  "find_command ''RubyHandlerModule'' = Some (Take2 (\<lambda>A ctx a b. set_ruby_handler_module ctx (Some a) (Some b)), RSRC_CONF)"
  "find_command ''RubyHandlerClass'' = Some (Take2 (\<lambda>A ctx a b. set_ruby_handler_class ctx (Some a) (Some b)), RSRC_CONF)"
  "find_command ''RubyHandlerMethod'' = Some (Take2 (\<lambda>A ctx a b. set_ruby_handler_method ctx (Some a) (Some b)), RSRC_CONF)"
  "find_command ''RubyHandler'' = Some (Take1 (\<lambda>A ctx a. set_ruby_handler A ctx (Some a)), RSRC_CONF_OR_ALL)"
  by (simp_all add: find_command_def mod_ruby_cmds_def same_key_def ascii_lower_def code_def)

lemma handler_lines_run:
  "run_config A (handler_lines inside h m c me) (fresh_config dir) =
     (None, \<lparr>cs_server = create_config\<lparr>cfg_handlers := [h \<mapsto> handler_hash m c me]\<rparr>,
        cs_dir = \<lparr>dir_dir = dir, dir_options = apr_table_set A [] ''RubyHandler'' h\<rparr>, cs_env = Map.empty\<rparr>)"
  by (simp add: handler_lines_def run_directive_def find_handler_commands directive_defs fresh_config_def
      create_config_def create_dir_conf_def set_server_def set_dir_option_def handler_hash_def fun_upd_idem)

lemma init_notes_content_handler:
  assumes "apr_table_laws A" "dir_lookup A d ''RubyHandler'' = Some h"
    and "\<And>n. last_entry (handler_settings hl cfg n) ''RubyHandler'' = None"
  shows "apr_table_get A (init_notes A hl cfg d notes) ''RubyHandler'' = Some h"
proof -
  have "\<not> same_key ''RubyAccessHandler'' ''RubyHandler''" by code_simp
  with assms show ?thesis by (simp add: init_notes_def Let_def merge_handler_get)
qed

lemma last_entry_None:
  assumes "\<And>k' v. (k', v) \<in> set e \<Longrightarrow> \<not> same_key k' k"
  shows "last_entry e k = None"
  using assms by (auto simp: last_entry_def find_None_iff)

lemma handler_hash_settings:
  assumes "map_of e = handler_hash m c me"
  shows "last_entry e ''RubyHandler'' = None"
proof (rule last_entry_None)
  fix k v assume "(k, v) \<in> set e"
  then have "map_of e k \<noteq> None" by (metis weak_map_of_SomeI option.distinct(1))
  with assms have "k \<in> {''RubyHandlerModule'', ''RubyHandlerClass'', ''RubyHandlerMethod''}"
    by (auto simp: handler_hash_def split: if_splits)
  moreover have "\<not> same_key ''RubyHandlerModule'' ''RubyHandler''" "\<not> same_key ''RubyHandlerClass'' ''RubyHandler''"
    "\<not> same_key ''RubyHandlerMethod'' ''RubyHandler''" by code_simp+
  ultimately show "\<not> same_key k ''RubyHandler''" by auto
qed

lemma handler_hash_names:
  "handler_hash m c me ''RubyHandlerModule'' = Some m" "handler_hash m c me ''RubyHandlerClass'' = Some c"
  "handler_hash m c me ''RubyHandlerMethod'' = Some me"
  by (simp_all add: handler_hash_def)

section \<open>Default handlers\<close>

definition default_lines :: "string \<Rightarrow> string \<Rightarrow> string \<Rightarrow> cmd_context \<Rightarrow> (cmd_context \<times> string \<times> string list) list" where
  "default_lines m c me ctx =
     [(ctx, ''RubyDefaultHandlerModule'', [m]), (ctx, ''RubyDefaultHandlerClass'', [c]), (ctx, ''RubyDefaultHandlerMethod'', [me])]"

definition note_handler :: "apr_table_api \<Rightarrow> string \<Rightarrow> string \<Rightarrow> string \<Rightarrow> entries \<Rightarrow> entries" where
  "note_handler A m c me notes =
     apr_table_set A (apr_table_set A (apr_table_set A notes ''RubyHandlerModule'' m) ''RubyHandlerClass'' c) ''RubyHandlerMethod'' me"

lemma find_default_commands:
  "find_command ''RubyDefaultHandlerModule'' =
     Some (Take1 (\<lambda>A ctx a. set_ruby_default_handler_module A ctx (Some a)), RSRC_CONF_OR_ALL)"
  "find_command ''RubyDefaultHandlerClass'' =
     Some (Take1 (\<lambda>A ctx a. set_ruby_default_handler_class A ctx (Some a)), RSRC_CONF_OR_ALL)"
  "find_command ''RubyDefaultHandlerMethod'' =
     Some (Take1 (\<lambda>A ctx a. set_ruby_default_handler_method A ctx (Some a)), RSRC_CONF_OR_ALL)"
  by (simp_all add: find_command_def mod_ruby_cmds_def same_key_def ascii_lower_def code_def)

lemma default_lines_run:
  "run_config A (default_lines m c me None @ default_lines m2 c2 me2 (Some inside)) (fresh_config dir) =
     (None, \<lparr>cs_server = create_config\<lparr>cfg_default_handler_module := Some m, cfg_default_handler_class := Some c,
          cfg_default_handler_method := Some me\<rparr>,
        cs_dir = \<lparr>dir_dir = dir, dir_options = note_handler A m2 c2 me2 []\<rparr>, cs_env = Map.empty\<rparr>)"
  by (simp add: default_lines_def run_directive_def find_default_commands directive_defs fresh_config_def
      create_config_def create_dir_conf_def set_server_def set_dir_option_def note_handler_def)

text \<open>The notes when no handler is named anywhere.\<close>

lemma init_notes_no_handler:
  assumes conf: "configured A cfg d" and dir: "dir_lookup A d ''RubyHandler'' = None" "dir_lookup A d ''RubyAccessHandler'' = None"
    and cfg: "cfg_handler cfg = None" "\<forall>k \<in> set special_names. apr_table_get A (cfg_options cfg) k = None"
    and old: "\<forall>k \<in> set special_names. apr_table_get A notes k = None"
  shows "apr_table_get A (init_notes A hl cfg d notes) ''RubyHandler'' = None"
    and "apr_table_get A (init_notes A hl cfg d notes) ''RubyDefaultHandlerModule'' =
      first_of [dir_lookup A d ''RubyDefaultHandlerModule'', cfg_default_handler_module cfg]"
    and "apr_table_get A (init_notes A hl cfg d notes) ''RubyDefaultHandlerClass'' =
      first_of [dir_lookup A d ''RubyDefaultHandlerClass'', cfg_default_handler_class cfg]"
    and "apr_table_get A (init_notes A hl cfg d notes) ''RubyDefaultHandlerMethod'' =
      first_of [dir_lookup A d ''RubyDefaultHandlerMethod'', cfg_default_handler_method cfg]"
proof -
  have laws: "apr_table_laws A" and ok: "distinct_keys (cfg_options cfg)" "distinct_keys (dir_options d)"
    using conf by (simp_all add: configured_def)
  have differ: "\<not> same_key ''RubyDefaultHandlerModule'' ''RubyDefaultHandlerClass''" "\<not> same_key ''RubyDefaultHandlerModule'' ''RubyDefaultHandlerMethod''"
    "\<not> same_key ''RubyDefaultHandlerClass'' ''RubyDefaultHandlerModule''" "\<not> same_key ''RubyDefaultHandlerClass'' ''RubyDefaultHandlerMethod''"
    "\<not> same_key ''RubyDefaultHandlerMethod'' ''RubyDefaultHandlerModule''" "\<not> same_key ''RubyDefaultHandlerMethod'' ''RubyDefaultHandlerClass''"
    "\<not> same_key ''RubyHandler'' ''RubyDefaultHandlerModule''" "\<not> same_key ''RubyHandler'' ''RubyDefaultHandlerClass''"
    "\<not> same_key ''RubyHandler'' ''RubyDefaultHandlerMethod''" "\<not> same_key ''RubyAccessHandler'' ''RubyDefaultHandlerModule''"
    "\<not> same_key ''RubyAccessHandler'' ''RubyDefaultHandlerClass''" "\<not> same_key ''RubyAccessHandler'' ''RubyDefaultHandlerMethod''"
    "\<not> same_key ''RubyAccessHandler'' ''RubyHandler''"
    by code_simp+
  have base: "apr_table_get A (copy_options A (dir_options d) (copy_options A (cfg_options cfg) notes)) k = dir_lookup A d k"
    if "k \<in> set special_names" for k
    using cfg(2) old that
    by (simp add: copy_options_get [OF laws] dir_lookup_def apr_laws(7) [OF laws ok(1), symmetric]
        apr_laws(7) [OF laws ok(2), symmetric] cong: option.case_cong split: option.split)
  note notes_eval = init_notes_def Let_def merge_handler_get [OF laws] merge_var_get [OF laws] names_differ differ base
    special_names_def handler_settings_def dir cfg(1)
  show "apr_table_get A (init_notes A hl cfg d notes) ''RubyHandler'' = None"
    "apr_table_get A (init_notes A hl cfg d notes) ''RubyDefaultHandlerModule'' =
      first_of [dir_lookup A d ''RubyDefaultHandlerModule'', cfg_default_handler_module cfg]"
    "apr_table_get A (init_notes A hl cfg d notes) ''RubyDefaultHandlerClass'' =
      first_of [dir_lookup A d ''RubyDefaultHandlerClass'', cfg_default_handler_class cfg]"
    "apr_table_get A (init_notes A hl cfg d notes) ''RubyDefaultHandlerMethod'' =
      first_of [dir_lookup A d ''RubyDefaultHandlerMethod'', cfg_default_handler_method cfg]"
    by (simp_all add: notes_eval split: option.split)
qed

lemma note_handler_configured:
  assumes "apr_table_laws A"
  shows "distinct_keys (note_handler A m c me [])"
    and "k \<in> set special_names \<Longrightarrow> apr_table_get A (note_handler A m c me []) k = None"
proof -
  show "distinct_keys (note_handler A m c me [])"
    unfolding note_handler_def by (intro distinct_keys_set [OF assms]) (simp add: distinct_keys_def)
  have "\<not> same_key ''RubyHandlerModule'' k \<and> \<not> same_key ''RubyHandlerClass'' k \<and> \<not> same_key ''RubyHandlerMethod'' k"
    if "k \<in> set special_names"
  proof -
    have "list_all (\<lambda>k. \<not> same_key ''RubyHandlerModule'' k \<and> \<not> same_key ''RubyHandlerClass'' k \<and>
        \<not> same_key ''RubyHandlerMethod'' k) special_names" by code_simp
    with that show ?thesis by (simp add: list_all_iff)
  qed
  then show "k \<in> set special_names \<Longrightarrow> apr_table_get A (note_handler A m c me []) k = None"
    by (simp add: note_handler_def apr_laws(1,2) [OF assms])
qed

text \<open>Loading a handler whose module can be required, by its registered object or a new one.\<close>

lemma load_found_or_new:
  assumes "m \<noteq> []" "env_require E (Some m) r = (Inr (), r2)"
    and "hs (m @ ''::'' @ c @ ''::'' @ me) = Some ob \<and> r3 = r2 \<or>
      hs (m @ ''::'' @ c @ ''::'' @ me) = None \<and> env_new E c r2 = (Inr ob, r3)"
  shows "ruby_request_load_handler E (Some m) (Some c) (Some me) hs r =
      (Inr \<lparr>h_module = m, h_klass = c, h_method = me, h_object = Some ob\<rparr>, hs(m @ ''::'' @ c @ ''::'' @ me \<mapsto> ob), r3)"
  using assms by (auto simp: ruby_request_load_handler_def Handler_def or_null_def handler_id_def fun_upd_idem)

text \<open>A request that a handler takes: the method of the loaded object is called, and its status is the result.\<close>

lemma handler_call:
  assumes "\<not> declines ''ruby-handler'' r"
    and "ruby_request_init_configuration E cfg d (env_setup_cgi E r) = (0, ra)"
    and "ruby_request_get_handler E cfg hs ra = (Inr \<lparr>h_module = m, h_klass = c, h_method = me, h_object = Some ob\<rparr>, hs', rb)"
    and "me \<noteq> []" "env_call E ob (Some me) rb = (Inr (), rz)"
  shows "ruby_request_handler E cfg d hs r =
    (if r_status rz \<noteq> r_status (env_setup_cgi E r) then r_status rz else OK, hs', rz)"
  using assms by (simp add: ruby_request_handler_def Let_def or_null_def status_or_ok_def)

end
