(* ===== verification/Process_Run.thy ===== *)
theory Process_Run
  imports Dispatch_Spec Module_Life
begin

text \<open>
  The request phase on top of the interpreter, over the life of a process. The interface between the two is
  the locale \<open>registering_env\<close>: what ruby.cpp promises module.cpp about the registry of objects. The
  interpreter's functions provide it, and a process that serves requests relies on it.
\<close>

section \<open>The interpreter behind the request phase\<close>

definition keeps_registered :: "'w vm req \<Rightarrow> 'w vm req \<Rightarrow> bool" where
  "keeps_registered r r' \<longleftrightarrow> set (registered (r_world r)) \<subseteq> set (registered (r_world r'))"

lemma keeps_refl [simp]: "keeps_registered r r"
  by (simp add: keeps_registered_def)

lemma keeps_trans: "keeps_registered r r' \<Longrightarrow> keeps_registered r' r'' \<Longrightarrow> keeps_registered r r''"
  by (auto simp: keeps_registered_def)

definition held :: "robject handlers \<Rightarrow> 'w vm \<Rightarrow> bool" where
  "held hs s \<longleftrightarrow> (\<forall>ob \<in> ran hs. ob_self ob \<in> set (registered s))"

lemma held_keeps: "held hs (r_world r) \<Longrightarrow> keeps_registered r r' \<Longrightarrow> held hs (r_world r')"
  by (auto simp: held_def keeps_registered_def)

lemma held_upd: "held hs s \<Longrightarrow> ob_self ob \<in> set (registered s) \<Longrightarrow> held (hs(i \<mapsto> ob)) s"
  by (auto simp: held_def ran_def)

definition safe :: "robject handlers \<Rightarrow> 'w vm req \<Rightarrow> robject handlers \<Rightarrow> 'w vm req \<Rightarrow> bool" where
  "safe hs r hs' r' \<longleftrightarrow> keeps_registered r r' \<and> (held hs (r_world r) \<longrightarrow> held hs' (r_world r'))"

lemma safe_same: "keeps_registered r r' \<Longrightarrow> safe hs r hs r'"
  by (auto simp: safe_def intro: held_keeps)

lemma safe_trans: "safe hs r hs' r' \<Longrightarrow> safe hs' r' hs'' r'' \<Longrightarrow> safe hs r hs'' r''"
  by (auto simp: safe_def intro: keeps_trans)

lemma catch_world: "(\<And>r. r_world (f r) = r_world r) \<Longrightarrow> catch_clauses rc f e r = (res, r') \<Longrightarrow> r_world r' = r_world r"
  by (auto simp: catch_clauses_def rputs_def log_error_def Let_def split: thrown.splits if_splits)

lemma catch_keeps: "catch_clauses rc id e r = (res, r') \<Longrightarrow> keeps_registered r r'"
  using catch_world [of id rc e r res r'] by (simp add: keeps_registered_def)

locale registering_env =
  fixes E :: "(robject, 'w vm) env"
  assumes cgi_keeps: "keeps_registered r (env_setup_cgi E r)"
    and require_keeps: "env_require E p r = (x, r') \<Longrightarrow> keeps_registered r r'"
    and new_keeps: "env_new E c r = (y, r') \<Longrightarrow> keeps_registered r r' \<and> (\<forall>ob. y = Inr ob \<longrightarrow> ob_self ob \<in> set (registered (r_world r')))"
    and call_keeps: "env_call E ob me r = (x, r') \<Longrightarrow> keeps_registered r r'"
begin

lemma load_safe:
  assumes "ruby_request_load_handler E m c me hs r = (q, hs', r')"
  shows "safe hs r hs' r'"
proof (cases "Handler m c me :: thrown + robject handler")
  case (Inl e)
  with assms show ?thesis by (simp add: ruby_request_load_handler_def safe_same)
next
  case (Inr h)
  obtain x ra where req: "env_require E (or_null (h_module h)) r = (x, ra)" by fastforce
  obtain y rb where new': "env_new E (h_klass h) ra = (y, rb)" by fastforce
  note k = require_keeps [OF req] new_keeps [OF new', THEN conjunct1]
  from assms Inr req new' show ?thesis
    using safe_same [OF k(1)] safe_same [OF keeps_trans [OF k]] new_keeps [OF new'] held_keeps [OF _ keeps_trans [OF k]] keeps_trans [OF k]
    by (auto simp: ruby_request_load_handler_def safe_def intro: held_upd split: sum.splits option.splits)
qed

lemma get_safe:
  "ruby_request_get_handler E cfg hs r = (q, hs', r') \<Longrightarrow> safe hs r hs' r'"
  "ruby_request_get_access_handler E cfg hs r = (q, hs', r') \<Longrightarrow> safe hs r hs' r'"
proof -
  have from_notes: "safe hs (r\<lparr>r_notes := n\<rparr>) hs' r' \<Longrightarrow> safe hs r hs' r'" for n
    by (simp add: safe_def keeps_registered_def)
  show "ruby_request_get_handler E cfg hs r = (q, hs', r') \<Longrightarrow> safe hs r hs' r'"
    by (auto simp: ruby_request_get_handler_def Let_def safe_same dest: load_safe from_notes split: option.splits)
  show "ruby_request_get_access_handler E cfg hs r = (q, hs', r') \<Longrightarrow> safe hs r hs' r'"
    by (auto simp: ruby_request_get_access_handler_def safe_same dest: load_safe split: option.splits)
qed

lemma handler_safe:
  assumes "ruby_request_handler E cfg d hs r = (res, hs', r')"
  shows "safe hs r hs' r'"
proof (cases "declines ''ruby-handler'' r")
  case True
  with assms show ?thesis by (simp add: ruby_request_handler_def safe_same)
next
  case False
  define r1 where "r1 = snd (ruby_request_init_configuration E cfg d (env_setup_cgi E r))"
  have r1: "safe hs r hs r1" "ruby_request_init_configuration E cfg d (env_setup_cgi E r) = (0, r1)"
    using cgi_keeps [of r] by (simp_all add: r1_def ruby_request_init_configuration_def keeps_registered_def safe_same)
  obtain q h2 r2 where get: "ruby_request_get_handler E cfg hs r1 = (q, h2, r2)" by (metis prod.exhaust)
  have "hs' = h2 \<and> keeps_registered r2 r'"
  proof (cases q)
    case (Inl e)
    with assms False r1(2) get show ?thesis
      by (auto simp: ruby_request_handler_def Let_def dest: catch_keeps split: prod.splits)
  next
    case (Inr h)
    show ?thesis
    proof (cases "h_object h")
      case None
      with assms False r1(2) get Inr show ?thesis
        by (auto simp: ruby_request_handler_def Let_def keeps_registered_def log_error_def rputs_def)
    next
      case (Some ob)
      obtain x r3 where c: "env_call E ob (or_null (h_method h)) r2 = (x, r3)" by fastforce
      with assms False r1(2) get Inr Some show ?thesis
        by (cases x) (auto simp: ruby_request_handler_def Let_def intro: call_keeps [OF c] keeps_trans [OF call_keeps [OF c]] dest: catch_keeps split: prod.splits)
    qed
  qed
  with safe_trans [OF safe_trans [OF r1(1) get_safe(1) [OF get]] safe_same] show ?thesis by blast
qed

lemma access_safe:
  assumes "ruby_request_access_handler E cfg d hs r = (res, hs', r')"
  shows "safe hs r hs' r'"
proof -
  define r1 where "r1 = snd (ruby_request_init_configuration E cfg d r)"
  have r1: "safe hs r hs r1" "ruby_request_init_configuration E cfg d r = (0, r1)"
    by (simp_all add: r1_def ruby_request_init_configuration_def keeps_registered_def safe_same)
  obtain q h2 r2 where get: "ruby_request_get_access_handler E cfg hs r1 = (q, h2, r2)" by (metis prod.exhaust)
  have "hs' = h2 \<and> keeps_registered r2 r'"
  proof (cases q)
    case (Inl e)
    with assms r1(2) get show ?thesis
      by (auto simp: ruby_request_access_handler_def Let_def dest: catch_keeps split: prod.splits)
  next
    case (Inr h)
    show ?thesis
    proof (cases "h_object h")
      case None
      with assms r1(2) get Inr show ?thesis by (auto simp: ruby_request_access_handler_def Let_def)
    next
      case (Some ob)
      obtain x r3 where c: "env_call E ob (or_null (h_method h)) r2 = (x, r3)" by fastforce
      with assms r1(2) get Inr Some show ?thesis
        by (cases x) (auto simp: ruby_request_access_handler_def Let_def intro: call_keeps [OF c] keeps_trans [OF call_keeps [OF c]] dest: catch_keeps split: prod.splits)
    qed
  qed
  with safe_trans [OF safe_trans [OF r1(1) get_safe(2) [OF get]] safe_same] show ?thesis by blast
qed

lemma generic_safe:
  assumes "ruby_generic_handler E rh n m r = Some (res, r')"
  shows "keeps_registered r r'"
proof (cases "declines n r")
  case True
  with assms show ?thesis by (simp add: ruby_generic_handler_def)
next
  case False
  with assms obtain ob where ob: "rh = Some ob" by (auto simp: ruby_generic_handler_def Let_def split: option.splits)
  obtain x r1 where c: "env_call E ob (Some m) (env_setup_cgi E r) = (x, r1)" by fastforce
  let ?f = "\<lambda>r. r\<lparr>r_headers_out := apr_table_set (env_table E) (r_headers_out r) ''TestResult'' ''PASS''\<rparr>"
  have "r_world r' = r_world r1"
  proof (cases x)
    case (Inl e)
    with assms False ob c have "catch_clauses OK ?f e r1 = (res, r')" by (simp add: ruby_generic_handler_def Let_def)
    from catch_world [OF _ this] show ?thesis by simp
  next
    case (Inr u)
    with assms False ob c show ?thesis by (simp add: ruby_generic_handler_def Let_def)
  qed
  with keeps_trans [OF cgi_keeps call_keeps [OF c]] show ?thesis by (simp add: keeps_registered_def)
qed

end

section \<open>The environment the interpreter gives\<close>

text \<open>
  The request phase on top of the interpreter: modules are required, objects created and methods called by
  the functions of ruby.cpp. \<open>cgi\<close> is what Apache adds to
  a request for its environment, without touching the interpreter. Through Apache::Request the Ruby code may have changed the request: \<open>view\<close>
  is what the request looks like after it, \<open>wrap\<close> the object a request becomes. A call without defined
  behaviour (NULL for a name, an exception without a backtrace) is given the outcome of an exception.
\<close>

definition run_vm ::
    "('w \<Rightarrow> 'w vm req \<Rightarrow> 'w vm req) \<Rightarrow> ('a, 'w) vm_result \<Rightarrow> 'w vm req \<Rightarrow> (thrown + 'a) \<times> 'w vm req" where
  "run_vm view out r =
     (case out of
        None \<Rightarrow> (Inl (Std_exception ''undefined''), r)
      | Some (x, s) \<Rightarrow> (x, (view (vm_world s) r)\<lparr>r_world := s\<rparr>))"

definition vm_env ::
    "apr_table_api \<Rightarrow> (apr_hash \<Rightarrow> entries) \<Rightarrow> ('w vm req \<Rightarrow> 'w vm req) \<Rightarrow> ('w \<Rightarrow> 'w vm req \<Rightarrow> 'w vm req) \<Rightarrow>
     ('w vm req \<Rightarrow> ruby_value) \<Rightarrow> 'w ruby_api \<Rightarrow> (robject, 'w vm) env" where
  "vm_env A hash_list cgi view wrap V =
     \<lparr>env_table = A, env_hash_list = hash_list, env_setup_cgi = \<lambda>r. (cgi r)\<lparr>r_world := r_world r\<rparr>,
      env_require = \<lambda>p r. run_vm view (case p of None \<Rightarrow> None | Some f \<Rightarrow> require V f (r_world r)) r,
      env_new = \<lambda>c r. run_vm view (Object V c [] (r_world r)) r,
      env_call = \<lambda>ob me r. run_vm view
        (case me of None \<Rightarrow> None
         | Some m \<Rightarrow> vm_bind (Object_method V ob m [wrap r] (r_world r)) (\<lambda>_ s. Some (Inr (), s))) r\<rparr>"

lemma protected_registered: "protected msg out s = Some (x, s') \<Longrightarrow> registered s' = registered s"
  by (auto simp: protected_def split: prod.splits sum.splits)

lemma run_vm_world:
  "run_vm view out r = (x, r') \<Longrightarrow> (out = None \<and> r' = r \<and> (\<exists>e. x = Inl e)) \<or> (\<exists>s. out = Some (x, s) \<and> r_world r' = s)"
  by (auto simp: run_vm_def split: option.splits prod.splits)

lemma Object_registers:
  assumes "Object V c as s = Some (y, s')"
  shows "set (registered s) \<subseteq> set (registered s') \<and> (\<forall>ob. y = Inr ob \<longrightarrow> ob_self ob \<in> set (registered s'))"
  using assms
  by (auto simp: Object_def create_object_def vm_bind_def dest!: protected_registered split: option.splits sum.splits prod.splits)

interpretation vm: registering_env "vm_env A hash_list cgi view wrap V"
proof
  fix p r x r' c y ob me
  show "keeps_registered r (env_setup_cgi (vm_env A hash_list cgi view wrap V) r)" by (simp add: vm_env_def keeps_registered_def)
  show "env_require (vm_env A hash_list cgi view wrap V) p r = (x, r') \<Longrightarrow> keeps_registered r r'"
    by (auto simp: vm_env_def require_def keeps_registered_def
        dest!: run_vm_world protected_registered split: option.splits)
  show "env_new (vm_env A hash_list cgi view wrap V) c r = (y, r') \<Longrightarrow>
      keeps_registered r r' \<and> (\<forall>ob. y = Inr ob \<longrightarrow> ob_self ob \<in> set (registered (r_world r')))"
    by (auto simp: vm_env_def keeps_registered_def dest!: run_vm_world Object_registers)
  show "env_call (vm_env A hash_list cgi view wrap V) ob me r = (x, r') \<Longrightarrow> keeps_registered r r'"
    by (auto simp: vm_env_def Object_method_def vm_bind_def keeps_registered_def
        dest!: run_vm_world protected_registered split: option.splits prod.splits sum.splits)
qed

section \<open>A process serving requests\<close>

text \<open>
  The state of a process is the map of handler objects and the interpreter. Requests come in any order, with
  any configuration; between them the interpreter is left alone.
\<close>

inductive process_run ::
    "(robject, 'w vm) env \<Rightarrow> robject option \<Rightarrow> robject handlers \<times> 'w vm \<Rightarrow> robject handlers \<times> 'w vm \<Rightarrow> bool"
  for E g st where
  idle: "process_run E g st st"
| content: "process_run E g st (hs, r_world r) \<Longrightarrow> ruby_request_handler E cfg d hs r = (res, hs', r') \<Longrightarrow>
    process_run E g st (hs', r_world r')"
| access: "process_run E g st (hs, r_world r) \<Longrightarrow> ruby_request_access_handler E cfg d hs r = (res, hs', r') \<Longrightarrow>
    process_run E g st (hs', r_world r')"
| rhtml: "process_run E g st (hs, r_world r) \<Longrightarrow> ruby_request_rhtml_handler E g r = Some (res, r') \<Longrightarrow>
    process_run E g st (hs, r_world r')"
| script: "process_run E g st (hs, r_world r) \<Longrightarrow> ruby_request_script_handler E g r = Some (res, r') \<Longrightarrow>
    process_run E g st (hs, r_world r')"

context registering_env
begin

lemma run_safe:
  assumes "process_run E g (hs0, s0) st"
  shows "set (registered s0) \<subseteq> set (registered (snd st)) \<and> (held hs0 s0 \<longrightarrow> held (fst st) (snd st))"
  using assms
proof (induction rule: process_run.induct)
  case idle
  then show ?case by simp
next
  case (content hs r cfg d res hs' r')
  with handler_safe [OF content(2)] show ?case by (auto simp: safe_def keeps_registered_def)
next
  case (access hs r cfg d res hs' r')
  with access_safe [OF access(2)] show ?case by (auto simp: safe_def keeps_registered_def)
next
  case (rhtml hs r res r')
  with generic_safe [OF rhtml(2) [unfolded ruby_request_rhtml_handler_def]] held_keeps [of hs r r'] show ?case
    by (auto simp: keeps_registered_def)
next
  case (script hs r res r')
  with generic_safe [OF script(2) [unfolded ruby_request_script_handler_def]] held_keeps [of hs r r'] show ?case
    by (auto simp: keeps_registered_def)
qed

end

end
