(* ===== verification/Ruby_Tables.thy ===== *)
theory Ruby_Tables
  imports Apr_Table Ruby_Binding
begin

text \<open>
  The method tables of the classes Table, Array and Pool (ruby_apr_table.cpp, ruby_apr_array.cpp,
  ruby_apr_pool.cpp), and calls through them.
\<close>

section \<open>Methods of Table\<close>

text \<open>A method works on the object's handle, the heap of tables and, where it calls a block, on the world.\<close>

type_synonym 'w table_state = "handle \<times> table_heap \<times> 'w"

definition on_table :: "(table_heap \<Rightarrow> handle \<Rightarrow> method_result) \<Rightarrow> 'w table_state \<Rightarrow> 'w table_state c_result" where
  "on_table f = (\<lambda>(t, H, w). map_option (\<lambda>res. and_then res (\<lambda>(v, H). Inr (v, (t, H, w)))) (f H t))"

definition table_initialize_fn :: "ruby_value \<Rightarrow> ruby_value \<Rightarrow> 'w table_state \<Rightarrow> 'w table_state c_result" where
  "table_initialize_fn self pool = (\<lambda>(t, H, w).
     Some (and_then (table_m_init H pool) (\<lambda>(t, H). Inr (self, (t, H, w)))))"

definition table_m_each ::
    "(ruby_value \<Rightarrow> entries \<times> 'w \<Rightarrow> entries \<times> 'w) \<Rightarrow> 'w table_state \<Rightarrow> 'w table_state c_result" where
  "table_m_each blk = (\<lambda>(t, H, w).
     Option.bind (table_elts H t) (\<lambda>e.
     Option.bind (table_each blk e w) (\<lambda>(e, w).
     map_option (\<lambda>H. Inr (Qnil, (t, H, w))) (table_update (\<lambda>_. e) H t))))"

definition init_apr_table ::
    "apr_table_api \<Rightarrow> (ruby_value \<Rightarrow> entries \<times> 'w \<Rightarrow> entries \<times> 'w) \<Rightarrow> ruby_value \<Rightarrow> 'w table_state method_table" where
  "init_apr_table A blk self =
     [(''initialize'', Fn1 (table_initialize_fn self), 1),
      (''each'', Fn0 (table_m_each blk), 0),
      (''keys'', Fn0 (on_table table_m_keys), 0),
      (''values'', Fn0 (on_table table_m_values), 0),
      (''size'', Fn0 (on_table table_m_size), 0),
      (''clear'', Fn0 (on_table (table_m_clear A)), 0),
      (''get'', Fn1 (\<lambda>key. on_table (\<lambda>H t. table_m_get A H t key)), 1),
      (''[]'', Fn1 (\<lambda>key. on_table (\<lambda>H t. table_m_get A H t key)), 1),
      (''has_key?'', Fn1 (\<lambda>key. on_table (\<lambda>H t. table_m_has_key A H t key)), 1),
      (''set'', Fn2 (\<lambda>key val. on_table (\<lambda>H t. table_m_set A H t key val)), 2),
      (''add'', Fn2 (\<lambda>key val. on_table (\<lambda>H t. table_m_add A H t key val)), 2),
      (''[]='', Fn2 (\<lambda>key val. on_table (\<lambda>H t. table_m_set A H t key val)), 2),
      (''merge'', Fn2 (\<lambda>key val. on_table (\<lambda>H t. table_m_merge A H t key val)), 2),
      (''unset'', Fn1 (\<lambda>key. on_table (\<lambda>H t. table_m_unset A H t key)), 1),
      (''join'', Fn1 (\<lambda>sep. on_table (\<lambda>H t. table_m_join H t sep)), 1)]"

section \<open>Array and Pool\<close>

definition array_m_init :: "ruby_value \<Rightarrow> ruby_value" where
  "array_m_init self = self"

text \<open>The state of an array's method: its strings, and the world a block works on.\<close>

definition init_apr_array :: "(ruby_value \<Rightarrow> 'w \<Rightarrow> 'w) \<Rightarrow> ruby_value \<Rightarrow> (string list \<times> 'w) method_table" where
  "init_apr_array blk self =
     [(''initialize'', getter (\<lambda>_. array_m_init self), 1),
      (''size'', getter (\<lambda>(elts, w). array_m_size elts), 0),
      (''each'', Fn0 (\<lambda>(elts, w). map_option (\<lambda>(v, w). Inr (v, (elts, w))) (array_m_each blk elts w)), 0)]"

definition init_apr_pool :: "ruby_value \<Rightarrow> unit method_table" where
  "init_apr_pool self = [(''initialize'', getter (\<lambda>_. self), 0)]"

section \<open>Calls\<close>

lemma table_arities:
  "list_all (\<lambda>(name, f, n). arity_matches f n) (init_apr_table A blk self)"
  "list_all (\<lambda>(name, f, n). arity_matches f n) (init_apr_pool self)"
  by (simp_all add: init_apr_table_def init_apr_pool_def)

text \<open>The array's \<open>initialize\<close> is the one method with a wrong arity: a call that Ruby accepts is undefined.\<close>

lemma array_arities:
  "list_all (\<lambda>(name, f, n). arity_matches f n \<longleftrightarrow> name \<noteq> ''initialize'') (init_apr_array blk self)"
  "rb_call (init_apr_array blk self) ''initialize'' [v] s = None"
  by (simp_all add: init_apr_array_def rb_call_def find_method_Cons find_method_Nil getter_def)

lemma find_table_methods:
  "find_method (init_apr_table A blk self) ''[]'' = Some (Fn1 (\<lambda>key. on_table (\<lambda>H t. table_m_get A H t key)), 1)"
  "find_method (init_apr_table A blk self) ''[]='' = Some (Fn2 (\<lambda>key val. on_table (\<lambda>H t. table_m_set A H t key val)), 2)"
  "find_method (init_apr_table A blk self) ''initialize'' = Some (Fn1 (table_initialize_fn self), 1)"
  by (simp_all add: init_apr_table_def find_method_Cons find_method_Nil)

text \<open>A new table, filled and read through its methods.\<close>

lemma new_table_holds:
  assumes laws: "apr_table_laws A" and pool: "pool = Obj pool_class p" and key: "same_key (c_str k) (c_str k')"
    and new: "rb_call (init_apr_table A blk self) ''initialize'' [pool] (t0, H0, w) = Some (Inr (v0, st))"
    and put: "rb_call (init_apr_table A blk self) ''[]='' [Str k, Str v] st = Some (Inr (v1, st1))"
  shows "rb_call (init_apr_table A blk self) ''[]'' [Str k'] st1 = Some (Inr (Str (c_str v), st1))"
proof -
  from new pool have st: "st = (fst (table_make H0), snd (table_make H0), w)"
    by (auto simp: rb_call_def find_table_methods table_initialize_fn_def table_m_init_def split: prod.splits)
  have "table_elts (snd (table_make H0)) (fst (table_make H0)) = Some []"
    by (simp add: table_make_def table_elts_def)
  then obtain q e where e: "fst (table_make H0) = Some q" "th_tables (snd (table_make H0)) q = Some e"
    by (auto simp: table_elts_def bind_eq_Some_conv)
  show ?thesis
    using put laws key e
    by (auto simp: st rb_call_def find_table_methods on_table_def table_methods apr_table_laws_def)
qed

end
