(* ===== verification/Wrapped_Objects.thy ===== *)
theory Wrapped_Objects
  imports Apr_Table Ruby_File_Info Ruby_Server
begin

text \<open>
  The memory behind Ruby's objects: each class of the extension has an allocator, a function that wraps a
  C structure, and a deallocator that the garbage collector calls (ruby_apr_pool.cpp, ruby_apr_table.cpp,
  ruby_apr_array.cpp, ruby_apr_file_info.cpp, ruby_request.cpp, ruby_server.cpp, ruby_connection.cpp,
  ruby_process.cpp). The state is the C++ heap, the pools made for Ruby and the wrapping objects.
\<close>

section \<open>Memory\<close>

text \<open>A pointer in memory: not yet written, NULL, or an address.\<close>

datatype slot = Indeterminate | Null | At nat

text \<open>
  What is allocated with \<open>new\<close> or \<open>malloc\<close>: a table object with its handle, which names the pool and the
  APR table; the wrapper structure of FileInfo; a file information; an object over a record of Apache.
\<close>

datatype cell = Table_cell "(nat \<times> nat) option" | Wrapper slot | Info_cell file_info | Apache_cell string nat

text \<open>An object made by \<open>Data_Wrap_Struct\<close>: class, structure, and the instance variable \<open>pool\<close>.\<close>

record data =
  da_class :: string
  da_ptr :: slot
  da_pool :: "nat option"

record memory =
  mm_next :: nat
  mm_cells :: "nat \<Rightarrow> cell option"
  mm_pools :: "nat \<Rightarrow> bool"
  mm_objects :: "nat \<Rightarrow> data option"

definition fresh_memory :: memory where
  "fresh_memory = \<lparr>mm_next = 0, mm_cells = Map.empty, mm_pools = (\<lambda>_. False), mm_objects = Map.empty\<rparr>"

definition new_cell :: "cell \<Rightarrow> memory \<Rightarrow> slot \<times> memory" where
  "new_cell c m = (At (mm_next m), m\<lparr>mm_next := mm_next m + 1, mm_cells := (mm_cells m)(mm_next m \<mapsto> c)\<rparr>)"

text \<open>\<open>delete\<close> of a pointer: nothing for NULL, undefined unless it points to a live structure.\<close>

definition delete_cell :: "slot \<Rightarrow> memory \<Rightarrow> memory option" where
  "delete_cell p m =
     (case p of
        Null \<Rightarrow> Some m
      | Indeterminate \<Rightarrow> None
      | At a \<Rightarrow> if mm_cells m a = None then None else Some (m\<lparr>mm_cells := (mm_cells m)(a := None)\<rparr>))"

definition create_pool :: "memory \<Rightarrow> slot \<times> memory" where
  "create_pool m = (At (mm_next m), m\<lparr>mm_next := mm_next m + 1, mm_pools := (mm_pools m)(mm_next m := True)\<rparr>)"

definition destroy_pool :: "nat \<Rightarrow> memory \<Rightarrow> memory option" where
  "destroy_pool p m = (if mm_pools m p then Some (m\<lparr>mm_pools := (mm_pools m)(p := False)\<rparr>) else None)"

definition wrap_struct :: "string \<Rightarrow> slot \<Rightarrow> memory \<Rightarrow> nat \<times> memory" where
  "wrap_struct cls p m =
     (mm_next m, m\<lparr>mm_next := mm_next m + 1,
        mm_objects := (mm_objects m)(mm_next m \<mapsto> \<lparr>da_class = cls, da_ptr = p, da_pool = None\<rparr>)\<rparr>)"

definition set_pool_ivar :: "nat \<Rightarrow> nat \<Rightarrow> memory \<Rightarrow> memory" where
  "set_pool_ivar self pool m =
     m\<lparr>mm_objects := (mm_objects m)(self := map_option (\<lambda>d. d\<lparr>da_pool := Some pool\<rparr>) (mm_objects m self))\<rparr>"

definition struct_of :: "nat \<Rightarrow> memory \<Rightarrow> slot option" where
  "struct_of self m = map_option da_ptr (mm_objects m self)"

section \<open>Pools\<close>

definition pool_deallocator :: "slot \<Rightarrow> memory \<Rightarrow> memory option" where
  "pool_deallocator x m =
     (case x of Null \<Rightarrow> Some m | Indeterminate \<Rightarrow> None | At p \<Rightarrow> destroy_pool p m)"

definition pool_allocator :: "memory \<Rightarrow> nat \<times> memory" where
  "pool_allocator m = (let (p, m) = create_pool m in wrap_struct pool_class p m)"

definition pool_m_init :: "nat \<Rightarrow> nat" where
  "pool_m_init self = self"

definition make_apr_pool :: "memory \<Rightarrow> nat \<times> memory" where
  "make_apr_pool m =
     (let (p, m) = create_pool m; (obj, m) = wrap_struct pool_class p m in (pool_m_init obj, m))"

text \<open>\<open>Check_Type\<close>, \<open>require_class\<close> and \<open>Data_Get_Struct\<close> of an argument that has to be a pool.\<close>

definition pool_arg :: "ruby_value \<Rightarrow> nat ruby_result" where
  "pool_arg v =
     (case v of
        Obj cls o' \<Rightarrow> if cls = pool_class then Inr o' else Inl (RuntimeError ''wrong argument type'')
      | _ \<Rightarrow> Inl TypeError)"

section \<open>Tables\<close>

definition table_class :: string where "table_class = ''APR::Table''"

definition table_deallocator :: "slot \<Rightarrow> memory \<Rightarrow> memory option" where
  "table_deallocator x m = (if x \<noteq> Null then delete_cell x m else Some m)"

definition table_allocator :: "memory \<Rightarrow> nat \<times> memory" where
  "table_allocator m = (let (x, m) = new_cell (Table_cell None) m in wrap_struct table_class x m)"

definition wrap_apr_table :: "(nat \<times> nat) option \<Rightarrow> memory \<Rightarrow> nat \<times> memory" where
  "wrap_apr_table t m = (let (x, m) = new_cell (Table_cell t) m in wrap_struct table_class x m)"

text \<open>\<open>apr_table_make\<close> makes the table \<open>h\<close> in the pool.\<close>

definition table_initialize :: "nat \<Rightarrow> ruby_value \<Rightarrow> nat \<Rightarrow> memory \<Rightarrow> (ruby_error option \<times> memory) option" where
  "table_initialize self pool h m =
     (case pool_arg pool of
        Inl e \<Rightarrow> Some (Some e, m)
      | Inr q \<Rightarrow>
          (let m = set_pool_ivar self q m in
           case (struct_of self m, struct_of q m) of
             (Some (At t), Some (At p)) \<Rightarrow>
               (case mm_cells m t of
                  Some (Table_cell _) \<Rightarrow> Some (None, m\<lparr>mm_cells := (mm_cells m)(t \<mapsto> Table_cell (Some (p, h)))\<rparr>)
                | _ \<Rightarrow> None)
           | _ \<Rightarrow> None))"

section \<open>File information\<close>

definition finfo_class :: string where "finfo_class = ''APR::FileInfo''"

text \<open>The file information is deleted, the wrapper around it is not.\<close>

definition finfo_deallocator :: "slot \<Rightarrow> memory \<Rightarrow> memory option" where
  "finfo_deallocator x m =
     (case x of
        Null \<Rightarrow> Some m
      | Indeterminate \<Rightarrow> None
      | At w \<Rightarrow>
          (case mm_cells m w of
             Some (Wrapper f) \<Rightarrow>
               if f \<noteq> Null then map_option (\<lambda>m. m\<lparr>mm_cells := (mm_cells m)(w \<mapsto> Wrapper Null)\<rparr>) (delete_cell f m)
               else Some m
           | _ \<Rightarrow> None))"

definition finfo_allocator :: "memory \<Rightarrow> nat \<times> memory" where
  "finfo_allocator m = (let (w, m) = new_cell (Wrapper Indeterminate) m in wrap_struct finfo_class w m)"

definition finfo_initialize ::
    "stat_api \<Rightarrow> nat \<Rightarrow> ruby_value \<Rightarrow> ruby_value \<Rightarrow> ruby_value \<Rightarrow> memory \<Rightarrow> (ruby_error option \<times> memory) option" where
  "finfo_initialize apr_stat self path pool want_flags m =
     (case and_then (string_arg path) (\<lambda>p. and_then (data_arg pool) (\<lambda>_. and_then (fixnum_check want_flags) (\<lambda>_.
             and_then (pool_arg pool) (\<lambda>q. Inr (p, q))))) of
        Inl e \<Rightarrow> Some (Some e, m)
      | Inr (p, q) \<Rightarrow>
          (let m = set_pool_ivar self q m in
           case fixnum_arg want_flags of
             Inl e \<Rightarrow> Some (Some e, m)
           | Inr flags \<Rightarrow>
               (let (f, m) = new_cell (Info_cell (stat_file apr_stat p (word_of_int flags))) m in
                case struct_of self m of
                  Some (At w) \<Rightarrow>
                    (case mm_cells m w of
                       Some (Wrapper _) \<Rightarrow> Some (None, m\<lparr>mm_cells := (mm_cells m)(w \<mapsto> Wrapper f)\<rparr>)
                     | _ \<Rightarrow> None)
                | _ \<Rightarrow> None)))"

definition make_file_info ::
    "stat_api \<Rightarrow> ruby_value \<Rightarrow> ruby_value \<Rightarrow> ruby_value \<Rightarrow> memory \<Rightarrow> (ruby_error option \<times> nat \<times> memory) option" where
  "make_file_info apr_stat path pool want_flags m =
     (let (w, m) = new_cell (Wrapper Indeterminate) m; (obj, m) = wrap_struct finfo_class w m in
      map_option (\<lambda>(e, m). (e, obj, m)) (finfo_initialize apr_stat obj path pool want_flags m))"

definition make_finfo_from_struct :: "finfo \<Rightarrow> memory \<Rightarrow> nat \<times> memory" where
  "make_finfo_from_struct x m =
     (let (f, m) = new_cell (Info_cell (file_info_of x)) m; (w, m) = new_cell (Wrapper f) m
      in wrap_struct finfo_class w m)"

section \<open>Objects over Apache's records\<close>

text \<open>Their allocators raise, so that only C code makes them; a deallocator deletes the C++ object.\<close>

definition apache_deallocator :: "slot \<Rightarrow> memory \<Rightarrow> memory option" where
  "apache_deallocator x m = (if x \<noteq> Null then delete_cell x m else Some m)"

definition request_deallocator :: "slot \<Rightarrow> memory \<Rightarrow> memory option" where
  "request_deallocator = apache_deallocator"

definition request_allocator :: "nat ruby_result" where
  "request_allocator = Inl (RuntimeError ''Cannot create a Apache::Request this way'')"

definition server_deallocator :: "slot \<Rightarrow> memory \<Rightarrow> memory option" where
  "server_deallocator = apache_deallocator"

definition server_allocator :: "nat ruby_result" where
  "server_allocator = Inl (RuntimeError ''Cannot create a Apache::Server object this way'')"

definition connection_deallocator :: "slot \<Rightarrow> memory \<Rightarrow> memory option" where
  "connection_deallocator = apache_deallocator"

definition connection_allocator :: "nat ruby_result" where
  "connection_allocator = Inl (RuntimeError ''Cannot create a Apache::Server object this way'')"

definition process_deallocator :: "slot \<Rightarrow> memory \<Rightarrow> memory option" where
  "process_deallocator = apache_deallocator"

definition process_allocator :: "nat ruby_result" where
  "process_allocator = Inl (RuntimeError ''Cannot create a Apache::Process object this way'')"

text \<open>
  A server object owns the wrappers of the servers after it, which its destructor deletes and which it hands
  on to nobody, so one cell stands for an object with what it owns.
\<close>

definition make_apache :: "string \<Rightarrow> nat \<Rightarrow> memory \<Rightarrow> nat \<times> memory" where
  "make_apache cls r m = (let (x, m) = new_cell (Apache_cell cls r) m in wrap_struct cls x m)"

definition make_request_object :: "nat \<Rightarrow> memory \<Rightarrow> nat \<times> memory" where
  "make_request_object r = make_apache ''Apache::Request'' r"

definition make_server_object :: "nat \<Rightarrow> memory \<Rightarrow> nat \<times> memory" where
  "make_server_object r = make_apache ''Apache::Server'' r"

definition make_connection_object :: "nat \<Rightarrow> memory \<Rightarrow> nat \<times> memory" where
  "make_connection_object r = make_apache ''Apache::Connection'' r"

definition make_process_object :: "nat \<Rightarrow> memory \<Rightarrow> nat \<times> memory" where
  "make_process_object r = make_apache ''Apache::Process'' r"

section \<open>Arrays\<close>

text \<open>An array object points to memory of Apache, and its deallocator does nothing.\<close>

definition array_class :: string where "array_class = ''APR::Array''"

definition array_deallocator :: "slot \<Rightarrow> memory \<Rightarrow> memory option" where
  "array_deallocator x m = Some m"

definition make_apr_array :: "nat \<Rightarrow> memory \<Rightarrow> nat \<times> memory" where
  "make_apr_array h m = wrap_struct array_class (At h) m"

definition apache_classes :: "string list" where
  "apache_classes = [''Apache::Request'', ''Apache::Server'', ''Apache::Connection'', ''Apache::Process'']"

text \<open>The collector frees an object: the deallocator registered with its class, then the object itself.\<close>

definition deallocator :: "string \<Rightarrow> slot \<Rightarrow> memory \<Rightarrow> memory option" where
  "deallocator cls =
     (if cls = pool_class then pool_deallocator
      else if cls = table_class then table_deallocator
      else if cls = finfo_class then finfo_deallocator
      else if cls = ''Apache::Request'' then request_deallocator
      else if cls = ''Apache::Server'' then server_deallocator
      else if cls = ''Apache::Connection'' then connection_deallocator
      else if cls = ''Apache::Process'' then process_deallocator
      else array_deallocator)"

definition free_data :: "nat \<Rightarrow> memory \<Rightarrow> memory option" where
  "free_data o' m =
     (case mm_objects m o' of
        None \<Rightarrow> None
      | Some d \<Rightarrow>
          map_option (\<lambda>m. m\<lparr>mm_objects := (mm_objects m)(o' := None)\<rparr>) (deallocator (da_class d) (da_ptr d) m))"

text \<open>A collection frees objects one after the other, in some order.\<close>

fun sweep :: "('o \<Rightarrow> 's \<Rightarrow> 's option) \<Rightarrow> 'o list \<Rightarrow> 's \<Rightarrow> 's option" where
  "sweep free [] s = Some s"
| "sweep free (x # xs) s = Option.bind (free x s) (sweep free xs)"

section \<open>The contract of deallocators\<close>

text \<open>
  Freeing an object is defined exactly if the memory it owns is sound, removes that object, and leaves the
  memory that the others own alone. Then so does freeing any set of objects, in any order.
\<close>

locale collector =
  fixes inv :: "'s \<Rightarrow> bool"
    and live :: "'s \<Rightarrow> 'o \<Rightarrow> bool"
    and view :: "'s \<Rightarrow> 'o \<Rightarrow> 'v"
    and sound :: "'v \<Rightarrow> bool"
    and free :: "'o \<Rightarrow> 's \<Rightarrow> 's option"
  assumes free_defined: "inv s \<Longrightarrow> live s x \<Longrightarrow> sound (view s x) \<longleftrightarrow> free x s \<noteq> None"
    and free_keeps: "inv s \<Longrightarrow> live s x \<Longrightarrow> free x s = Some s' \<Longrightarrow>
      inv s' \<and> (\<forall>y. live s' y \<longleftrightarrow> live s y \<and> y \<noteq> x) \<and> (\<forall>y. live s' y \<longrightarrow> view s' y = view s y)"
begin

lemma sweep_defined:
  assumes "inv s" "distinct xs" "\<forall>x \<in> set xs. live s x"
  shows "sweep free xs s \<noteq> None \<longleftrightarrow> (\<forall>x \<in> set xs. sound (view s x))"
  using assms
proof (induction xs arbitrary: s)
  case (Cons x xs)
  show ?case
  proof (cases "free x s")
    case None
    with Cons.prems free_defined [of s x] show ?thesis by auto
  next
    case (Some s')
    with Cons.prems free_keeps [of s x s'] have k: "inv s'" "\<forall>y \<in> set xs. live s' y" "\<forall>y \<in> set xs. view s' y = view s y"
      by auto
    with Cons.IH [of s'] Cons.prems(2) Some free_defined [of s x] Cons.prems(1,3) show ?thesis by auto
  qed
qed simp

lemma sweep_keeps:
  assumes "inv s" "distinct xs" "\<forall>x \<in> set xs. live s x" "sweep free xs s = Some s'"
  shows "inv s' \<and> (\<forall>y. live s' y \<longleftrightarrow> live s y \<and> y \<notin> set xs) \<and> (\<forall>y. live s' y \<longrightarrow> view s' y = view s y)"
  using assms
proof (induction xs arbitrary: s)
  case (Cons x xs)
  then obtain s1 where s1: "free x s = Some s1" "sweep free xs s1 = Some s'" by (auto simp: bind_eq_Some_conv)
  with Cons.prems free_keeps [of s x s1]
  have k: "inv s1" "\<forall>y. live s1 y \<longleftrightarrow> live s y \<and> y \<noteq> x" "\<forall>y. live s1 y \<longrightarrow> view s1 y = view s y"
    by auto
  from Cons.prems k have "\<forall>y \<in> set xs. live s1 y" by auto
  from Cons.IH [OF k(1) _ this s1(2)] Cons.prems k show ?case by auto
qed simp

end

section \<open>Ownership\<close>

text \<open>The addresses an object owns, and what its class requires of them.\<close>

definition owns :: "memory \<Rightarrow> data \<Rightarrow> nat set" where
  "owns m d =
     (if da_class d = array_class then {}
      else case da_ptr d of
        At a \<Rightarrow> insert a (case mm_cells m a of Some (Wrapper (At f)) \<Rightarrow> {f} | _ \<Rightarrow> {})
      | _ \<Rightarrow> {})"

definition shaped :: "memory \<Rightarrow> data \<Rightarrow> bool" where
  "shaped m d \<longleftrightarrow>
     (if da_class d = array_class then True
      else \<exists>a. da_ptr d = At a \<and>
        (if da_class d = pool_class then mm_pools m a \<and> mm_cells m a = None
         else if da_class d = table_class then \<exists>t. mm_cells m a = Some (Table_cell t)
         else if da_class d = finfo_class then
           \<exists>w. mm_cells m a = Some (Wrapper w) \<and> w \<noteq> Null \<and> w \<noteq> At a \<and> (\<forall>f. w = At f \<longrightarrow> (\<exists>i. mm_cells m f = Some (Info_cell i)))
         else da_class d \<in> set apache_classes \<and> (\<exists>c r. mm_cells m a = Some (Apache_cell c r))))"

definition half_made :: "memory \<Rightarrow> data \<Rightarrow> bool" where
  "half_made m d \<longleftrightarrow> da_class d = finfo_class \<and> (\<exists>a. da_ptr d = At a \<and> mm_cells m a = Some (Wrapper Indeterminate))"

definition bounded :: "memory \<Rightarrow> bool" where
  "bounded m \<longleftrightarrow> (\<forall>a. mm_cells m a \<noteq> None \<or> mm_pools m a \<or> mm_objects m a \<noteq> None \<longrightarrow> a < mm_next m)"

definition memory_ok :: "memory \<Rightarrow> bool" where
  "memory_ok m \<longleftrightarrow> bounded m \<and> (\<forall>x d. mm_objects m x = Some d \<longrightarrow> shaped m d) \<and>
     (\<forall>x y d e. x \<noteq> y \<longrightarrow> mm_objects m x = Some d \<longrightarrow> mm_objects m y = Some e \<longrightarrow> owns m d \<inter> owns m e = {})"

text \<open>What can be read through an object.\<close>

definition reads :: "memory \<Rightarrow> nat \<Rightarrow> (data \<times> (nat \<Rightarrow> cell option) \<times> (nat \<Rightarrow> bool)) option" where
  "reads m x = map_option (\<lambda>d. (d, mm_cells m |` owns m d, \<lambda>a. a \<in> owns m d \<and> mm_pools m a)) (mm_objects m x)"

definition touches :: "nat set \<Rightarrow> memory \<Rightarrow> memory \<Rightarrow> bool" where
  "touches A m m' \<longleftrightarrow> (\<forall>a. a \<notin> A \<longrightarrow> mm_cells m' a = mm_cells m a \<and> mm_pools m' a = mm_pools m a)"

lemma class_names [simp]:
  "pool_class \<noteq> array_class" "table_class \<noteq> array_class" "finfo_class \<noteq> array_class" "array_class \<notin> set apache_classes"
  "table_class \<noteq> pool_class" "finfo_class \<noteq> pool_class" "pool_class \<notin> set apache_classes"
  "finfo_class \<noteq> table_class" "table_class \<notin> set apache_classes" "finfo_class \<notin> set apache_classes"
  by (simp_all add: pool_class_def array_class_def table_class_def finfo_class_def apache_classes_def)

lemmas class_names_sym [simp] = class_names(1-3,5,6,8) [symmetric]

lemma owns_bounded:
  assumes "memory_ok m" "mm_objects m x = Some d" "a \<in> owns m d"
  shows "a < mm_next m"
proof -
  from assms have "shaped m d" "bounded m" by (auto simp: memory_ok_def)
  with assms(3) show ?thesis
    by (auto simp: owns_def shaped_def bounded_def split: if_splits slot.splits option.splits cell.splits)
qed

lemma frame:
  assumes "touches A m m'" "owns m d \<inter> A = {}"
  shows "owns m' d = owns m d" "shaped m' d \<longleftrightarrow> shaped m d"
    "mm_cells m' |` owns m d = mm_cells m |` owns m d" "(\<lambda>a. a \<in> owns m d \<and> mm_pools m' a) = (\<lambda>a. a \<in> owns m d \<and> mm_pools m a)"
proof -
  from assms have same: "mm_cells m' a = mm_cells m a" "mm_pools m' a = mm_pools m a" if "a \<in> owns m d" for a
    using that by (auto simp: touches_def)
  have own: "a \<in> owns m d" if "da_ptr d = At a" "da_class d \<noteq> array_class" for a
    using that by (simp add: owns_def)
  have info: "f \<in> owns m d" if "da_ptr d = At a" "da_class d \<noteq> array_class" "mm_cells m a = Some (Wrapper (At f))" for a f
    using that by (simp add: owns_def)
  show "owns m' d = owns m d"
    using same own by (auto simp: owns_def split: slot.splits)
  show "shaped m' d \<longleftrightarrow> shaped m d"
    using same own info by (auto simp: shaped_def)
  show "mm_cells m' |` owns m d = mm_cells m |` owns m d"
    using same by (auto simp: restrict_map_def)
  show "(\<lambda>a. a \<in> owns m d \<and> mm_pools m' a) = (\<lambda>a. a \<in> owns m d \<and> mm_pools m a)"
    using same by auto
qed

text \<open>
  A change of one object: it may touch what that object owned and what is new.
\<close>

definition owned :: "memory \<Rightarrow> nat \<Rightarrow> nat set" where
  "owned m x = (case mm_objects m x of None \<Rightarrow> {} | Some d \<Rightarrow> owns m d) \<union> {a. mm_next m \<le> a}"

lemma change_one:
  assumes ok: "memory_ok m" and objs: "mm_objects m' = (mm_objects m)(x := r)" and t: "touches (owned m x) m m'"
    and b: "bounded m'" and r: "\<And>d. r = Some d \<Longrightarrow> shaped m' d \<and> owns m' d \<subseteq> owned m x"
  shows "memory_ok m' \<and> (\<forall>y. y \<noteq> x \<longrightarrow> reads m' y = reads m y)"
proof -
  have apart: "owns m e \<inter> owned m x = {}" if "mm_objects m y = Some e" "y \<noteq> x" for y e
    using ok that owns_bounded [OF ok that(1)]
    by (fastforce simp: owned_def memory_ok_def split: option.splits)
  note same = frame [OF t apart]
  have disj: "owns m' d \<inter> owns m' e = {}"
    if "y \<noteq> z" "mm_objects m' y = Some d" "mm_objects m' z = Some e" for y z d e
  proof (cases "y = x")
    case True
    with that objs have "r = Some d" "mm_objects m z = Some e" "z \<noteq> x" by auto
    with r same(1) apart show ?thesis by blast
  next
    case False
    show ?thesis
    proof (cases "z = x")
      case True
      with that objs False have "r = Some e" "mm_objects m y = Some d" by auto
      with r same(1) apart False show ?thesis by blast
    next
      case z: False
      with that objs False have "mm_objects m y = Some d" "mm_objects m z = Some e" by auto
      with that(1) ok same(1) False z show ?thesis by (simp add: memory_ok_def)
    qed
  qed
  have sh: "shaped m' d" if "mm_objects m' y = Some d" for y d
    using that objs r same(2) ok by (cases "y = x") (auto simp: memory_ok_def)
  have "reads m' y = reads m y" if "y \<noteq> x" for y
    using that objs same by (cases "mm_objects m y") (simp_all add: reads_def)
  with b sh disj show ?thesis by (auto simp: memory_ok_def)
qed

section \<open>Freeing one object\<close>

definition sound_read :: "(data \<times> (nat \<Rightarrow> cell option) \<times> (nat \<Rightarrow> bool)) option \<Rightarrow> bool" where
  "sound_read v =
     (case v of
        None \<Rightarrow> False
      | Some (d, cs, ps) \<Rightarrow>
          \<not> (da_class d = finfo_class \<and>
             (case da_ptr d of At a \<Rightarrow> (case cs a of Some (Wrapper Indeterminate) \<Rightarrow> True | _ \<Rightarrow> False) | _ \<Rightarrow> False)))"

lemma sound_read_eq: "mm_objects m x = Some d \<Longrightarrow> sound_read (reads m x) \<longleftrightarrow> \<not> half_made m d"
  by (auto simp: sound_read_def reads_def half_made_def owns_def restrict_map_def
      split: slot.splits option.splits cell.splits if_splits)

lemma free_cases:
  assumes "shaped m d"
  obtains (array) "da_class d = array_class" "deallocator (da_class d) (da_ptr d) m = Some m"
  | (pool) a where "da_class d = pool_class" "da_ptr d = At a" "mm_pools m a"
      "deallocator (da_class d) (da_ptr d) m = Some (m\<lparr>mm_pools := (mm_pools m)(a := False)\<rparr>)"
  | (single) a where "da_class d \<notin> {array_class, pool_class, finfo_class}" "da_ptr d = At a"
      "deallocator (da_class d) (da_ptr d) m = Some (m\<lparr>mm_cells := (mm_cells m)(a := None)\<rparr>)"
  | (info) a f where "da_class d = finfo_class" "da_ptr d = At a" "mm_cells m a = Some (Wrapper (At f))"
      "deallocator (da_class d) (da_ptr d) m = Some (m\<lparr>mm_cells := (mm_cells m)(f := None, a \<mapsto> Wrapper Null)\<rparr>)"
  | (half) "half_made m d" "deallocator (da_class d) (da_ptr d) m = None"
proof -
  have arr: "deallocator array_class p m = Some m" for p
    by (simp add: deallocator_def array_deallocator_def)
      (simp add: array_class_def)
  show thesis
  proof (cases "da_class d = array_class")
    case True
    with arr array show ?thesis by simp
  next
    case False
    with assms obtain a where a: "da_ptr d = At a" by (auto simp: shaped_def)
    show ?thesis
    proof (cases "da_class d = pool_class")
      case True
      with assms a pool show ?thesis
        by (simp add: shaped_def deallocator_def pool_deallocator_def destroy_pool_def)
    next
      case np: False
      show ?thesis
      proof (cases "da_class d = finfo_class")
        case True
        with assms a obtain w where w: "mm_cells m a = Some (Wrapper w)" "w \<noteq> Null" "w \<noteq> At a"
          "\<forall>f. w = At f \<longrightarrow> (\<exists>i. mm_cells m f = Some (Info_cell i))"
          by (auto simp: shaped_def)
        with True a half info show ?thesis
          by (cases w) (auto simp: deallocator_def finfo_deallocator_def delete_cell_def half_made_def)
      next
        case nf: False
        have "deallocator (da_class d) (At a) m = Some (m\<lparr>mm_cells := (mm_cells m)(a := None)\<rparr>)"
        proof (cases "da_class d = table_class")
          case True
          with assms a show ?thesis
            by (auto simp: shaped_def deallocator_def table_deallocator_def delete_cell_def)
        next
          case nt: False
          with assms a False np nf have c: "da_class d \<in> set apache_classes" "mm_cells m a \<noteq> None"
            by (auto simp: shaped_def)
          with np nf nt show ?thesis
            by (auto simp: deallocator_def apache_deallocator_def delete_cell_def apache_classes_def
                request_deallocator_def server_deallocator_def connection_deallocator_def process_deallocator_def)
        qed
        with False np nf a single show ?thesis by auto
      qed
    qed
  qed
qed

lemma free_data_ok:
  assumes ok: "memory_ok m" and x: "mm_objects m x = Some d"
  shows "free_data x m \<noteq> None \<longleftrightarrow> \<not> half_made m d"
    and "free_data x m = Some m' \<Longrightarrow> mm_objects m' = (mm_objects m)(x := None) \<and> memory_ok m' \<and>
      (\<forall>y. y \<noteq> x \<longrightarrow> reads m' y = reads m y)"
proof -
  from ok x have sh: "shaped m d" and b: "bounded m" by (auto simp: memory_ok_def)
  have "(free_data x m \<noteq> None \<longleftrightarrow> \<not> half_made m d) \<and>
    (\<forall>m'. free_data x m = Some m' \<longrightarrow> mm_objects m' = (mm_objects m)(x := None) \<and> touches (owned m x) m m' \<and> bounded m')"
    using sh
  proof (cases rule: free_cases)
    case array
    then have "\<not> half_made m d" by (simp add: half_made_def)
    with array x b show ?thesis by (auto simp: free_data_def touches_def bounded_def)
  next
    case (pool a)
    then have "\<not> half_made m d" "a \<in> owned m x" using x by (simp_all add: half_made_def owned_def owns_def)
    with pool x b show ?thesis by (auto simp: free_data_def touches_def bounded_def)
  next
    case (single a)
    then have "\<not> half_made m d" "a \<in> owned m x" using x by (simp_all add: half_made_def owned_def owns_def)
    with single x b show ?thesis by (auto simp: free_data_def touches_def bounded_def)
  next
    case (info a f)
    then have "\<not> half_made m d" "a \<in> owned m x" "f \<in> owned m x" using x by (simp_all add: half_made_def owned_def owns_def)
    moreover from info b have "a < mm_next m" by (auto simp: bounded_def)
    ultimately show ?thesis using info x b by (auto simp: free_data_def touches_def bounded_def)
  next
    case half
    with x show ?thesis by (simp add: free_data_def)
  qed
  with change_one [OF ok, of _ x None]
  show "free_data x m \<noteq> None \<longleftrightarrow> \<not> half_made m d"
    and "free_data x m = Some m' \<Longrightarrow> mm_objects m' = (mm_objects m)(x := None) \<and> memory_ok m' \<and>
      (\<forall>y. y \<noteq> x \<longrightarrow> reads m' y = reads m y)"
    by blast+
qed

interpretation gc: collector memory_ok "\<lambda>m x. mm_objects m x \<noteq> None" reads sound_read free_data
proof
  fix m x m'
  assume ok: "memory_ok m" and live: "mm_objects m x \<noteq> None"
  then obtain d where d: "mm_objects m x = Some d" by blast
  show "sound_read (reads m x) \<longleftrightarrow> free_data x m \<noteq> None"
    using sound_read_eq [OF d] free_data_ok(1) [OF ok d] by simp
  assume "free_data x m = Some m'"
  from free_data_ok(2) [OF ok d this]
  show "memory_ok m' \<and> (\<forall>y. mm_objects m' y \<noteq> None \<longleftrightarrow> mm_objects m y \<noteq> None \<and> y \<noteq> x) \<and>
      (\<forall>y. mm_objects m' y \<noteq> None \<longrightarrow> reads m' y = reads m y)"
    by auto
qed

section \<open>Programs and collections\<close>

text \<open>
  What Ruby code and the C code below it do with these classes. \<open>FileInfo.new\<close> passes its arguments to an
  \<open>initialize\<close> that is registered with two parameters and has three.
\<close>

datatype wrap_op =
    New_pool
  | New_table ruby_value nat
  | Initialize_table nat ruby_value nat
  | Make_table "(nat \<times> nat) option"
  | New_file_info "ruby_value list"
  | Stat ruby_value ruby_value
  | Info_from_struct finfo
  | Make_request nat | Make_server nat | Make_connection nat | Make_process nat
  | Make_array nat

fun wrap_step :: "stat_api \<Rightarrow> wrap_op \<Rightarrow> memory \<Rightarrow> memory option" where
  "wrap_step S New_pool m = Some (snd (pool_allocator m))"
| "wrap_step S (New_table pool h) m =
     (let (x, m) = table_allocator m in map_option snd (table_initialize x pool h m))"
| "wrap_step S (Initialize_table x pool h) m = map_option snd (table_initialize x pool h m)"
| "wrap_step S (Make_table t) m = Some (snd (wrap_apr_table t m))"
| "wrap_step S (New_file_info as) m = (if length as = 2 then None else Some (snd (finfo_allocator m)))"
| "wrap_step S (Stat path flags) m =
     (let (q, m) = make_apr_pool m in map_option (snd \<circ> snd) (make_file_info S path (Obj pool_class q) flags m))"
| "wrap_step S (Info_from_struct f) m = Some (snd (make_finfo_from_struct f m))"
| "wrap_step S (Make_request r) m = Some (snd (make_request_object r m))"
| "wrap_step S (Make_server r) m = Some (snd (make_server_object r m))"
| "wrap_step S (Make_connection r) m = Some (snd (make_connection_object r m))"
| "wrap_step S (Make_process r) m = Some (snd (make_process_object r m))"
| "wrap_step S (Make_array h) m = Some (snd (make_apr_array h m))"

text \<open>The objects an operation names are live, and a method is called on an instance of its class.\<close>

definition live_of :: "string \<Rightarrow> memory \<Rightarrow> nat \<Rightarrow> bool" where
  "live_of cls m x \<longleftrightarrow> (\<exists>d. mm_objects m x = Some d \<and> da_class d = cls)"

definition live_pool :: "memory \<Rightarrow> ruby_value \<Rightarrow> bool" where
  "live_pool m v \<longleftrightarrow> (\<forall>q. v = Obj pool_class q \<longrightarrow> live_of pool_class m q)"

fun possible :: "memory \<Rightarrow> wrap_op \<Rightarrow> bool" where
  "possible m (New_table pool h) \<longleftrightarrow> live_pool m pool"
| "possible m (Initialize_table x pool h) \<longleftrightarrow> live_of table_class m x \<and> live_pool m pool"
| "possible m (New_file_info as) \<longleftrightarrow> length as \<noteq> 2"
| "possible m _ \<longleftrightarrow> True"

text \<open>Objects may be collected when no other object refers to them.\<close>

definition garbage :: "memory \<Rightarrow> nat list \<Rightarrow> bool" where
  "garbage m xs \<longleftrightarrow> distinct xs \<and> (\<forall>x \<in> set xs. mm_objects m x \<noteq> None) \<and>
     (\<forall>y d. mm_objects m y = Some d \<longrightarrow> y \<notin> set xs \<longrightarrow> (\<forall>q. da_pool d = Some q \<longrightarrow> q \<notin> set xs))"

inductive wrap_run :: "stat_api \<Rightarrow> memory \<Rightarrow> bool" for S where
  start: "wrap_run S fresh_memory"
| step: "wrap_run S m \<Longrightarrow> possible m p \<Longrightarrow> wrap_step S p m = Some m' \<Longrightarrow> wrap_run S m'"
| collect: "wrap_run S m \<Longrightarrow> garbage m xs \<Longrightarrow> sweep free_data xs m = Some m' \<Longrightarrow> wrap_run S m'"

text \<open>An object that refers to a pool keeps it, and an initialized table is in the pool it refers to.\<close>

definition refers :: "memory \<Rightarrow> data \<Rightarrow> bool" where
  "refers m d \<longleftrightarrow>
     (\<forall>q. da_pool d = Some q \<longrightarrow>
        live_of pool_class m q \<and>
        (da_class d = table_class \<longrightarrow>
           (\<exists>a p h. da_ptr d = At a \<and> mm_cells m a = Some (Table_cell (Some (p, h))) \<and> struct_of q m = Some (At p))))"

definition pools_kept :: "memory \<Rightarrow> bool" where
  "pools_kept m \<longleftrightarrow> (\<forall>x d. mm_objects m x = Some d \<longrightarrow> refers m d)"

lemma refers_live:
  assumes "pools_kept m" "mm_objects m y = Some e" "da_pool e = Some q"
  shows "live_of pool_class m q"
proof -
  from assms(1,2) have "refers m e" by (auto simp: pools_kept_def)
  with assms(3) show ?thesis by (simp add: refers_def)
qed

lemma reads_eq:
  assumes "reads m' y = reads m y"
  shows "mm_objects m' y = mm_objects m y"
    and "mm_objects m y = Some d \<Longrightarrow> da_ptr d = At a \<Longrightarrow> da_class d \<noteq> array_class \<Longrightarrow> mm_cells m' a = mm_cells m a"
proof -
  show objs: "mm_objects m' y = mm_objects m y"
    using assms by (auto simp: reads_def map_option_case split: option.splits)
  assume d: "mm_objects m y = Some d" "da_ptr d = At a" "da_class d \<noteq> array_class"
  with assms objs have "mm_cells m' |` owns m' d = mm_cells m |` owns m d" by (simp add: reads_def)
  moreover have "a \<in> owns m d" "a \<in> owns m' d" using d by (simp_all add: owns_def)
  ultimately show "mm_cells m' a = mm_cells m a" by (metis restrict_in)
qed

lemma refers_same:
  assumes kept: "refers m d" and d: "mm_objects m y = Some d" "reads m' y = reads m y"
    and pools: "\<And>q. da_pool d = Some q \<Longrightarrow> reads m' q = reads m q"
  shows "refers m' d"
  unfolding refers_def
proof (intro allI impI conjI)
  fix q assume q: "da_pool d = Some q"
  with pools have objs: "mm_objects m' q = mm_objects m q" by (blast intro: reads_eq(1))
  with kept q show "live_of pool_class m' q" by (simp add: refers_def live_of_def)
  assume t: "da_class d = table_class"
  with kept q obtain a p h where "da_ptr d = At a" "mm_cells m a = Some (Table_cell (Some (p, h)))" "struct_of q m = Some (At p)"
    by (auto simp: refers_def)
  with objs reads_eq(2) [OF d(2,1)] t
  show "\<exists>a p h. da_ptr d = At a \<and> mm_cells m' a = Some (Table_cell (Some (p, h))) \<and> struct_of q m' = Some (At p)"
    by (simp add: struct_of_def)
qed

lemma collect_keeps:
  assumes "memory_ok m" "pools_kept m" "garbage m xs" "sweep free_data xs m = Some m'"
  shows "memory_ok m' \<and> pools_kept m'"
proof -
  from assms have g: "distinct xs" "\<forall>x \<in> set xs. mm_objects m x \<noteq> None" by (simp_all add: garbage_def)
  note k = gc.sweep_keeps [OF assms(1) g assms(4)]
  have "refers m' d" if d: "mm_objects m' y = Some d" for y d
  proof (rule refers_same)
    from k d have same: "reads m' y = reads m y" and out: "y \<notin> set xs" by auto
    then show "reads m' y = reads m y" by simp
    from reads_eq(1) [OF same] d show my: "mm_objects m y = Some d" by simp
    with assms(2) show r: "refers m d" by (auto simp: pools_kept_def)
    fix q assume q: "da_pool d = Some q"
    with assms(3) my out have "q \<notin> set xs" by (auto simp: garbage_def)
    moreover from r q have "mm_objects m q \<noteq> None" by (auto simp: refers_def live_of_def)
    ultimately show "reads m' q = reads m q" using k by blast
  qed
  with k show ?thesis by (simp add: pools_kept_def)
qed

text \<open>A change of one object that is no pool.\<close>

lemma change_keeps:
  assumes ok: "memory_ok m" "pools_kept m"
    and objs: "mm_objects m' = (mm_objects m)(x \<mapsto> d)" and t: "touches (owned m x) m m'"
    and b: "bounded m'" and d: "shaped m' d" "owns m' d \<subseteq> owned m x" "refers m' d"
    and x: "\<not> live_of pool_class m x"
  shows "memory_ok m' \<and> pools_kept m'"
proof -
  from change_one [OF ok(1) objs t b] d have c: "memory_ok m'" "\<forall>y. y \<noteq> x \<longrightarrow> reads m' y = reads m y" by auto
  have "refers m' e" if e: "mm_objects m' y = Some e" for y e
  proof (cases "y = x")
    case True
    with e objs d(3) show ?thesis by simp
  next
    case False
    with e objs have my: "mm_objects m y = Some e" by simp
    with ok(2) have r: "refers m e" by (auto simp: pools_kept_def)
    show ?thesis
    proof (rule refers_same [OF r my])
      show "reads m' y = reads m y" using c(2) False by blast
      fix q assume "da_pool e = Some q"
      with r x have "q \<noteq> x" by (auto simp: refers_def)
      with c(2) show "reads m' q = reads m q" by blast
    qed
  qed
  with c(1) show ?thesis by (simp add: pools_kept_def)
qed

section \<open>Every operation keeps memory in order\<close>

abbreviation in_order :: "memory \<Rightarrow> bool" where
  "in_order m \<equiv> memory_ok m \<and> pools_kept m"

lemmas allocation_defs =
  pool_allocator_def make_apr_pool_def pool_m_init_def table_allocator_def wrap_apr_table_def finfo_allocator_def
  make_finfo_from_struct_def make_apache_def make_apr_array_def new_cell_def create_pool_def wrap_struct_def
  make_request_object_def make_server_object_def make_connection_object_def make_process_object_def Let_def

lemma unused_address:
  assumes "memory_ok m" "mm_next m \<le> a"
  shows "mm_cells m a = None" "\<not> mm_pools m a" "mm_objects m a = None"
  using assms by (auto simp: memory_ok_def bounded_def leD)

lemma allocation_keeps:
  assumes "in_order m" "mm_next m \<le> x" "mm_objects m' = (mm_objects m)(x \<mapsto> d)" "da_pool d = None"
    and "touches {a. mm_next m \<le> a} m m'" "bounded m'" "shaped m' d" "\<And>a. a \<in> owns m' d \<Longrightarrow> mm_next m \<le> a"
  shows "in_order m'"
  using assms unused_address [of m x]
  by (intro change_keeps [of m m' x d]) (auto simp: owned_def live_of_def refers_def)

lemma bounded_add:
  assumes "bounded m" "x < n" "mm_next m \<le> n"
    and "\<And>a. mm_cells m' a \<noteq> None \<Longrightarrow> mm_cells m a \<noteq> None \<or> a < n"
    and "\<And>a. mm_pools m' a \<Longrightarrow> mm_pools m a \<or> a < n"
    and "mm_objects m' = (mm_objects m)(x \<mapsto> d)" "mm_next m' = n"
  shows "bounded m'"
  using assms by (fastforce simp: bounded_def split: if_splits)

lemma cell_allocation:
  assumes ok: "in_order m" and r: "(let (p, m) = new_cell c m in wrap_struct cls p m) = (x, m')"
    and sh: "cls \<noteq> array_class" "shaped m' \<lparr>da_class = cls, da_ptr = At (mm_next m), da_pool = None\<rparr>"
    and c: "\<forall>f. c \<noteq> Wrapper (At f)"
  shows "in_order m' \<and> x = mm_next m + 1 \<and> mm_objects m' x = Some \<lparr>da_class = cls, da_ptr = At (mm_next m), da_pool = None\<rparr> \<and>
    mm_cells m' (mm_next m) = Some c \<and> (\<forall>y. y < mm_next m \<longrightarrow> mm_objects m' y = mm_objects m y)"
proof -
  let ?d = "\<lparr>da_class = cls, da_ptr = At (mm_next m), da_pool = None\<rparr>"
  from r have m': "x = mm_next m + 1"
      "m' = m\<lparr>mm_next := mm_next m + 2, mm_cells := (mm_cells m)(mm_next m \<mapsto> c), mm_objects := (mm_objects m)(mm_next m + 1 \<mapsto> ?d)\<rparr>"
    by (auto simp: new_cell_def wrap_struct_def)
  from ok have b: "bounded m" by (simp add: memory_ok_def)
  have "in_order m'"
  proof (rule allocation_keeps [OF ok, of x _ ?d])
    show "bounded m'" by (rule bounded_add [OF b, of x "mm_next m + 2"]) (simp_all add: m' split: if_splits)
    show "mm_next m \<le> a" if "a \<in> owns m' ?d" for a
      using that c sh(1) by (auto simp: owns_def m' split: slot.splits cell.splits if_splits)
  qed (use sh in \<open>simp_all add: m' touches_def\<close>)
  with m' show ?thesis by simp
qed

lemma class_facts [simp]:
  "''Apache::Request'' \<in> set apache_classes" "''Apache::Server'' \<in> set apache_classes"
  "''Apache::Connection'' \<in> set apache_classes" "''Apache::Process'' \<in> set apache_classes"
  by (simp_all add: apache_classes_def)

lemma make_apache_keeps: "in_order m \<Longrightarrow> cls \<in> set apache_classes \<Longrightarrow> in_order (snd (make_apache cls r m))"
  using cell_allocation [of m "Apache_cell cls r" cls "fst (make_apache cls r m)" "snd (make_apache cls r m)"]
  by (auto simp: make_apache_def new_cell_def wrap_struct_def shaped_def apache_classes_def
      pool_class_def table_class_def finfo_class_def array_class_def)

lemma table_allocation: 
  assumes "in_order m" "wrap_apr_table t m = (x, m')"
  shows "in_order m' \<and> live_of table_class m' x \<and> mm_next m < mm_next m' \<and> (\<forall>y. y < mm_next m \<longrightarrow> mm_objects m' y = mm_objects m y)"
  using cell_allocation [OF assms(1) assms(2) [unfolded wrap_apr_table_def]] assms(2)
  by (auto simp: wrap_apr_table_def new_cell_def wrap_struct_def shaped_def live_of_def)

lemma finfo_allocation:
  assumes "in_order m" "finfo_allocator m = (x, m')"
  shows "in_order m' \<and> live_of finfo_class m' x \<and> mm_next m < mm_next m' \<and> (\<forall>y. y < mm_next m \<longrightarrow> mm_objects m' y = mm_objects m y)"
  using cell_allocation [OF assms(1) assms(2) [unfolded finfo_allocator_def]] assms(2)
  by (auto simp: finfo_allocator_def new_cell_def wrap_struct_def shaped_def live_of_def)

lemma pool_allocation:
  assumes ok: "in_order m" and r: "make_apr_pool m = (x, m')"
  shows "in_order m' \<and> live_of pool_class m' x"
proof -
  let ?d = "\<lparr>da_class = pool_class, da_ptr = At (mm_next m), da_pool = None\<rparr>"
  from r have m': "x = mm_next m + 1"
      "m' = m\<lparr>mm_next := mm_next m + 2, mm_pools := (mm_pools m)(mm_next m := True), mm_objects := (mm_objects m)(mm_next m + 1 \<mapsto> ?d)\<rparr>"
    by (auto simp: allocation_defs)
  from ok have b: "bounded m" by (simp add: memory_ok_def)
  have "mm_cells m (mm_next m) = None" using ok unused_address(1) by blast
  then have "in_order m'"
    by (intro allocation_keeps [OF ok, of x _ ?d] bounded_add [OF b, of x "mm_next m + 2"])
      (simp_all add: m' touches_def shaped_def owns_def split: if_splits)
  with m' show ?thesis by (simp add: live_of_def)
qed

lemma struct_allocation: "in_order m \<Longrightarrow> in_order (snd (make_finfo_from_struct f m))"
proof -
  assume ok: "in_order m"
  let ?m' = "snd (make_finfo_from_struct f m)"
  let ?d = "\<lparr>da_class = finfo_class, da_ptr = At (mm_next m + 1), da_pool = None\<rparr>"
  have m': "?m' = m\<lparr>mm_next := mm_next m + 3, mm_cells := (mm_cells m)(mm_next m \<mapsto> Info_cell (file_info_of f), mm_next m + 1 \<mapsto> Wrapper (At (mm_next m))),
      mm_objects := (mm_objects m)(mm_next m + 2 \<mapsto> ?d)\<rparr>"
    by (simp add: allocation_defs)
  from ok have b: "bounded m" by (simp add: memory_ok_def)
  show "in_order ?m'"
    by (intro allocation_keeps [OF ok, of "mm_next m + 2" _ ?d] bounded_add [OF b, of "mm_next m + 2" "mm_next m + 3"])
      (auto simp: m' touches_def shaped_def owns_def split: if_splits)
qed

lemma array_allocation: "in_order m \<Longrightarrow> in_order (snd (make_apr_array h m))"
proof -
  assume ok: "in_order m"
  let ?m' = "snd (make_apr_array h m)" and ?d = "\<lparr>da_class = array_class, da_ptr = At h, da_pool = None\<rparr>"
  have m': "?m' = m\<lparr>mm_next := mm_next m + 1, mm_objects := (mm_objects m)(mm_next m \<mapsto> ?d)\<rparr>"
    by (simp add: allocation_defs)
  from ok have b: "bounded m" by (simp add: memory_ok_def)
  show "in_order ?m'"
    by (intro allocation_keeps [OF ok, of "mm_next m" _ ?d] bounded_add [OF b, of "mm_next m" "mm_next m + 1"])
      (simp_all add: m' touches_def shaped_def owns_def)
qed

lemma live_pool_arg:
  assumes "in_order m" "live_pool m pool" "pool_arg pool = Inr q"
  obtains e p where "mm_objects m q = Some e" "da_class e = pool_class" "da_ptr e = At p" "mm_pools m p"
proof -
  from assms(2,3) have "live_of pool_class m q"
    by (auto simp: pool_arg_def live_pool_def split: ruby_value.splits if_splits)
  then obtain e where e: "mm_objects m q = Some e" "da_class e = pool_class" by (auto simp: live_of_def)
  moreover from e assms(1) have "shaped m e" by (auto simp: memory_ok_def)
  ultimately show thesis using that by (auto simp: shaped_def)
qed

lemma owned_of [simp]: "mm_objects m x = Some d \<Longrightarrow> owned m x = owns m d \<union> {a. mm_next m \<le> a}"
  by (simp add: owned_def)

lemma table_initialize_keeps:
  assumes ok: "in_order m" and x: "live_of table_class m x" and pool: "live_pool m pool"
  shows "\<exists>e m'. table_initialize x pool h m = Some (e, m') \<and> in_order m'"
proof (cases "pool_arg pool")
  case (Inl e)
  with ok show ?thesis by (simp add: table_initialize_def)
next
  case (Inr q)
  from x obtain d where d: "mm_objects m x = Some d" "da_class d = table_class" by (auto simp: live_of_def)
  with ok have sh: "shaped m d" and b: "bounded m" by (auto simp: memory_ok_def)
  with d obtain t v where t: "da_ptr d = At t" "mm_cells m t = Some (Table_cell v)" by (auto simp: shaped_def)
  obtain e p where e: "mm_objects m q = Some e" "da_class e = pool_class" "da_ptr e = At p" "mm_pools m p"
    using live_pool_arg [OF ok pool Inr] .
  with d have "q \<noteq> x" by auto
  let ?d = "d\<lparr>da_pool := Some q\<rparr>"
  let ?m' = "m\<lparr>mm_objects := (mm_objects m)(x \<mapsto> ?d), mm_cells := (mm_cells m)(t \<mapsto> Table_cell (Some (p, h)))\<rparr>"
  have run: "table_initialize x pool h m = Some (None, ?m')"
    using Inr d t e \<open>q \<noteq> x\<close> by (simp add: table_initialize_def set_pool_ivar_def struct_of_def)
  have "in_order ?m'"
  proof (rule change_keeps)
    show "touches (owned m x) m ?m'" using d t by (simp add: touches_def owns_def)
    show "bounded ?m'" using b d t by (auto simp: bounded_def)
    show "shaped ?m' ?d" using d t by (simp add: shaped_def)
    show "owns ?m' ?d \<subseteq> owned m x" using d t by (simp add: owns_def)
    show "refers ?m' ?d" using d t e \<open>q \<noteq> x\<close> by (simp add: refers_def live_of_def struct_of_def)
    show "\<not> live_of pool_class m x" using d by (simp add: live_of_def)
  qed (use ok in simp_all)
  with run show ?thesis by blast
qed

lemma finfo_initialize_keeps:
  assumes ok: "in_order m" and x: "live_of finfo_class m x" and pool: "live_pool m pool"
  shows "\<exists>e m'. finfo_initialize S x path pool flags m = Some (e, m') \<and> in_order m'"
proof (cases "and_then (string_arg path) (\<lambda>p. and_then (data_arg pool) (\<lambda>_. and_then (fixnum_check flags) (\<lambda>_.
             and_then (pool_arg pool) (\<lambda>q. Inr (p, q)))))")
  case (Inl e)
  with ok show ?thesis by (simp add: finfo_initialize_def)
next
  case args: (Inr v)
  obtain path' q where v: "v = (path', q)" by fastforce
  with args have q: "pool_arg pool = Inr q" by (auto simp: and_then_Inr)
  from x obtain d where d: "mm_objects m x = Some d" "da_class d = finfo_class" by (auto simp: live_of_def)
  with ok have sh: "shaped m d" and b: "bounded m" by (auto simp: memory_ok_def)
  with d obtain w f where w: "da_ptr d = At w" "mm_cells m w = Some (Wrapper f)" "f \<noteq> Null" "f \<noteq> At w"
      "\<forall>a. f = At a \<longrightarrow> (\<exists>i. mm_cells m a = Some (Info_cell i))"
    by (auto simp: shaped_def)
  have below: "w < mm_next m" using b w(2) by (auto simp: bounded_def)
  obtain e p where e: "mm_objects m q = Some e" "da_class e = pool_class" "da_ptr e = At p" "mm_pools m p"
    using live_pool_arg [OF ok pool q] .
  with d have "q \<noteq> x" by auto
  let ?d = "d\<lparr>da_pool := Some q\<rparr>"
  let ?m1 = "m\<lparr>mm_objects := (mm_objects m)(x \<mapsto> ?d)\<rparr>"
  have ivar: "set_pool_ivar x q m = ?m1" using d by (simp add: set_pool_ivar_def)
  have refs: "refers m' ?d" if "mm_objects m' q = Some e" for m'
    using d e that by (simp add: refers_def live_of_def)
  show ?thesis
  proof (cases "fixnum_arg flags")
    case (Inl err)
    have "in_order ?m1"
    proof (rule change_keeps)
      show "bounded ?m1" using b d by (auto simp: bounded_def)
      show "shaped ?m1 ?d" using d w by (simp add: shaped_def)
      show "owns ?m1 ?d \<subseteq> owned m x" using d w by (auto simp: owns_def)
      show "\<not> live_of pool_class m x" using d by (simp add: live_of_def)
    qed (use ok e \<open>q \<noteq> x\<close> in \<open>simp_all add: touches_def refs\<close>)
    with args v Inl ivar show ?thesis by (simp add: finfo_initialize_def)
  next
    case (Inr n)
    let ?c = "Info_cell (stat_file S path' (word_of_int n))"
    let ?m2 = "?m1\<lparr>mm_next := mm_next m + 1, mm_cells := (mm_cells m)(mm_next m \<mapsto> ?c, w \<mapsto> Wrapper (At (mm_next m)))\<rparr>"
    have run: "finfo_initialize S x path pool flags m = Some (None, ?m2)"
      using args v Inr ivar d w below by (simp add: finfo_initialize_def new_cell_def struct_of_def)
    have "in_order ?m2"
    proof (rule change_keeps)
      show "touches (owned m x) m ?m2" using d w by (simp add: touches_def owns_def)
      show "bounded ?m2" using b d below by (auto simp: bounded_def less_Suc_eq)
      show "shaped ?m2 ?d" using d w below by (auto simp: shaped_def)
      show "owns ?m2 ?d \<subseteq> owned m x" using d w by (auto simp: owns_def)
      show "\<not> live_of pool_class m x" using d by (simp add: live_of_def)
    qed (use ok e \<open>q \<noteq> x\<close> in \<open>simp_all add: refs\<close>)
    with run show ?thesis by blast
  qed
qed

lemma live_pool_later:
  assumes "in_order m" "live_pool m v" "\<forall>y. y < mm_next m \<longrightarrow> mm_objects m' y = mm_objects m y"
  shows "live_pool m' v"
  unfolding live_pool_def
proof (intro allI impI)
  fix q assume "v = Obj pool_class q"
  with assms(2) obtain d where d: "mm_objects m q = Some d" "da_class d = pool_class" by (auto simp: live_pool_def live_of_def)
  with assms(1) have "q < mm_next m" by (auto simp: memory_ok_def bounded_def)
  with assms(3) d show "live_of pool_class m' q" by (simp add: live_of_def)
qed

lemma step_keeps:
  assumes ok: "in_order m" and p: "possible m p"
  shows "\<exists>m'. wrap_step S p m = Some m' \<and> in_order m'"
proof (cases p)
  case New_pool
  obtain x m' where "make_apr_pool m = (x, m')" by fastforce
  with pool_allocation [OF ok this] New_pool show ?thesis
    by (simp add: make_apr_pool_def pool_allocator_def Let_def split: prod.splits)
next
  case (New_table pool h)
  obtain x m1 where x: "wrap_apr_table None m = (x, m1)" by fastforce
  with table_allocation [OF ok x] p New_table live_pool_later [OF ok]
  obtain e m' where "table_initialize x pool h m1 = Some (e, m')" "in_order m'"
    using table_initialize_keeps [of m1 x pool h] by fastforce
  with x New_table show ?thesis by (simp add: wrap_apr_table_def table_allocator_def)
next
  case (Initialize_table x pool h)
  with p table_initialize_keeps [OF ok, of x pool h] show ?thesis by fastforce
next
  case (Make_table t)
  with table_allocation [OF ok, of t "fst (wrap_apr_table t m)"] show ?thesis by fastforce
next
  case (New_file_info as)
  with p finfo_allocation [OF ok, of "fst (finfo_allocator m)"] show ?thesis by fastforce
next
  case (Stat path flags)
  obtain q m1 where q: "make_apr_pool m = (q, m1)" by fastforce
  obtain x m2 where x: "finfo_allocator m1 = (x, m2)" by fastforce
  from pool_allocation [OF ok q] have k1: "in_order m1" "live_pool m1 (Obj pool_class q)" by (simp_all add: live_pool_def)
  from finfo_allocation [OF k1(1) x] have k2: "in_order m2" "live_of finfo_class m2 x" by simp_all
  from finfo_initialize_keeps [OF k2 live_pool_later [OF k1]] finfo_allocation [OF k1(1) x]
  obtain e m' where "finfo_initialize S x path (Obj pool_class q) flags m2 = Some (e, m')" "in_order m'" by blast
  with q x Stat show ?thesis by (simp add: make_file_info_def finfo_allocator_def Let_def split: prod.splits)
next
  case (Info_from_struct f)
  with struct_allocation [OF ok] show ?thesis by simp
next
  case (Make_array h)
  with array_allocation [OF ok] show ?thesis by simp
qed (use make_apache_keeps [OF ok] in \<open>simp_all add: make_request_object_def make_server_object_def
      make_connection_object_def make_process_object_def\<close>)

lemma new_table_refers:
  assumes ok: "in_order m" and q: "live_of pool_class m q" and new: "wrap_step S (New_table (Obj pool_class q) h) m = Some m'"
  shows "\<exists>y e. mm_objects m y = None \<and> mm_objects m' y = Some e \<and> da_class e = table_class \<and> da_pool e = Some q"
proof -
  have "live_pool m (Obj pool_class q)" "pool_arg (Obj pool_class q) = Inr q"
    using q by (simp_all add: live_pool_def pool_arg_def)
  from live_pool_arg [OF ok this] obtain e p where e: "mm_objects m q = Some e" "da_ptr e = At p" by metis
  with ok have "q < mm_next m" by (auto simp: memory_ok_def bounded_def)
  with new e have "mm_objects m' (mm_next m + 1) = Some \<lparr>da_class = table_class, da_ptr = At (mm_next m), da_pool = Some q\<rparr>"
    by (auto simp: allocation_defs table_initialize_def pool_arg_def set_pool_ivar_def struct_of_def)
  moreover have "mm_objects m (mm_next m + 1) = None" using ok unused_address(3) by simp
  ultimately show ?thesis by fastforce
qed

lemma fresh_in_order: "in_order fresh_memory"
  by (simp add: fresh_memory_def memory_ok_def bounded_def pools_kept_def)

lemma run_in_order: "wrap_run S m \<Longrightarrow> in_order m"
proof (induction rule: wrap_run.induct)
  case (step m p m')
  then show ?case using step_keeps [of m p S] by auto
next
  case (collect m xs m')
  then show ?case using collect_keeps by blast
qed (rule fresh_in_order)

section \<open>The collector is safe, but for files that could not be looked at\<close>

text \<open>
  C5. Memory of wrapped objects: after any operations and collections, every operation is
  defined; the collection of any garbage, in any order, is defined, so that nothing is deleted twice and no
  structure that another object uses, exactly if it has no FileInfo whose \<open>initialize\<close> did not come to its
  end, whose pointer was never written; a new table refers to the pool it is made in, and the pool that a table
  refers to is alive and is the one it is in, as long as the table is.
\<close>

theorem wrapped_memory_safe:
  assumes run: "wrap_run S m"
  shows "(possible m p \<longrightarrow> wrap_step S p m \<noteq> None) \<and>
    (garbage m xs \<longrightarrow>
      (sweep free_data xs m \<noteq> None \<longleftrightarrow> (\<forall>x \<in> set xs. \<forall>d. mm_objects m x = Some d \<longrightarrow> \<not> half_made m d))) \<and>
    (live_of pool_class m q \<and> wrap_step S (New_table (Obj pool_class q) h) m = Some m' \<longrightarrow>
      (\<exists>y e. mm_objects m y = None \<and> mm_objects m' y = Some e \<and> da_class e = table_class \<and> da_pool e = Some q)) \<and>
    (mm_objects m x = Some d \<and> da_class d = table_class \<and> da_pool d = Some q \<longrightarrow>
      (\<exists>t a h. da_ptr d = At t \<and> mm_cells m t = Some (Table_cell (Some (a, h))) \<and> mm_pools m a))"
proof (intro conjI impI)
  from run have ok: "in_order m" by (rule run_in_order)
  show "wrap_step S p m \<noteq> None" if "possible m p"
    using step_keeps [OF ok that, of S] by auto
  show "sweep free_data xs m \<noteq> None \<longleftrightarrow> (\<forall>x \<in> set xs. \<forall>d. mm_objects m x = Some d \<longrightarrow> \<not> half_made m d)"
    if g: "garbage m xs"
  proof -
    from g have "\<forall>x \<in> set xs. mm_objects m x \<noteq> None" "distinct xs" by (simp_all add: garbage_def)
    with gc.sweep_defined [of m xs] ok have "sweep free_data xs m \<noteq> None \<longleftrightarrow> (\<forall>x \<in> set xs. sound_read (reads m x))" by simp
    with \<open>\<forall>x \<in> set xs. mm_objects m x \<noteq> None\<close> sound_read_eq show ?thesis by fastforce
  qed
  show "\<exists>y e. mm_objects m y = None \<and> mm_objects m' y = Some e \<and> da_class e = table_class \<and> da_pool e = Some q"
    if "live_of pool_class m q \<and> wrap_step S (New_table (Obj pool_class q) h) m = Some m'"
    using new_table_refers [OF ok, of q S h m'] that by blast
  assume d: "mm_objects m x = Some d \<and> da_class d = table_class \<and> da_pool d = Some q"
  with ok have "refers m d" by (auto simp: pools_kept_def)
  with d obtain t a h where t: "da_ptr d = At t" "mm_cells m t = Some (Table_cell (Some (a, h)))" "struct_of q m = Some (At a)"
      "live_of pool_class m q"
    by (auto simp: refers_def)
  then obtain e where "mm_objects m q = Some e" "da_class e = pool_class" "da_ptr e = At a" by (auto simp: live_of_def struct_of_def)
  moreover from this ok have "shaped m e" by (auto simp: memory_ok_def)
  ultimately have "mm_pools m a" by (auto simp: shaped_def)
  with t show "\<exists>t a h. da_ptr d = At t \<and> mm_cells m t = Some (Table_cell (Some (a, h))) \<and> mm_pools m a" by blast
qed

text \<open>A file system where every file is empty, for the examples.\<close>

definition no_stat :: stat_api where
  "no_stat path flags st = (APR_SUCCESS, st)"

theorem wrapped_memory_safe_witness:
  "\<exists>m. wrap_run no_stat m \<and> possible m (Stat (Str ''f'') (Fixnum 0)) \<and> garbage m [1, 3] \<and> sweep free_data [1, 3] m \<noteq> None \<and>
    (\<exists>t a h d. mm_objects m 3 = Some d \<and> da_ptr d = At t \<and> mm_cells m t = Some (Table_cell (Some (a, h))) \<and> mm_pools m a)"
proof -
  define m1 where "m1 = snd (pool_allocator fresh_memory)"
  define d where "d = \<lparr>da_class = table_class, da_ptr = At 2, da_pool = Some 1\<rparr>"
  obtain m where m: "wrap_step no_stat (New_table (Obj pool_class 1) 7) m1 = Some m"
    and objs: "mm_objects m = [1 \<mapsto> \<lparr>da_class = pool_class, da_ptr = At 0, da_pool = None\<rparr>, 3 \<mapsto> d]"
    by (auto simp: m1_def d_def fresh_memory_def allocation_defs table_initialize_def pool_arg_def set_pool_ivar_def
        struct_of_def eval_nat_numeral)
  have "wrap_run no_stat m1" using wrap_run.step [OF wrap_run.start, of New_pool no_stat m1] by (simp add: m1_def)
  moreover have "possible m1 (New_table (Obj pool_class 1) 7)"
    by (simp add: m1_def live_pool_def live_of_def fresh_memory_def allocation_defs)
  ultimately have run: "wrap_run no_stat m" using m by (rule wrap_run.step)
  have g: "garbage m [1, 3]" by (auto simp: garbage_def objs)
  have w: "possible m (Stat (Str ''f'') (Fixnum 0))" "mm_objects m 3 = Some d \<and> da_class d = table_class \<and> da_pool d = Some 1"
    "\<forall>x \<in> set [1, 3]. \<forall>d. mm_objects m x = Some d \<longrightarrow> \<not> half_made m d"
    by (simp_all add: objs d_def half_made_def)
  from wrapped_memory_safe [OF run, where p = "Stat (Str ''f'') (Fixnum 0)" and xs = "[1, 3]" and x = 3 and d = d and q = 1] run g w
  show ?thesis by blast
qed

lemma half_made_collected:
  assumes "mm_objects m x = Some d" "half_made m d"
  shows "sweep free_data (x # xs) m = None"
  using assms by (auto simp: free_data_def deallocator_def half_made_def finfo_deallocator_def delete_cell_def
      finfo_class_def pool_class_def table_class_def)

lemma new_garbage:
  assumes ok: "in_order m" and x: "mm_next m \<le> x" "mm_objects m' x \<noteq> None"
    and old: "\<forall>y e. y \<noteq> x \<longrightarrow> mm_objects m' y = Some e \<longrightarrow> mm_objects m y = Some e \<or> da_pool e = None"
  shows "garbage m' [x]"
proof -
  have "q \<noteq> x" if "mm_objects m y = Some e" "da_pool e = Some q" for y e q
  proof -
    from ok refers_live [OF _ that] have "mm_objects m q \<noteq> None" by (auto simp: live_of_def)
    with ok x(1) show ?thesis by (auto simp: memory_ok_def bounded_def)
  qed
  with x(2) old show ?thesis unfolding garbage_def by (auto; fastforce)
qed

lemma stat_out_of_range:
  assumes "\<not> in_i32 n"
  shows "wrap_step S (Stat (Str path) (Fixnum n)) m = Some
    (m\<lparr>mm_next := mm_next m + 4, mm_pools := (mm_pools m)(mm_next m := True),
       mm_cells := (mm_cells m)(mm_next m + 2 \<mapsto> Wrapper Indeterminate),
       mm_objects := (mm_objects m)(mm_next m + 1 \<mapsto> \<lparr>da_class = pool_class, da_ptr = At (mm_next m), da_pool = None\<rparr>,
         mm_next m + 3 \<mapsto> \<lparr>da_class = finfo_class, da_ptr = At (mm_next m + 2), da_pool = Some (mm_next m + 1)\<rparr>)\<rparr>)"
  using assms
  by (simp add: make_file_info_def finfo_initialize_def data_arg_def fixnum_check_def pool_arg_def set_pool_ivar_def
      allocation_defs numeral_eq_Suc)

text \<open>
  C16. A FileInfo whose creation raised is collected through a pointer that was never written: \<open>FileInfo.new\<close>
  raises for every number of arguments but two (and with two calls a function of three parameters), and
  \<open>APR.stat\<close> raises for flags outside the range of an int. Each leaves an object behind that nothing refers
  to, and whose collection is undefined.
\<close>

theorem failed_file_info_wild_delete:
  assumes "wrap_run S m"
    and "wrap_step S (New_file_info as) m = Some m' \<or>
      \<not> in_i32 n \<and> wrap_step S (Stat (Str path) (Fixnum n)) m = Some m'"
  shows "wrap_run S m' \<and> (\<exists>x. mm_objects m x = None \<and> garbage m' [x] \<and> sweep free_data [x] m' = None)"
proof -
  from assms(1) have ok: "in_order m" by (rule run_in_order)
  show ?thesis using assms(2)
  proof
    assume s: "wrap_step S (New_file_info as) m = Some m'"
    then have as: "length as \<noteq> 2" and m': "m' = snd (finfo_allocator m)" by (auto split: if_splits)
    let ?x = "mm_next m + 1" and ?d = "\<lparr>da_class = finfo_class, da_ptr = At (mm_next m), da_pool = None\<rparr>"
    have d: "mm_objects m' ?x = Some ?d" "half_made m' ?d" "\<forall>y. y \<noteq> ?x \<longrightarrow> mm_objects m' y = mm_objects m y"
      by (simp_all add: m' allocation_defs half_made_def)
    have "garbage m' [?x]" by (rule new_garbage [OF ok]) (use d in auto)
    moreover have "mm_objects m ?x = None" using ok unused_address(3) by simp
    moreover have "wrap_run S m'" by (rule wrap_run.step [OF assms(1) _ s]) (simp add: as)
    ultimately show ?thesis using half_made_collected [OF d(1,2)] by blast
  next
    assume s: "\<not> in_i32 n \<and> wrap_step S (Stat (Str path) (Fixnum n)) m = Some m'"
    let ?q = "mm_next m + 1" and ?x = "mm_next m + 3"
    let ?d = "\<lparr>da_class = finfo_class, da_ptr = At (mm_next m + 2), da_pool = Some ?q\<rparr>"
    from s have m': "mm_cells m' = (mm_cells m)(mm_next m + 2 \<mapsto> Wrapper Indeterminate)"
      "mm_objects m' = (mm_objects m)(?q \<mapsto> \<lparr>da_class = pool_class, da_ptr = At (mm_next m), da_pool = None\<rparr>, ?x \<mapsto> ?d)"
      using stat_out_of_range [of n S path m] by (auto simp del: wrap_step.simps)
    then have d: "mm_objects m' ?x = Some ?d" "half_made m' ?d"
      "\<forall>y. y \<noteq> ?x \<longrightarrow> y \<noteq> ?q \<longrightarrow> mm_objects m' y = mm_objects m y" "\<forall>e. mm_objects m' ?q = Some e \<longrightarrow> da_pool e = None"
      by (simp_all add: half_made_def)
    have "garbage m' [?x]"
    proof (rule new_garbage [OF ok])
      show "\<forall>y e. y \<noteq> ?x \<longrightarrow> mm_objects m' y = Some e \<longrightarrow> mm_objects m y = Some e \<or> da_pool e = None"
        using d(3,4) by (metis (no_types))
    qed (use d(1) in auto)
    moreover have "mm_objects m ?x = None" using ok unused_address(3) by simp
    moreover have "wrap_run S m'" by (rule wrap_run.step [OF assms(1) _ conjunct2 [OF s]]) simp
    ultimately show ?thesis using half_made_collected [OF d(1,2)] by blast
  qed
qed

theorem failed_file_info_wild_delete_witness:
  "\<exists>m'. wrap_run no_stat m' \<and> (\<exists>x. garbage m' [x] \<and> sweep free_data [x] m' = None)"
proof -
  obtain m' where "wrap_step no_stat (New_file_info []) fresh_memory = Some m'" by simp
  with failed_file_info_wild_delete [OF wrap_run.start, of no_stat "[]" m' 0 "[]"] show ?thesis by blast
qed

end
