(* ===== verification/Apr_Pools.thy ===== *)
theory Apr_Pools
  imports Wrapped_Objects Request_Output
begin

text \<open>
  The rest of apr.cpp: pools of a scope, and their use by \<open>send_file\<close>; the text of an error, temporary files
  and the accessors of a file information. APR is a parameter again.
\<close>

section \<open>Resources of a scope\<close>

text \<open>
  A resource that is acquired where a scope begins and released where it ends: if what happens inside leaves
  what is held alone, so does the scope as a whole.
\<close>

definition in_scope :: "('s \<Rightarrow> ('h \<times> 's) option) \<Rightarrow> ('h \<Rightarrow> 's \<Rightarrow> 's option) \<Rightarrow> ('h \<Rightarrow> 's \<Rightarrow> ('a \<times> 's) option) \<Rightarrow> 's \<Rightarrow> ('a \<times> 's) option" where
  "in_scope enter leave block s =
     Option.bind (enter s) (\<lambda>(h, s).
     Option.bind (block h s) (\<lambda>(x, s).
     Option.bind (leave h s) (\<lambda>s. Some (x, s))))"

locale scope =
  fixes enter :: "'s \<Rightarrow> ('h \<times> 's) option"
    and leave :: "'h \<Rightarrow> 's \<Rightarrow> 's option"
    and held :: "'s \<Rightarrow> 'k"
    and inv :: "'s \<Rightarrow> bool"
  assumes enters: "inv s \<Longrightarrow> \<exists>h s'. enter s = Some (h, s')"
    and leaves: "inv s \<Longrightarrow> enter s = Some (h, s1) \<Longrightarrow> held s2 = held s1 \<Longrightarrow> \<exists>s3. leave h s2 = Some s3 \<and> held s3 = held s"
begin

lemma balanced:
  assumes "inv s"
    and "\<And>h s1. enter s = Some (h, s1) \<Longrightarrow> \<exists>s2. block h s1 = Some (x, s2) \<and> held s2 = held s1"
  shows "\<exists>s'. in_scope enter leave block s = Some (x, s') \<and> held s' = held s"
proof -
  obtain h s1 where s1: "enter s = Some (h, s1)" using enters [OF assms(1)] by blast
  then obtain s2 where s2: "block h s1 = Some (x, s2)" "held s2 = held s1" using assms(2) by blast
  then obtain s3 where "leave h s2 = Some s3" "held s3 = held s" using leaves [OF assms(1) s1] by blast
  with s1 s2(1) show ?thesis by (simp add: in_scope_def)
qed

end

section \<open>Pools\<close>

text \<open>
  \<open>pool()\<close> gives the global pool, and is undefined when that is gone. A \<open>subpool\<close> is a pool from its
  constructor to its destructor, which C++ runs at the end of its scope, whichever \<open>return\<close> ends it.
\<close>

definition apr_global_pool :: "apr_library \<Rightarrow> unit option" where
  "apr_global_pool L = (if al_pool_alive L then Some () else None)"

definition subpool_init :: "apr_library \<Rightarrow> memory \<Rightarrow> (slot \<times> memory) option" where
  "subpool_init L m = Option.bind (apr_global_pool L) (\<lambda>_. Some (create_pool m))"

definition subpool_init_in :: "nat \<Rightarrow> memory \<Rightarrow> (slot \<times> memory) option" where
  "subpool_init_in p m = (if mm_pools m p then Some (create_pool m) else None)"

definition subpool_destroy :: "slot \<Rightarrow> memory \<Rightarrow> memory option" where
  "subpool_destroy h m = (case h of At p \<Rightarrow> destroy_pool p m | _ \<Rightarrow> None)"

lemma pool_given_back:
  assumes "memory_ok m" "mm_pools m2 = (mm_pools m)(mm_next m := True)"
  shows "\<exists>m3. subpool_destroy (At (mm_next m)) m2 = Some m3 \<and> mm_pools m3 = mm_pools m"
  using assms(2) unused_address(2) [OF assms(1), of "mm_next m"]
  by (simp add: subpool_destroy_def destroy_pool_def fun_upd_idem_iff)

interpretation subpool: scope "subpool_init L" subpool_destroy mm_pools "\<lambda>m. al_pool_alive L \<and> memory_ok m"
  by unfold_locales
    (auto simp: subpool_init_def apr_global_pool_def create_pool_def intro: pool_given_back)

interpretation pool_in: scope "subpool_init_in p" subpool_destroy mm_pools "\<lambda>m. mm_pools m p \<and> memory_ok m"
  by unfold_locales
    (auto simp: subpool_init_in_def create_pool_def intro: pool_given_back)

text \<open>The library's own count: \<open>init\<close> and \<open>destroy\<close> around a use of it.\<close>

interpretation library: scope "\<lambda>L. Some ((), apr_init L)" "\<lambda>_ L. Some (apr_destroy L)" al_refcount "\<lambda>_. True"
  by unfold_locales (auto simp: apr_init_def apr_destroy_def Let_def split: if_splits)

text \<open>\<open>send_file\<close> with its subpool: every one of its returns gives the pool back.\<close>

definition send_file_block :: "stat_api \<Rightarrow> 'c ap_api \<Rightarrow> string \<Rightarrow> request_rec \<Rightarrow> 'c \<Rightarrow> slot \<Rightarrow> memory \<Rightarrow>
    ((int \<times> request_rec \<times> 'c) \<times> memory) option" where
  "send_file_block S P path rr c h m = Some (send_file S P path rr c, m)"

definition send_file_scoped :: "apr_library \<Rightarrow> stat_api \<Rightarrow> 'c ap_api \<Rightarrow> string \<Rightarrow> request_rec \<Rightarrow> 'c \<Rightarrow> memory \<Rightarrow>
    ((int \<times> request_rec \<times> 'c) \<times> memory) option" where
  "send_file_scoped L S P path rr c m = in_scope (subpool_init L) subpool_destroy (send_file_block S P path rr c) m"

lemma send_file_balanced:
  assumes "al_pool_alive L" "memory_ok m"
  shows "\<exists>m'. send_file_scoped L S P path rr c m = Some (send_file S P path rr c, m') \<and> mm_pools m' = mm_pools m"
  unfolding send_file_scoped_def by (rule subpool.balanced) (use assms in \<open>simp_all add: send_file_block_def\<close>)

section \<open>Errors and temporary files\<close>

text \<open>
  \<open>str_error\<close> reads back the buffer of 256 bytes that \<open>apr_strerror\<close> fills: with a text that does not leave
  room for its NUL the read runs out of the buffer.
\<close>

definition str_error :: "(int \<Rightarrow> nat \<Rightarrow> string) \<Rightarrow> int \<Rightarrow> string option" where
  "str_error apr_strerror rv =
     (let buf = apr_strerror rv 256 in if NUL \<in> set (take 256 buf) then Some (c_str buf) else None)"

lemma str_error_bounded:
  "str_error F rv = Some s \<Longrightarrow> length s < 256"
proof -
  assume "str_error F rv = Some s"
  then have "NUL \<in> set (take 256 (F rv 256))" "s = c_str (F rv 256)" by (auto simp: str_error_def Let_def split: if_splits)
  moreover from this obtain i where i: "i < 256" "i < length (F rv 256)" "F rv 256 ! i = NUL"
    by (auto simp: in_set_conv_nth)
  have "length (takeWhile (\<lambda>c. c \<noteq> NUL) (F rv 256)) \<le> i"
  proof (rule ccontr)
    assume "\<not> ?thesis"
    then have "takeWhile (\<lambda>c. c \<noteq> NUL) (F rv 256) ! i = NUL" "i < length (takeWhile (\<lambda>c. c \<noteq> NUL) (F rv 256))"
      using i(3) by (simp_all add: takeWhile_nth)
    then show False by (metis (mono_tags, lifting) nth_mem set_takeWhileD)
  qed
  ultimately show "length s < 256" using i(1) by (simp add: c_str_def)
qed

text \<open>\<open>fp\<close> is set by \<open>apr_file_mktemp\<close> only when it succeeds; its result is not looked at.\<close>

definition tempfile :: "(string \<Rightarrow> int \<Rightarrow> 'f \<Rightarrow> int \<times> nat \<times> 'f) \<Rightarrow> string \<Rightarrow> int \<Rightarrow> 'f \<Rightarrow> slot \<times> 'f" where
  "tempfile mktemp name flags fs =
     (case mktemp (name @ ''XXXXXX'') flags fs of
        (rc, fp, fs) \<Rightarrow> (if rc = APR_SUCCESS then At fp else Indeterminate, fs))"

definition file_name :: "('x \<Rightarrow> c_ptr) \<Rightarrow> 'x \<Rightarrow> c_ptr" where
  "file_name apr_file_name_get file = apr_file_name_get file"

text \<open>\<open>stat\<close> of an open file and of a path.\<close>

definition stat_of_file :: "stat_api \<Rightarrow> ('x \<Rightarrow> c_ptr) \<Rightarrow> 'x \<Rightarrow> u32 \<Rightarrow> file_info option" where
  "stat_of_file apr_stat apr_file_name_get file want_flags =
     map_option (\<lambda>name. stat_file apr_stat name want_flags) (file_name apr_file_name_get file)"

section \<open>Accessors of a file information\<close>

definition file_info_type :: "file_info \<Rightarrow> int" where "file_info_type f = fi_filetype (fo_stat f)"
definition file_info_uid :: "file_info \<Rightarrow> int" where "file_info_uid f = fi_user (fo_stat f)"
definition file_info_gid :: "file_info \<Rightarrow> int" where "file_info_gid f = fi_group (fo_stat f)"
definition file_info_device :: "file_info \<Rightarrow> int" where "file_info_device f = fi_device (fo_stat f)"
definition file_info_inode :: "file_info \<Rightarrow> int" where "file_info_inode f = fi_inode (fo_stat f)"
definition file_info_nlink :: "file_info \<Rightarrow> int" where "file_info_nlink f = fi_nlink (fo_stat f)"
definition file_info_size :: "file_info \<Rightarrow> int" where "file_info_size f = fi_size (fo_stat f)"
definition file_info_perms :: "file_info \<Rightarrow> int" where "file_info_perms f = fi_protection (fo_stat f)"
definition file_info_csize :: "file_info \<Rightarrow> int" where "file_info_csize f = fi_csize (fo_stat f)"
definition file_info_atime :: "file_info \<Rightarrow> int" where "file_info_atime f = fi_atime (fo_stat f)"
definition file_info_ctime :: "file_info \<Rightarrow> int" where "file_info_ctime f = fi_ctime (fo_stat f)"
definition file_info_mtime :: "file_info \<Rightarrow> int" where "file_info_mtime f = fi_mtime (fo_stat f)"
definition file_info_fname :: "file_info \<Rightarrow> c_ptr" where "file_info_fname f = fi_fname (fo_stat f)"

definition file_info_valid :: "file_info \<Rightarrow> bool" where "file_info_valid f \<longleftrightarrow> fo_valid f"

text \<open>The digests of the file with that name.\<close>

definition file_info_md5 :: "(c_ptr \<Rightarrow> file_read) \<Rightarrow> bool \<Rightarrow> file_info \<Rightarrow> string option" where
  "file_info_md5 disk le f = Option.bind (md5_of_path le md5_new (disk (file_info_fname f))) hash_str"

definition file_info_sha1 :: "(c_ptr \<Rightarrow> file_read) \<Rightarrow> 'c apr_sha1 \<Rightarrow> 'c sha1_state \<Rightarrow> file_info \<Rightarrow> string option" where
  "file_info_sha1 disk apr fresh f =
     map_option (sha1_result \<circ> snd) (hashfile apr fresh (disk (file_info_fname f)))"

text \<open>The Ruby methods answer with these values.\<close>

lemma finfo_methods_use_accessors:
  "finfo_m_size f = (if has_field f APR_FINFO_SIZE then INT2NUM (file_info_size f) else Qnil)"
  "finfo_m_fname f = str_or_nil (file_info_fname f)"
  "finfo_m_md5 disk le = Fn0 (\<lambda>w. Option.bind w (\<lambda>f. map_option (\<lambda>d. Inr (Str (c_str d), w)) (file_info_md5 disk le f)))"
  by (simp_all add: finfo_m_size_def finfo_m_fname_def finfo_m_md5_def file_info_size_def file_info_fname_def
      file_info_md5_def map_conv_bind_option bind_assoc comp_def)

end
