(* ===== verification/Server_Module.thy ===== *)
theory Server_Module
  imports Process_Run Apr_Files
begin

text \<open>
  The module as Apache sees it (mod_ruby.c): the hooks it registers, the functions of its module record, and
  the start and end of a child process.
\<close>

section \<open>Hooks\<close>

datatype hook =
  Ruby_child_init | Ruby_handler | Ruby_rhtml_handler | Ruby_script_handler | Ruby_access_handler

datatype phase = Child_init_phase | Handler_phase | Check_access_phase

definition APR_HOOK_FIRST :: int where "APR_HOOK_FIRST = 0"
definition APR_HOOK_MIDDLE :: int where "APR_HOOK_MIDDLE = 10"

definition register_hooks :: "(phase \<times> hook \<times> int) list" where
  "register_hooks =
     [(Child_init_phase, Ruby_child_init, APR_HOOK_MIDDLE),
      (Handler_phase, Ruby_handler, APR_HOOK_MIDDLE),
      (Handler_phase, Ruby_rhtml_handler, APR_HOOK_MIDDLE),
      (Handler_phase, Ruby_script_handler, APR_HOOK_MIDDLE),
      (Check_access_phase, Ruby_access_handler, APR_HOOK_FIRST)]"

text \<open>The input filter that is registered along with them passes everything on to the next filter.\<close>

definition input_filter :: "('f \<Rightarrow> 'b \<Rightarrow> 'm \<Rightarrow> 'k \<Rightarrow> int \<Rightarrow> int \<times> 'b) \<Rightarrow> ('f \<Rightarrow> 'f) \<Rightarrow> 'f \<Rightarrow> 'b \<Rightarrow> 'm \<Rightarrow> 'k \<Rightarrow> int \<Rightarrow> int \<times> 'b" where
  "input_filter ap_get_brigade next f bb mode block read_bytes = ap_get_brigade (next f) bb mode block read_bytes"

text \<open>Apache orders the hooks of a phase by their numbers, and keeps the order of registration among equals.\<close>

definition hooks_of :: "phase \<Rightarrow> hook list" where
  "hooks_of p = map (fst \<circ> snd) (sort_key (snd \<circ> snd) (filter (\<lambda>(q, h). q = p) register_hooks))"

text \<open>The content handlers are run until one does not decline.\<close>

fun run_first :: "('h \<Rightarrow> 's \<Rightarrow> (int \<times> 's) option) \<Rightarrow> 'h list \<Rightarrow> 's \<Rightarrow> (int \<times> 's) option" where
  "run_first f [] s = Some (DECLINED, s)"
| "run_first f (h # hs) s =
     (case f h s of
        None \<Rightarrow> None
      | Some (res, s) \<Rightarrow> if res \<noteq> DECLINED then Some (res, s) else run_first f hs s)"

text \<open>The functions behind the hooks: \<open>ruby_handler\<close>, \<open>ruby_rhtml_handler\<close>, \<open>ruby_script_handler\<close>, \<open>ruby_access_handler\<close>.\<close>

definition run_hook ::
    "('o, 'w) env \<Rightarrow> 'o option \<Rightarrow> ruby_config \<Rightarrow> ruby_dir_config \<Rightarrow> hook \<Rightarrow> 'o handlers \<times> 'w req \<Rightarrow>
     (int \<times> 'o handlers \<times> 'w req) option" where
  "run_hook E g cfg d h = (\<lambda>(hs, r).
     case h of
       Ruby_handler \<Rightarrow> Some (ruby_request_handler E cfg d hs r)
     | Ruby_rhtml_handler \<Rightarrow> map_option (\<lambda>(res, r). (res, hs, r)) (ruby_request_rhtml_handler E g r)
     | Ruby_script_handler \<Rightarrow> map_option (\<lambda>(res, r). (res, hs, r)) (ruby_request_script_handler E g r)
     | Ruby_access_handler \<Rightarrow> Some (ruby_request_access_handler E cfg d hs r)
     | Ruby_child_init \<Rightarrow> Some (OK, hs, r))"

lemma hooks_of_phases [simp]:
  "hooks_of Handler_phase = [Ruby_handler, Ruby_rhtml_handler, Ruby_script_handler]"
  "hooks_of Check_access_phase = [Ruby_access_handler]"
  "hooks_of Child_init_phase = [Ruby_child_init]"
  by (simp_all add: hooks_of_def register_hooks_def)

text \<open>
  The hooks the module registers, run as Apache runs them, are the content phase: the generic
  handler, then templates, then scripts, the first that does not decline giving the answer; and the
  only check of access is the module's.
\<close>

lemma hooks_run_content_phase:
  "run_first (run_hook E g cfg d) (hooks_of Handler_phase) (hs, r) = content_phase E g cfg d hs r \<and>
   run_first (run_hook E g cfg d) (hooks_of Check_access_phase) (hs, r) = Some (ruby_request_access_handler E cfg d hs r)"
proof
  show "run_first (run_hook E g cfg d) (hooks_of Handler_phase) (hs, r) = content_phase E g cfg d hs r"
    by (auto simp: run_hook_def content_phase_def split: prod.splits option.splits)
  show "run_first (run_hook E g cfg d) (hooks_of Check_access_phase) (hs, r) = Some (ruby_request_access_handler E cfg d hs r)"
    by (auto simp: run_hook_def split: prod.splits)
qed

section \<open>The module record\<close>

text \<open>What \<open>ruby_module\<close> and \<open>_module\<close> hold; there is no function that merges server configurations.\<close>

record module_record =
  create_per_dir :: "c_ptr \<Rightarrow> ruby_dir_config"
  merge_per_dir :: "ruby_dir_config \<Rightarrow> ruby_dir_config \<Rightarrow> ruby_dir_config"
  create_per_server :: ruby_config
  merge_per_server :: "(ruby_config \<Rightarrow> ruby_config \<Rightarrow> ruby_config) option"
  module_hooks :: "(phase \<times> hook \<times> int) list"

definition ruby_module :: "apr_table_api \<Rightarrow> module_record" where
  "ruby_module A =
     \<lparr>create_per_dir = create_dir_conf, merge_per_dir = merge_dir_conf A, create_per_server = create_config,
      merge_per_server = None, module_hooks = register_hooks\<rparr>"

text \<open>The record for the library's name \<open>_module\<close> has the same contents.\<close>

definition exported_module :: "apr_table_api \<Rightarrow> module_record" where
  "exported_module A =
     \<lparr>create_per_dir = create_dir_conf, merge_per_dir = merge_dir_conf A, create_per_server = create_config,
      merge_per_server = None, module_hooks = register_hooks\<rparr>"

section \<open>A child process\<close>

record 'w child =
  ch_state :: "'w module_state"
  ch_cleanup :: bool

text \<open>The result of \<open>ruby_init_module\<close> is ignored; the shutdown is registered as a cleanup of the child's pool.\<close>

definition ruby_child_init_hook ::
    "'w ruby_api \<Rightarrow> ruby_value \<Rightarrow> (string \<Rightarrow> int) \<Rightarrow> 'w module_state \<Rightarrow> 'w child option" where
  "ruby_child_init_hook V encoding apache m =
     map_option (\<lambda>(rc, m). \<lparr>ch_state = m, ch_cleanup = True\<rparr>) (ruby_init_module V encoding apache m)"

definition ruby_child_shutdown :: "'w ruby_api \<Rightarrow> 'w module_state \<Rightarrow> ((thrown + int) \<times> 'w module_state) option" where
  "ruby_child_shutdown V m =
     map_option (\<lambda>(res, m). (map_sum id (\<lambda>_. APR_SUCCESS) res, m)) (ruby_shutdown_module V m)"

section \<open>A start that failed\<close>

lemma init_failed:
  assumes "ruby_init_module V encoding apache m = Some (rc, m')" "rc \<noteq> 0"
  shows "ms_ruby_handler m' = ms_ruby_handler m"
  using assms by (auto simp: ruby_init_module_def Let_def dest!: fatal_error_keeps
      split: option.splits sum.splits prod.splits)

text \<open>
  C15. When the module cannot load or make its own handler, the child serves all the same: the failure is
  logged and its code dropped, and with no handler every request for a template or a script is undefined (a
  call through NULL), while the requests the generic handler takes are served.
\<close>

theorem failed_start_serves:
  assumes "ms_ruby_handler m = None" and "ruby_init_module V encoding apache m = Some (rc, m')" "rc \<noteq> 0"
  shows "ruby_child_init_hook V encoding apache m = Some \<lparr>ch_state = m', ch_cleanup = True\<rparr> \<and>
    (r_handler r \<in> {Some ''ruby-rhtml-handler'', Some ''ruby-script-handler''} \<longrightarrow>
       run_first (run_hook E (ms_ruby_handler m') cfg d) (hooks_of Handler_phase) (hs, r) = None) \<and>
    (r_handler r = Some ''ruby-handler'' \<and> fst (ruby_request_handler E cfg d hs r) \<noteq> DECLINED \<longrightarrow>
       run_first (run_hook E (ms_ruby_handler m') cfg d) (hooks_of Handler_phase) (hs, r) = Some (ruby_request_handler E cfg d hs r))"
proof (intro conjI impI)
  show "ruby_child_init_hook V encoding apache m = Some \<lparr>ch_state = m', ch_cleanup = True\<rparr>"
    using assms(2) by (simp add: ruby_child_init_hook_def)
  have h: "ms_ruby_handler m' = None" using init_failed [OF assms(2,3)] assms(1) by simp
  show "run_first (run_hook E (ms_ruby_handler m') cfg d) (hooks_of Handler_phase) (hs, r) = None"
    if "r_handler r \<in> {Some ''ruby-rhtml-handler'', Some ''ruby-script-handler''}"
    using that by (auto simp: h run_hook_def ruby_request_handler_def ruby_request_rhtml_handler_def
        ruby_request_script_handler_def ruby_generic_handler_def declines_def)
  show "run_first (run_hook E (ms_ruby_handler m') cfg d) (hooks_of Handler_phase) (hs, r) = Some (ruby_request_handler E cfg d hs r)"
    if "r_handler r = Some ''ruby-handler'' \<and> fst (ruby_request_handler E cfg d hs r) \<noteq> DECLINED"
    using that by (auto simp: run_hook_def split: prod.splits)
qed

text \<open>An interpreter in which the module's own Ruby code is missing.\<close>

definition bare_ruby :: "nat ruby_api" where
  "bare_ruby = counting_ruby\<lparr>rb_require := \<lambda>p w.
     (if p = ''modruby/handler'' then Inl \<lparr>rx_class = ''LoadError'', rx_message = ''no such file'', rx_backtrace = Some []\<rparr> else Inr (), w)\<rparr>"

definition new_module :: "nat module_state" where
  "new_module = \<lparr>ms_vm = \<lparr>vm_running = False, vm_objects = None, vm_stdout = [], vm_world = 0\<rparr>, ms_handlers = [],
     ms_ruby_handler = None, ms_constants = [], ms_modules = [], ms_log = [], ms_stderr = []\<rparr>"

theorem failed_start_serves_witness:
  "\<exists>m'. ruby_child_init_hook bare_ruby Qnil (\<lambda>_. 0) new_module = Some \<lparr>ch_state = m', ch_cleanup = True\<rparr> \<and>
    run_first (run_hook (vm_env assoc_table (\<lambda>_. []) id (\<lambda>_ r. r) (\<lambda>_. Qnil) bare_ruby) (ms_ruby_handler m') create_config
      (create_dir_conf None)) (hooks_of Handler_phase)
      (\<lambda>_. None, \<lparr>r_handler = Some ''ruby-rhtml-handler'', r_status = 200, r_notes = [], r_headers_out = [], r_output = [],
         r_log = [], r_world = ms_vm m'\<rparr>) = None"
proof -
  obtain m' where m': "ruby_init_module bare_ruby Qnil (\<lambda>_. 0) new_module = Some (1, m')"
    by (auto simp: ruby_init_module_def startup_def bare_ruby_def counting_ruby_def init_handler_def require_def
        protected_def vm_bind_def new_module_def exception_of_def Let_def fatal_error_def log_error_message_def
        log_message_def c_str_def NUL_def)
  have n: "ms_ruby_handler new_module = None" by (simp add: new_module_def)
  have one: "(1 :: int) \<noteq> 0" by simp
  let ?E = "vm_env assoc_table (\<lambda>_. []) id (\<lambda>_ r. r) (\<lambda>_. Qnil) bare_ruby"
  let ?r = "\<lparr>r_handler = Some ''ruby-rhtml-handler'', r_status = 200, r_notes = [], r_headers_out = [], r_output = [],
    r_log = [], r_world = ms_vm m'\<rparr>"
  have "r_handler ?r \<in> {Some ''ruby-rhtml-handler'', Some ''ruby-script-handler''}" by simp
  with failed_start_serves [OF n m' one, where r = ?r and E = ?E and cfg = create_config and d = "create_dir_conf None"
    and hs = "\<lambda>_. None"] show ?thesis by blast
qed

section \<open>A whole life\<close>



end
