(* ===== verification/Spec2Isabelle.thy ===== *)
theory Spec2Isabelle
  imports ModRuby_Prelude Url_Codec Md5_Core Hash_Stream Md5 Sha1_Endian Rhtml Rhtml_Spec Rhtml_Document
    Ruby_Value Apr_Table Config Dispatch Dispatch_Spec Options_In_Place Request
    Apr_Files Ruby_Binding Ruby_File_Info Ruby_VM Rhtml_Eval Module_Life
    Ruby_Server Request_Output Request_Calls Ruby_Request Configured_Dispatch Process_Run
    Ruby_Tables Wrapped_Objects Apr_Pools Server_Module
begin

text \<open>
  ModRuby is an Apache module that runs Ruby inside the server. This development models its C and C++
  sources, the files directly under \<open>src/src/\<close>, and proves what they promise.

  \<^bold>\<open>The program.\<close> While Apache reads its configuration it calls the directive handlers of mod_ruby.c, which
  fill a server configuration and one option table for each directory, and merge the latter. When a child
  process starts, module.cpp starts the Ruby interpreter (ruby.cpp), registers the Ruby classes (the
  ruby_*.cpp files) and creates the module's own handler object; when the child ends it shuts all handlers
  down. For each request module.cpp merges the configuration into the request's notes, resolves a handler
  (a module to load, a class, a method), creates its object at most once for each process, and calls it; the
  access check, templates (rhtml.lex, rhtml.cpp) and scripts go the same way. Ruby code sees the request
  through Apache::Request (ruby_request.cpp over request.cpp), which decodes forms with util.cpp into APR
  tables (apr_table.cpp), and files through APR (ruby_apr.cpp, ruby_apr_file_info.cpp over apr.cpp, with
  the digests of md5.cpp and sha1.cpp).

  \<^bold>\<open>Theories and sources\<close>, in the order of their imports:

  \<^item> \<open>ModRuby_Prelude\<close>: bytes, C strings and pointers, reads and writes with bounds, list lemmas.
  \<^item> \<open>Url_Codec\<close> (util.cpp, util.hpp): case conversion, splitting, replacing, URL encoding and decoding.
  \<^item> \<open>Hash_Stream\<close>: the interface of the digest classes, a locale with the file loop as its client.
  \<^item> \<open>Md5_Core\<close>, \<open>Md5\<close> (md5.cpp, md5.h): the block transformation, and the context with its operations.
  \<^item> \<open>Sha1_Endian\<close> (sha1.cpp, endian.cpp): hashing over APR's SHA1, byte swapping.
  \<^item> \<open>Rhtml\<close>, \<open>Rhtml_Spec\<close>, \<open>Rhtml_Document\<close> (rhtml.lex, rhtml.cpp, rhtml.h): the scanner's rules with longest
    match, the parser object and the compiler; termination and line numbers; the meaning of its output.
  \<^item> \<open>Ruby_Value\<close>: Ruby values and errors, and the cursor locale behind \<open>while (i.next())\<close>.
  \<^item> \<open>Apr_Table\<close> (apr_table.cpp, ruby_apr_table.cpp, ruby_apr_array.cpp): tables, their iterator, their classes.
  \<^item> \<open>Config\<close> (mod_ruby.c, module.h, common.c): the directives, creation and merging.
  \<^item> \<open>Dispatch\<close>, \<open>Dispatch_Spec\<close> (module.cpp, module.hpp): the request phase and its promises.
  \<^item> \<open>Options_In_Place\<close> (module.cpp, apr_table.cpp): the same configuration of a request on the tables' heap with
    iterator objects, and the refinement that relates it to \<open>Dispatch\<close>.
  \<^item> \<open>Request\<close>, \<open>Request_Output\<close>, \<open>Request_Calls\<close> (request.cpp, request.h): body, forms, lines; the record,
    printing, files; the inline members that write a field or call Apache.
  \<^item> \<open>Apr_Files\<close> (apr.cpp, apr.h): the library's count of users, file operations, recursive removal.
  \<^item> \<open>Ruby_Binding\<close>: conversions, method tables and calls through them, shared by the classes.
  \<^item> \<open>Ruby_File_Info\<close> (ruby_apr_file_info.cpp, ruby_apr.cpp), \<open>Ruby_Server\<close> (ruby_server.cpp, ruby_connection.cpp,
    ruby_process.cpp, server.cpp), \<open>Ruby_Request\<close> (ruby_request.cpp): every method of these classes.
  \<^item> \<open>Ruby_VM\<close> (ruby.cpp, ruby.hpp): registry of live objects, exceptions, protected calls, start and stop.
  \<^item> \<open>Rhtml_Eval\<close> (rhtml.cpp, ruby_rhtml.cpp): running templates, and the module functions of RHTML.
  \<^item> \<open>Module_Life\<close> (module.cpp): start and end of the module in a process.
  \<^item> \<open>Configured_Dispatch\<close>: what the lines of a configuration leave for a request, for the section below.
  \<^item> \<open>Process_Run\<close>: the request phase on top of the interpreter. The locale \<open>registering_env\<close> is what module.cpp
    relies on in ruby.cpp; \<open>vm_env\<close>, made of the functions of \<open>Ruby_VM\<close>, interprets it; \<open>process_run\<close> are the
    states of a process that serves requests.
  \<^item> \<open>Server_Module\<close> (mod_ruby.c): the hooks, the module record, a child process from its start to its end.
  \<^item> \<open>Ruby_Tables\<close> (ruby_apr_table.cpp, ruby_apr_array.cpp, ruby_apr_pool.cpp): the method tables of these classes.
  \<^item> \<open>Wrapped_Objects\<close> (the allocators, deallocators and \<open>make_\<close> functions of all ruby_*.cpp files): the memory
    behind Ruby's objects. \<open>memory\<close> holds the C++ heap, the pools and the objects; the locale \<open>collector\<close> is the
    contract of the deallocators; \<open>wrap_run\<close> are the states after any operations and collections.
  \<^item> \<open>Apr_Pools\<close> (apr.cpp): the locale \<open>scope\<close> for resources of a scope, with \<open>subpool\<close> and the library's count
    as its instances; error texts, temporary files, accessors.

  \<^bold>\<open>How state and results correspond.\<close> A C structure or class is a record with the fields the code uses;
  operations take the state and return it changed, under the name of the C function. A pointer that may be
  NULL is an option; a C string is a list of characters without its NUL; machine words are words, and
  conversions that narrow an int are written out. A C++ or Ruby exception is the left side of a sum. As a
  result of a whole operation \<^const>\<open>None\<close> means that C++ gives the call no meaning (an access out of bounds,
  NULL where a string is needed, a missing argument) or that it does not return. Tables live in a heap and are
  named by handles, as several wrappers share one.

  \<^bold>\<open>What is a parameter.\<close> APR, Apache, Ruby and the operating system are records of functions, arguments of the
  definitions that call them: \<open>apr_table_api\<close> with \<open>apr_table_laws\<close>, \<open>apr_sha1\<close> with \<open>apr_sha1_laws\<close>,
  \<open>client_api\<close> with \<open>client_laws\<close>, and \<open>file_api\<close>, \<open>stat_api\<close>, \<open>ap_api\<close>, \<open>ruby_api\<close>, \<open>env\<close>, of which nothing is
  assumed beyond what a statement says. The laws state documented behaviour; \<open>assoc_table\<close>,
  \<open>chunk_client\<close>, \<open>counting_ruby\<close> and \<open>demo_env\<close> are functions that satisfy them, and the witnesses use them.

  \<^bold>\<open>What the lemmas show.\<close> The codec decodes what it encodes and stays in its buffers; MD5 is RFC 1321 however
  the input is cut; compiling a template ends, keeps line numbers, and yields a program that prints the text
  and runs the blocks in order, the one that evaluating its file hands to the interpreter; tables behave as maps and loops over them see every entry; directives keep
  the configuration well formed and the inner directory wins a merge; a handler is created once, the access
  check never lets a failed handler pass, exactly one content handler takes a request, and registered objects
  stay; forms and query strings round-trip; exceptions of Ruby arrive as C++ exceptions with their class; the
  registry holds exactly the live objects, over the whole life of a process, at whose end every handler is
  shut down; no structure behind a Ruby object is freed twice or while another object uses it; methods take the parameters they are
  registered with. Several statements delimit these promises where the code breaks them: templates without a
  last line feed, comments in templates, removal of nested directories, limits that cannot be set, servers
  without an administrator.

  \<^bold>\<open>Termination and bounds.\<close> Loops over data in memory are total functions with a measure. Loops that wait for
  a client or a file system, or follow a chain of records, are partial functions with \<^const>\<open>None\<close> for
  divergence, and the theorems about them assert that they return. There is no fuel. Buffers have
  their size in bytes; every read and write outside is \<^const>\<open>None\<close>.

  \<^bold>\<open>Not modelled.\<close> The Ruby interpreter itself, its collector beside the rule that it frees only objects nothing
  refers to, and pool cleanups; allocation failure; the tables flex generates from rhtml.lex; \<open>allow_methods\<close>,
  which hands a va_list to a function with variable arguments; \<open>default_type\<close>, which exists before Apache 2.4
  only; members that are declared and never defined; type names and prototypes (types.h and the headers of the
  classes); the Ruby scripts, tests and builds. What the \<open>init_\<close> functions of the
  classes do in Ruby is one step of \<open>Module_Life\<close>; their method tables are definitions of their own.
\<close>

section \<open>From the configuration file to the handler\<close>

text \<open>
  C1. From the configuration file to Ruby: after the lines that declare a handler with its module, class
  and method and choose it in a directory, a request in that directory loads the module, takes the
  registered object of the handler, or a new object of the class that it registers, and calls the method
  of that object; the result is OK, or the status the method has set.
\<close>

theorem configured_handler_runs:
  fixes r :: "'w req"
  assumes laws: "apr_table_laws (env_table E)" "map_of (env_hash_list E (handler_hash m c me)) = handler_hash m c me"
    and names: "m \<noteq> []" "me \<noteq> []" and takes: "r_handler r = Some ''ruby-handler''"
    and conf: "run_config (env_table E) (handler_lines inside h m c me) (fresh_config dir) = (err, st)"
    and init: "ruby_request_init_configuration E (cs_server st) (cs_dir st) (env_setup_cgi E r) = (n, ra)"
    and req: "env_require E (Some m) ra = (Inr (), rb)"
    and obj: "hs (m @ ''::'' @ c @ ''::'' @ me) = Some ob \<and> rc = rb \<or>
      hs (m @ ''::'' @ c @ ''::'' @ me) = None \<and> env_new E c rb = (Inr ob, rc)"
    and call: "env_call E ob (Some me) rc = (Inr (), re)"
  shows "err = None \<and> n = 0 \<and>
    ruby_request_handler E (cs_server st) (cs_dir st) hs r =
      (if r_status re \<noteq> r_status (env_setup_cgi E r) then r_status re else OK,
       hs(m @ ''::'' @ c @ ''::'' @ me \<mapsto> ob), re)"
proof -
  let ?A = "env_table E" and ?cfg = "cs_server st" and ?d = "cs_dir st"
  from conf have err: "err = None" and st: "?cfg = create_config\<lparr>cfg_handlers := [h \<mapsto> handler_hash m c me]\<rparr>"
    "dir_options ?d = apr_table_set ?A [] ''RubyHandler'' h"
    by (auto simp: handler_lines_run)
  from init have n: "n = 0" and merged: "r_notes ra = init_notes ?A (env_hash_list E) ?cfg ?d (r_notes (env_setup_cgi E r))"
    by (auto simp: ruby_request_init_configuration_def)
  have "last_entry (handler_settings (env_hash_list E) ?cfg x) ''RubyHandler'' = None" for x
    using handler_hash_settings [OF laws(2)]
    by (auto simp: handler_settings_def ruby_handler_config_def st last_entry_def split: option.split)
  with st have name: "apr_table_get ?A (r_notes ra) ''RubyHandler'' = Some h"
    unfolding merged by (intro init_notes_content_handler [OF laws(1)]) (simp_all add: dir_lookup_def apr_laws(2) [OF laws(1)])
  have "ruby_request_load_handler E (Some m) (Some c) (Some me) hs ra =
      (Inr \<lparr>h_module = m, h_klass = c, h_method = me, h_object = Some ob\<rparr>,
       hs(m @ ''::'' @ c @ ''::'' @ me \<mapsto> ob), rc)"
    using names(1) req obj by (rule load_found_or_new)
  then have "ruby_request_get_handler E ?cfg hs ra =
      (Inr \<lparr>h_module = m, h_klass = c, h_method = me, h_object = Some ob\<rparr>,
       hs(m @ ''::'' @ c @ ''::'' @ me \<mapsto> ob), rc)"
    by (simp add: ruby_request_get_handler_def name ruby_handler_config_def st handler_hash_names Let_def)
  from handler_call [OF _ _ this names(2) call] err n takes init show ?thesis by (simp add: declines_def)
qed

definition known_entries :: "apr_hash \<Rightarrow> entries" where
  "known_entries a =
     List.map_filter (\<lambda>k. map_option (Pair k) (a k)) [''RubyHandlerModule'', ''RubyHandlerClass'', ''RubyHandlerMethod'']"

lemma known_entries_hash: "map_of (known_entries (handler_hash m c me)) = handler_hash m c me"
  by (rule ext) (simp add: known_entries_def handler_hash_def map_filter_simps)

theorem configured_handler_runs_witness:
  "\<exists>st r1 r4. run_config assoc_table (handler_lines ''dir'' ''blog'' ''m'' ''C'' ''run'') (fresh_config (Some ''/blog'')) = (None, st) \<and>
     ruby_request_handler (demo_env\<lparr>env_hash_list := known_entries\<rparr>) (cs_server st) (cs_dir st) (\<lambda>_. None)
       (demo_req\<lparr>r_handler := Some ''ruby-handler''\<rparr>) = (OK, [''m::C::run'' \<mapsto> 1], r4)"
proof -
  let ?E = "demo_env\<lparr>env_hash_list := known_entries\<rparr>" and ?r = "demo_req\<lparr>r_handler := Some ''ruby-handler''\<rparr>"
  obtain err st where conf: "run_config assoc_table (handler_lines ''dir'' ''blog'' ''m'' ''C'' ''run'') (fresh_config (Some ''/blog'')) = (err, st)"
    by (metis prod.exhaust)
  obtain n r1 where init: "ruby_request_init_configuration ?E (cs_server st) (cs_dir st) (env_setup_cgi ?E ?r) = (n, r1)"
    by (metis prod.exhaust)
  have status: "r_status r1 = 200" using init by (auto simp: ruby_request_init_configuration_def demo_env_def demo_req_def)
  have "err = None \<and> n = 0 \<and> ruby_request_handler ?E (cs_server st) (cs_dir st) (\<lambda>_. None) ?r =
      (if r_status r1 \<noteq> r_status (env_setup_cgi ?E ?r) then r_status r1 else OK, (\<lambda>_. None)(''m'' @ ''::'' @ ''C'' @ ''::'' @ ''run'' \<mapsto> 1), r1)"
    by (rule configured_handler_runs [where dir = "Some ''/blog''" and inside = "''dir''" and h = "''blog''" and rb = r1 and rc = r1])
      (use conf init in \<open>simp_all add: demo_env_def assoc_table_laws known_entries_hash\<close>)
  with conf status show ?thesis by (auto simp: demo_env_def demo_req_def)
qed

text \<open>
  C6. The default handler: the three directives in the server's part of the file are what a request runs
  that names no handler, whether or not it asks for \<open>ruby-handler\<close>; the names go into its notes first. The
  same directives in the request's directory change nothing: they are stored under names that the lookup of
  the default handler never reads.
\<close>

theorem default_handler_runs:
  fixes r :: "'w req"
  assumes laws: "apr_table_laws (env_table E)" and names: "m \<noteq> []" "me \<noteq> []"
    and takes: "r_handler r \<in> {None, Some ''ruby-handler''}"
    and notes0: "list_all (\<lambda>k. apr_table_get (env_table E) (r_notes (env_setup_cgi E r)) k = None) special_names"
    and conf: "run_config (env_table E) (default_lines m c me None @ default_lines m2 c2 me2 (Some inside)) (fresh_config dir) = (err, st)"
    and init: "ruby_request_init_configuration E (cs_server st) (cs_dir st) (env_setup_cgi E r) = (n, ra)"
    and req: "env_require E (Some m) (ra\<lparr>r_notes := note_handler (env_table E) m c me (r_notes ra)\<rparr>) = (Inr (), rb)"
    and obj: "hs (m @ ''::'' @ c @ ''::'' @ me) = Some ob \<and> rc = rb \<or>
      hs (m @ ''::'' @ c @ ''::'' @ me) = None \<and> env_new E c rb = (Inr ob, rc)"
    and call: "env_call E ob (Some me) rc = (Inr (), rz)"
  shows "err = None \<and> n = 0 \<and>
    ruby_request_handler E (cs_server st) (cs_dir st) hs r =
      (if r_status rz \<noteq> r_status (env_setup_cgi E r) then r_status rz else OK,
       hs(m @ ''::'' @ c @ ''::'' @ me \<mapsto> ob), rz)"
proof -
  let ?A = "env_table E" and ?cfg = "cs_server st" and ?d = "cs_dir st"
  from conf have err: "err = None" and st: "?cfg = create_config\<lparr>cfg_default_handler_module := Some m,
      cfg_default_handler_class := Some c, cfg_default_handler_method := Some me\<rparr>" "dir_options ?d = note_handler ?A m2 c2 me2 []"
    by (auto simp: default_lines_run)
  from init have n: "n = 0" and merged: "r_notes ra = init_notes ?A (env_hash_list E) ?cfg ?d (r_notes (env_setup_cgi E r))"
    by (auto simp: ruby_request_init_configuration_def)
  have cfg: "configured ?A ?cfg ?d" "cfg_handler ?cfg = None" "\<forall>k \<in> set special_names. apr_table_get ?A (cfg_options ?cfg) k = None"
    by (simp_all add: configured_def laws st create_config_def note_handler_configured [OF laws] apr_laws(1) [OF laws])
      (simp add: distinct_keys_def)
  have dir: "k \<in> set special_names \<Longrightarrow> dir_lookup ?A ?d k = None" for k
    by (simp add: dir_lookup_def st note_handler_configured [OF laws])
  have none: "dir_lookup ?A ?d ''RubyHandler'' = None" "dir_lookup ?A ?d ''RubyAccessHandler'' = None"
    "dir_lookup ?A ?d ''RubyDefaultHandlerModule'' = None" "dir_lookup ?A ?d ''RubyDefaultHandlerClass'' = None"
    "dir_lookup ?A ?d ''RubyDefaultHandlerMethod'' = None"
    by (rule dir, simp add: special_names_def)+
  have old: "\<forall>k \<in> set special_names. apr_table_get ?A (r_notes (env_setup_cgi E r)) k = None"
    using notes0 by (simp add: list_all_iff)
  have noted: "apr_table_get ?A (r_notes ra) ''RubyHandler'' = None"
    "apr_table_get ?A (r_notes ra) ''RubyDefaultHandlerModule'' = Some m"
    "apr_table_get ?A (r_notes ra) ''RubyDefaultHandlerClass'' = Some c"
    "apr_table_get ?A (r_notes ra) ''RubyDefaultHandlerMethod'' = Some me"
    unfolding merged init_notes_no_handler [OF cfg(1) none(1,2) cfg(2,3) old] by (simp_all add: none st)
  have "ruby_request_get_handler E ?cfg hs ra =
      (Inr \<lparr>h_module = m, h_klass = c, h_method = me, h_object = Some ob\<rparr>,
       hs(m @ ''::'' @ c @ ''::'' @ me \<mapsto> ob), rc)"
    using load_found_or_new [where c = c and me = me and hs = hs, OF names(1) req] obj
    by (simp add: ruby_request_get_handler_def noted or_else_def Let_def note_handler_def)
  from handler_call [OF _ _ this names(2) call] err n takes init show ?thesis by (auto simp: declines_def)
qed

theorem default_handler_runs_witness:
  "\<exists>st r4. run_config assoc_table (default_lines ''m'' ''C'' ''run'' None @ default_lines ''x'' ''X'' ''y'' (Some ''dir''))
       (fresh_config (Some ''/blog'')) = (None, st) \<and>
     ruby_request_handler demo_env (cs_server st) (cs_dir st) (\<lambda>_. None) (demo_req\<lparr>r_handler := None\<rparr>) =
       (OK, [''m::C::run'' \<mapsto> 1], r4)"
proof -
  let ?r = "demo_req\<lparr>r_handler := None\<rparr>"
  obtain err st where conf: "run_config assoc_table (default_lines ''m'' ''C'' ''run'' None @ default_lines ''x'' ''X'' ''y'' (Some ''dir''))
       (fresh_config (Some ''/blog'')) = (err, st)"
    by (metis prod.exhaust)
  obtain n r1 where init: "ruby_request_init_configuration demo_env (cs_server st) (cs_dir st) (env_setup_cgi demo_env ?r) = (n, r1)"
    by (metis prod.exhaust)
  have status: "r_status r1 = 200" using init by (auto simp: ruby_request_init_configuration_def demo_env_def demo_req_def)
  let ?r2 = "r1\<lparr>r_notes := note_handler (env_table demo_env) ''m'' ''C'' ''run'' (r_notes r1)\<rparr>"
  have "err = None \<and> n = 0 \<and> ruby_request_handler demo_env (cs_server st) (cs_dir st) (\<lambda>_. None) ?r =
      (if r_status ?r2 \<noteq> r_status (env_setup_cgi demo_env ?r) then r_status ?r2 else OK,
       (\<lambda>_. None)(''m'' @ ''::'' @ ''C'' @ ''::'' @ ''run'' \<mapsto> 1), ?r2)"
    by (rule default_handler_runs [where dir = "Some ''/blog''" and inside = "''dir''" and rb = ?r2 and rc = ?r2])
      (use conf init in \<open>simp_all add: demo_env_def demo_req_def assoc_table_laws special_names_def apr_laws(1) [OF assoc_table_laws]\<close>)
  with conf status show ?thesis by (auto simp: demo_env_def demo_req_def)
qed

section \<open>From the body of a form to Ruby\<close>

lemma find_request_params: "find_method (init_request E) ''params'' = Some (Fn0 (request_m_params E), 0)"
  by (simp add: find_request)

text \<open>
  C2. A form reaches Ruby unchanged: for a body put together from encoded pairs (of characters 16 to 127), \<open>params\<close> returns a table
  in which Ruby finds under each key, without regard to case, the values given for it, joined by commas in
  their order, and nil under any other; the body is then read, and a second call returns the same table.
\<close>

theorem form_reaches_ruby:
  assumes laws: "apr_table_laws (qe_table E)" and K: "client_laws (qe_client E) unread"
    and new: "rq_form_data (qr_req q) = None" "rq_content (qr_req q) = []"
    and ct: "table_get (qe_table E) (rq_tables (qr_req q)) (rq_headers_in (qr_req q)) ''Content-Type'' = Some (Some c)"
    and form: "find_at c ''application/x-www-form-urlencoded'' 0 \<noteq> None"
    and body: "unread (rq_client (qr_req q)) = intercalate ''&'' parts"
    and ps: "map encode_pair ps = map Some parts" "\<forall>(k, v) \<in> set ps. two_digit k \<and> two_digit v"
  shows "\<exists>t q'. rb_call (init_request E) ''params'' [] q = Some (Inr (make_apr_table t, q')) \<and>
    (\<forall>k. table_m_get (qe_table E) (rq_tables (qr_req q')) t (Str k) =
       Some (Inr (let vs = values_of ps (c_str k) in if vs = [] then Qnil else Str (c_str (intercalate '', '' vs)),
         rq_tables (qr_req q')))) \<and>
    unread (rq_client (qr_req q')) = [] \<and>
    rb_call (init_request E) ''params'' [] q' = Some (Inr (make_apr_table t, q'))"
proof -
  obtain t s' where t: "form_data (qe_table E) (qe_client E) (qr_max_content_length q) (qr_req q) = Some (t, s')"
    "holds_pairs (qe_table E) ps (rq_tables s') t" "unread (rq_client s') = []"
    "form_data (qe_table E) (qe_client E) (qr_max_content_length q) s' = Some (t, s')"
    using form_data_form [OF laws K new(1) ct form new(2) body ps] by blast
  then obtain a where "t = Some a" by (auto simp: holds_pairs_def)
  with t have "rb_call (init_request E) ''params'' [] q = Some (Inr (make_apr_table t, q\<lparr>qr_req := s'\<rparr>))"
    "rb_call (init_request E) ''params'' [] (q\<lparr>qr_req := s'\<rparr>) = Some (Inr (make_apr_table t, q\<lparr>qr_req := s'\<rparr>))"
    by (simp_all add: rb_call_def find_request_params request_m_params_def on_request_def)
  moreover have "table_m_get (qe_table E) (rq_tables s') t (Str k) =
      Some (Inr (let vs = values_of ps (c_str k) in if vs = [] then Qnil else Str (c_str (intercalate '', '' vs)), rq_tables s'))" for k
    using t(2) by (simp add: table_m_get_def one_string_def holds_pairs_def Let_def)
  ultimately show ?thesis using t(3) by (intro exI [of _ t] exI [of _ "q\<lparr>qr_req := s'\<rparr>"]) simp
qed

theorem form_reaches_ruby_witness:
  "\<exists>t q'. rb_call (init_request sample_env) ''params'' [] (sample_request\<lparr>qr_req :=
        Request None ''POST'' 0 (Some 0) ''a=1&b+c=2%3D3''
          \<lparr>th_tables = [0 \<mapsto> [(''Content-Type'', ''application/x-www-form-urlencoded'')]], th_next = 1\<rparr>\<rparr>) =
      Some (Inr (make_apr_table t, q')) \<and>
    table_m_get assoc_table (rq_tables (qr_req q')) t (Str ''B C'') = Some (Inr (Str ''2=3'', rq_tables (qr_req q')))"
proof -
  let ?s = "Request None ''POST'' 0 (Some 0) ''a=1&b+c=2%3D3''
          \<lparr>th_tables = [0 \<mapsto> [(''Content-Type'', ''application/x-www-form-urlencoded'')]], th_next = 1\<rparr>"
  let ?q = "sample_request\<lparr>qr_req := ?s\<rparr>" and ?E = sample_env
  have K: "client_laws (qe_client ?E) id" and A: "qe_table ?E = assoc_table" "apr_table_laws (qe_table ?E)"
    by (simp_all add: sample_env_def chunk_client_laws assoc_table_laws)
  have new: "rq_form_data (qr_req ?q) = None" "rq_content (qr_req ?q) = []" by (simp_all add: Request_def)
  have ct: "table_get (qe_table ?E) (rq_tables (qr_req ?q)) (rq_headers_in (qr_req ?q)) ''Content-Type'' =
      Some (Some ''application/x-www-form-urlencoded'')"
    by (simp add: A Request_def table_get_def table_elts_def assoc_table_def)
  have form: "find_at ''application/x-www-form-urlencoded'' ''application/x-www-form-urlencoded'' 0 \<noteq> None"
    by (simp add: find_at_def)
  have body: "id (rq_client (qr_req ?q)) = intercalate ''&'' [''a=1'', ''b+c=2%3D3'']" by (simp add: Request_def)
  have "values_of [(''a'', ''1''), (''b c'', ''2=3'')] (c_str ''B C'') = [''2=3'']" "c_str ''2=3'' = ''2=3''"
    by code_simp+
  with form_reaches_ruby [OF A(2) K new ct form body example_pairs] A(1) show ?thesis
    by (fastforce simp: Let_def)
qed

section \<open>Handler objects over the life of a process\<close>



section \<open>From a template file to the interpreter\<close>

text \<open>
  C9. A template file whose lines are text and code and \<open>=\<close> blocks, in either delimiter style, with LF or
  CRLF ends, each block on one line and one statement (or the opening or closing part of one): its strings are
  closed, and outside of them are no comments, no semicolons and none of the characters with which other
  literals begin (\<open>fragment\<close>). \<open>RHTML.compile\<close> returns one Ruby program for it, whose statements are, in the order
  of the document, the print of each piece of text, unescaped to exactly that text, with the line feed of its
  line, each code block as it stands, and the print of each \<open>=\<close> block's value; it leaves no object registered.
  (A comment in a block takes the text behind it along: \<open>comment_block_swallows_text\<close>.) The
  C++ evaluation of the file gives the interpreter that same program, whole, with the file's name and a new
  binding of the context. It returns true in the world the program has left; for an exception of the
  program there is no handler.
\<close>

theorem template_runs:
  assumes "\<forall>(l, crlf) \<in> set doc. line_ok l" "fs (c_str f) = Some (render_doc doc)"
    and "rb_new_instance V ''Object'' [] (vm_world s) = (Inr ctx, w)" "ctx \<notin> set (registered s)"
    and bnd: "rb_funcall V (ob_self ob) ''binding'' [] (vm_world s1) = (Inr b, w1)"
  shows "\<exists>prog n s'. ruby_stmts prog = Some (concat (map (line_stmts \<circ> fst) doc)) \<and>
      rb_call (init_rhtml V fs stdin) ''compile'' [Str f] s = Some (Inr (Str prog, s')) \<and> registered s' = registered s \<and>
      (case rb_funcall V Qnil ''eval'' [Str prog, b, Str (c_str f), INT2NUM n] w1 of
         (Inl x, w2) \<Rightarrow> eval_file V fs stdin ob (Some (c_str f)) Qnil (RhtmlParser Qnil) s1 = None
       | (Inr v, w2) \<Rightarrow> \<exists>p s2. eval_file V fs stdin ob (Some (c_str f)) Qnil (RhtmlParser Qnil) s1 =
           Some (Inr (True, p), s2) \<and> vm_world s2 = w2)"
proof -
  obtain p where p: "compile_text (render_doc doc) (RhtmlParser Qnil) = Some p"
    "ruby_stmts (p_text p) = Some (concat (map (line_stmts \<circ> fst) doc))" "NUL \<notin> set (p_text p)"
    using compile_document [OF assms(1), of "RhtmlParser Qnil"] by (auto simp: RhtmlParser_def)
  have file_text: "c_str (render_doc doc) = render_doc doc" using c_str_render [OF assms(1)] by simp
  from rhtml_from_ruby [OF assms(3,4), where t = "render_doc doc" and f = f and fs = fs and bs = "[]" and stdin = stdin] p(1) assms(2)
  obtain s' where s': "rb_call (init_rhtml V fs stdin) ''compile'' [Str f] s = Some (Inr (Str (p_text p), s'))"
    "registered s' = registered s" by (auto simp: file_text)
  obtain out w2 where run: "rb_funcall V Qnil ''eval'' [Str (p_text p), b, Str (c_str f), INT2NUM (p_block_start_line p)] w1 = (out, w2)"
    by (meson surj_pair)
  let ?p = "p\<lparr>p_file_name := Some (c_str f)\<rparr>"
  have "eval_file V fs stdin ob (Some (c_str f)) Qnil (RhtmlParser Qnil) s1 = rhtml_parser_eval V ob Qnil ?p s1"
    using assms(2) c_str_render [OF assms(1)] p(1) by (simp add: eval_file_def compile_file_named)
  moreover have "rb_funcall V Qnil ''eval'' [Str (c_str (p_text ?p)), b,
      Str (c_str (case p_file_name ?p of None \<Rightarrow> ''eval'' | Some f \<Rightarrow> f)), INT2NUM (p_block_start_line ?p)] w1 = (out, w2)"
    using run p(3) by simp
  from rhtml_eval_runs [OF bnd this]
  have "case out of Inl x \<Rightarrow> rhtml_parser_eval V ob Qnil ?p s1 = None
    | Inr v \<Rightarrow> \<exists>s2. rhtml_parser_eval V ob Qnil ?p s1 = Some (Inr (True, ?p\<lparr>p_binding := b\<rparr>), s2) \<and> vm_world s2 = w2" .
  ultimately show ?thesis using p(2) s' run
    by (intro exI [of _ "p_text p"] exI [of _ "p_block_start_line p"] exI [of _ s']) (auto split: sum.splits)
qed

text \<open>The program of the example document prints, in an interpreter that counts the programs it runs.\<close>

definition running_ruby :: "nat ruby_api" where
  "running_ruby = counting_ruby\<lparr>rb_funcall := \<lambda>recv m as w. (Inr (if m = ''binding'' then Obj ''Binding'' w else Qnil), Suc w)\<rparr>"

theorem template_runs_witness:
  "\<exists>prog p s2. ruby_stmts prog = Some [Print ''a#'', Stmt ''print(( x ))'', Print ''b'', Stmt '' y '', Print [LF], Print [QUOTE, LF]] \<and>
     map_option (map_sum id fst) (rb_call (init_rhtml running_ruby [''t.rhtml'' \<mapsto> ''a#<%= x %>b{% y %}'' @ [CR, LF, QUOTE, LF]] []) ''compile'' [Str ''t.rhtml'']
       \<lparr>vm_running = True, vm_objects = None, vm_stdout = [], vm_world = 0\<rparr>) = Some (Inr (Str prog)) \<and>
     eval_file running_ruby [''t.rhtml'' \<mapsto> ''a#<%= x %>b{% y %}'' @ [CR, LF, QUOTE, LF]] [] \<lparr>ob_self = Obj ''C'' 9, ob_class_name = ''C''\<rparr>
       (Some ''t.rhtml'') Qnil (RhtmlParser Qnil) \<lparr>vm_running = True, vm_objects = None, vm_stdout = [], vm_world = 0\<rparr> =
       Some (Inr (True, p), s2) \<and> vm_world s2 = 2"
proof -
  let ?s = "\<lparr>vm_running = True, vm_objects = None, vm_stdout = [], vm_world = 0\<rparr>" and ?ob = "\<lparr>ob_self = Obj ''C'' 9, ob_class_name = ''C''\<rparr>"
  have doc: "render_doc demo_doc = ''a#<%= x %>b{% y %}'' @ [CR, LF, QUOTE, LF]"
    "concat (map (line_stmts \<circ> fst) demo_doc) = [Print ''a#'', Stmt ''print(( x ))'', Print ''b'', Stmt '' y '', Print [LF], Print [QUOTE, LF]]"
    by (simp_all add: demo_doc_def render_doc_def open_delim_def close_delim_def line_end_def line_stmts_def)
  have "\<forall>(l, crlf) \<in> set demo_doc. line_ok l"
    by (simp add: demo_doc_def line_ok_def text_ok_def code_ok_def scannable_def plain_char_def isalnum_def code_def apart_Cons NUL_def)
  moreover have name: "c_str ''t.rhtml'' = ''t.rhtml''" by (simp add: NUL_def)
  then have "[''t.rhtml'' \<mapsto> render_doc demo_doc] (c_str ''t.rhtml'') = Some (render_doc demo_doc)" by simp
  moreover have "rb_new_instance running_ruby ''Object'' [] (vm_world ?s) = (Inr (Obj ''Object'' 0), 1)"
    "rb_funcall running_ruby (ob_self ?ob) ''binding'' [] (vm_world ?s) = (Inr (Obj ''Binding'' 0), 1)"
    "Obj ''Object'' 0 \<notin> set (registered ?s)"
    by (simp_all add: running_ruby_def counting_ruby_def registered_def)
  ultimately show ?thesis
    using template_runs [where doc = demo_doc and V = running_ruby and s = ?s and ?s1.0 = ?s and ob = ?ob and f = "''t.rhtml''"
      and fs = "[''t.rhtml'' \<mapsto> render_doc demo_doc]" and ctx = "Obj ''Object'' 0" and w = 1 and b = "Obj ''Binding'' 0" and ?w1.0 = 1 and stdin = "[]"]
    by (fastforce simp: running_ruby_def doc name)
qed

end
